(* ===== verification/Prelude.thy ===== *)
theory Prelude
  imports Complex_Main "HOL-Library.Word"
begin

text \<open>
  Shared vocabulary of the development: the type synonyms for instants and Python values, the
  collections that carry the component proofs, SQL-shaped operations on tables kept as lists of
  rows (\<open>update_where\<close>, \<open>find_row\<close>, \<open>order_by_limit\<close>, \<open>max_col\<close>), the ranges of the
  Postgres integer types, and the interface \<open>keyed_table\<close> of a table with a primary key, an identity
  sequence and one unique constraint, whose laws are proved once and reused by every table.
\<close>

section \<open>Names\<close>

text \<open>An instant is a timezone-aware UTC datetime: microseconds since the epoch. Both Python's
  \<open>datetime\<close> and Postgres' \<open>timestamptz\<close> have microsecond resolution. A Python \<open>str\<close> is a
  list of characters (code points below 256).\<close>

type_synonym datetime = int
type_synonym py_str = string

named_theorems tx_simps "equations that run a database program on a success path"
named_theorems row_simps "effect of a statement on the tables"
named_theorems frame_intros "programs that keep the environment and never rewind a sequence"

section \<open>Rows of a table\<close>

definition update_where :: "('r \<Rightarrow> bool) \<Rightarrow> ('r \<Rightarrow> 'r) \<Rightarrow> 'r list \<Rightarrow> 'r list" where
  "update_where p f rows = map (\<lambda>r. if p r then f r else r) rows"

definition find_row :: "('r \<Rightarrow> bool) \<Rightarrow> 'r list \<Rightarrow> 'r option" where
  "find_row p rows = List.find p rows"

definition order_by_limit :: "('r \<Rightarrow> 'k::linorder) \<Rightarrow> nat \<Rightarrow> 'r list \<Rightarrow> 'r list" where
  "order_by_limit key n rows = take n (sort_key key rows)"

definition max_col :: "('r \<Rightarrow> int) \<Rightarrow> 'r list \<Rightarrow> int option" where
  "max_col f rows = (if rows = [] then None else Some (Max (set (map f rows))))"

definition sum_col :: "('r \<Rightarrow> bool) \<Rightarrow> ('r \<Rightarrow> int) \<Rightarrow> 'r list \<Rightarrow> int" where
  "sum_col p f rows = sum_list (map f (filter p rows))"

lemma find_row_Some:
  "find_row p rows = Some r \<Longrightarrow> r \<in> set rows \<and> p r"
  by (auto simp: find_row_def find_Some_iff in_set_conv_nth)

lemma find_row_None [simp]: "find_row p rows = None \<longleftrightarrow> (\<forall>r \<in> set rows. \<not> p r)"
  by (auto simp: find_row_def find_None_iff)

lemma find_row_exists: "r \<in> set rows \<Longrightarrow> p r \<Longrightarrow> \<exists>r'. find_row p rows = Some r' \<and> p r' \<and> r' \<in> set rows"
  by (cases "find_row p rows") (auto dest: find_row_Some)

lemma find_row_unique:
  assumes "r \<in> set rows" "p r" "\<And>s. s \<in> set rows \<Longrightarrow> p s \<Longrightarrow> s = r"
  shows "find_row p rows = Some r"
  proof -
  from find_row_exists [of r rows p] assms(1,2)
  obtain r' where "find_row p rows = Some r'" "p r'" "r' \<in> set rows" by blast
  with assms(3) show ?thesis by blast
qed

lemma update_where_simps [simp]:
  "update_where p f [] = []"
  "update_where p f (r # rows) = (if p r then f r else r) # update_where p f rows"
  "length (update_where p f rows) = length rows"
  "(update_where p f rows = []) = (rows = [])"
  by (simp_all add: update_where_def)

lemma set_update_where:
  "set (update_where p f rows) = (\<lambda>r. if p r then f r else r) ` set rows"
  by (simp add: update_where_def)

lemma update_where_memD:
  "r \<in> set (update_where p f rows) \<Longrightarrow> \<exists>s \<in> set rows. r = (if p s then f s else s)"
  by (auto simp: set_update_where)

lemma find_row_simps [simp]:
  "find_row p [] = None"
  "find_row p (r # rows) = (if p r then Some r else find_row p rows)"
  by (simp_all add: find_row_def)

lemma find_row_append:
  "find_row p (xs @ ys) = (case find_row p xs of Some r \<Rightarrow> Some r | None \<Rightarrow> find_row p ys)"
  by (induction xs) auto

lemma find_row_update_where:
  assumes "\<And>r. p (f r) = p r"
  shows "find_row p (update_where q f rows) = map_option (\<lambda>r. if q r then f r else r) (find_row p rows)"
  by (induction rows) (auto simp: assms)

text \<open>An update that leaves a column alone leaves its projection alone.\<close>

lemma map_update_where:
  "(\<And>r. k (f r) = k r) \<Longrightarrow> map k (update_where p f rows) = map k rows"
  by (simp add: update_where_def)

lemma sum_col_simps [simp]:
  "sum_col p f [] = 0"
  "sum_col p f (r # rows) = (if p r then f r else 0) + sum_col p f rows"
  "sum_col p f (rows @ rows') = sum_col p f rows + sum_col p f rows'"
  by (auto simp: sum_col_def)

lemma sum_col_none: "(\<And>r. r \<in> set rows \<Longrightarrow> \<not> p r) \<Longrightarrow> sum_col p f rows = 0"
  by (induction rows) auto

lemma max_col_upper: "max_col f rows = Some m \<Longrightarrow> r \<in> set rows \<Longrightarrow> f r \<le> m"
  by (auto simp: max_col_def split: if_splits)

lemma max_col_None [simp]: "max_col f rows = None \<longleftrightarrow> rows = []"
  by (simp add: max_col_def)

lemma max_col_attained: "max_col f rows = Some m \<Longrightarrow> \<exists>r \<in> set rows. f r = m"
  proof -
  assume m: "max_col f rows = Some m"
  then have "m \<in> f ` set rows"
    using Max_in [of "f ` set rows"] by (auto simp: max_col_def split: if_splits)
  then show ?thesis by auto
qed

lemma order_by_limit_subset: "set (order_by_limit key n rows) \<subseteq> set rows"
  by (auto simp: order_by_limit_def dest: in_set_takeD)

lemma order_by_limit_length: "length (order_by_limit key n rows) = min (length rows) n"
  by (simp add: order_by_limit_def)

lemma order_by_limit_sorted: "sorted (map key (order_by_limit key n rows))"
  by (simp add: order_by_limit_def sorted_wrt_take take_map [symmetric])

text \<open>A row left out of a limited, ordered selection is not earlier than any row selected.\<close>

lemma order_by_limit_least:
  assumes "r \<in> set rows" "r \<notin> set (order_by_limit key n rows)" "s \<in> set (order_by_limit key n rows)"
  shows "key s \<le> key r"
proof -
  let ?xs = "sort_key key rows"
  have "r \<in> set (take n ?xs) \<union> set (drop n ?xs)"
    using assms(1) by (simp only: set_append [symmetric] append_take_drop_id set_sort)
  then have "r \<in> set (drop n ?xs)"
    using assms(2) by (simp add: order_by_limit_def)
  moreover have "sorted (map key (take n ?xs) @ map key (drop n ?xs))"
    by (simp only: map_append [symmetric] append_take_drop_id) simp
  ultimately show ?thesis
    using assms(3) by (auto simp: sorted_append order_by_limit_def)
qed

section \<open>Postgres integer types\<close>

definition int4_ok :: "int \<Rightarrow> bool" where
  "int4_ok i \<longleftrightarrow> - 2147483648 \<le> i \<and> i \<le> 2147483647"

definition int8_ok :: "int \<Rightarrow> bool" where
  "int8_ok i \<longleftrightarrow> - 9223372036854775808 \<le> i \<and> i \<le> 9223372036854775807"

text \<open>Neither \<open>text\<close> nor \<open>jsonb\<close> can hold the NUL character.\<close>

definition text_ok :: "py_str \<Rightarrow> bool" where
  "text_ok s \<longleftrightarrow> CHR 0x00 \<notin> set s"

section \<open>Tables with a primary key and a unique constraint\<close>

text \<open>\<open>INSERT ... ON CONFLICT DO NOTHING RETURNING id\<close>: the row is built from the next identity
  value; when another row carries the same unique key nothing is inserted and nothing is returned.\<close>

definition on_conflict_do_nothing ::
  "('r \<Rightarrow> 'k) \<Rightarrow> (int \<Rightarrow> 'r) \<Rightarrow> int \<Rightarrow> 'r list \<Rightarrow> int option \<times> 'r list" where
  "on_conflict_do_nothing key mk n rows =
     (if key (mk n) \<in> key ` set rows then (None, rows) else (Some n, rows @ [mk n]))"

definition table_ok :: "('r \<Rightarrow> int) \<Rightarrow> ('r \<Rightarrow> 'k) \<Rightarrow> int \<Rightarrow> 'r list \<Rightarrow> bool" where
  "table_ok rid key n rows \<longleftrightarrow>
     distinct (map rid rows) \<and> distinct (map key rows) \<and> (\<forall>i \<in> set (map rid rows). 1 \<le> i \<and> i < n)"

text \<open>The interface a table offers to the adapters: \<open>rid\<close> is its identity column, \<open>key\<close> its unique
  constraint. Every adapter that inserts relies on the laws below and on nothing else.\<close>

locale keyed_table =
  fixes rid :: "'r \<Rightarrow> int" and key :: "'r \<Rightarrow> 'k" and mk :: "'a \<Rightarrow> int \<Rightarrow> 'r"
  assumes rid_mk: "rid (mk a n) = n"
    and key_mk: "key (mk a n) = key (mk a m)"
begin

lemma insert_ok:
  assumes "table_ok rid key n rows" "1 \<le> n"
  shows "table_ok rid key (n + 1) (snd (on_conflict_do_nothing key (mk a) n rows))"
  using assms by (auto simp: table_ok_def on_conflict_do_nothing_def rid_mk)

lemma insert_once:
  "fst (on_conflict_do_nothing key (mk a) m
     (snd (on_conflict_do_nothing key (mk a) n rows))) = None"
  using key_mk [of a m n] by (auto simp: on_conflict_do_nothing_def)

lemma insert_twice:
  "snd (on_conflict_do_nothing key (mk a) m (snd (on_conflict_do_nothing key (mk a) n rows)))
     = snd (on_conflict_do_nothing key (mk a) n rows)"
  using key_mk [of a m n] by (auto simp: on_conflict_do_nothing_def)

lemma insert_keeps: "set rows \<subseteq> set (snd (on_conflict_do_nothing key (mk a) n rows))"
  by (auto simp: on_conflict_do_nothing_def)

lemma insert_Some:
  "on_conflict_do_nothing key (mk a) n rows = (Some i, rows') \<longleftrightarrow>
     i = n \<and> rows' = rows @ [mk a n] \<and> (\<forall>r \<in> set rows. key r \<noteq> key (mk a n))"
  by (auto simp: on_conflict_do_nothing_def image_iff)

lemma insert_None:
  "on_conflict_do_nothing key (mk a) n rows = (None, rows') \<longleftrightarrow>
     rows' = rows \<and> (\<exists>r \<in> set rows. key r = key (mk a n))"
  by (auto simp: on_conflict_do_nothing_def image_iff)

lemma insert_present:
  assumes "on_conflict_do_nothing key (mk a) n rows = (x, rows')"
  shows "\<exists>r \<in> set rows'. key r = key (mk a n)"
  using assms by (auto simp: on_conflict_do_nothing_def split: if_splits)

end

lemma table_ok_mono: "table_ok rid key n rows \<Longrightarrow> n \<le> m \<Longrightarrow> table_ok rid key m rows"
  by (auto simp: table_ok_def)

lemma table_ok_update:
  "(\<And>r. rid (f r) = rid r) \<Longrightarrow> (\<And>r. key (f r) = key r) \<Longrightarrow>
   table_ok rid key n (update_where p f rows) = table_ok rid key n rows"
  by (simp only: table_ok_def map_update_where)

lemma table_ok_filter: "table_ok rid key n rows \<Longrightarrow> table_ok rid key n (filter p rows)"
  by (auto simp: table_ok_def distinct_map intro: inj_on_subset)

lemma table_ok_rid_inj:
  "table_ok rid key n rows \<Longrightarrow> r \<in> set rows \<Longrightarrow> s \<in> set rows \<Longrightarrow> rid r = rid s \<Longrightarrow> r = s"
  by (auto simp: table_ok_def distinct_map dest: inj_onD)

lemma table_ok_key_inj:
  "table_ok rid key n rows \<Longrightarrow> r \<in> set rows \<Longrightarrow> s \<in> set rows \<Longrightarrow> key r = key s \<Longrightarrow> r = s"
  by (auto simp: table_ok_def distinct_map dest: inj_onD)

end
