(* ===== verification/Floats.thy ===== *)
theory Floats
  imports Prelude "HOL-Library.Log_Nat"
begin

text \<open>
  Python's \<open>float\<close>: an IEEE double is the rational number it denotes, and every arithmetic operation
  is the exact rational operation followed by \<open>rnd\<close>, rounding to the nearest double (ties to
  even, gradual underflow). Overflow to infinity is not represented: every value the program computes
  with is far below the largest double. Also the two conversions the program relies on,
  \<open>timedelta(seconds=x)\<close> and \<open>timedelta.total_seconds()\<close>.
\<close>

section \<open>Rounding\<close>

definition floor_log2 :: "rat \<Rightarrow> int" where
  "floor_log2 x = (let (p, q) = quotient_of x; k = bitlen p - bitlen q
                   in if 2 powi k \<le> x then k else k - 1)"

definition round_half_even :: "rat \<Rightarrow> int" where
  "round_half_even x = (let f = \<lfloor>x\<rfloor>; d = x - of_int f
     in if d < 1/2 then f else if 1/2 < d then f + 1 else if even f then f else f + 1)"

definition ulp_exp :: "rat \<Rightarrow> int" where
  "ulp_exp x = max (floor_log2 x - 52) (- 1074)"

definition rnd :: "rat \<Rightarrow> rat" where
  "rnd x = (if x = 0 then 0
            else let e = ulp_exp \<bar>x\<bar> in sgn x * of_int (round_half_even (\<bar>x\<bar> / 2 powi e)) * 2 powi e)"

definition is_double :: "rat \<Rightarrow> bool" where
  "is_double x \<longleftrightarrow> rnd x = x"

definition fadd :: "rat \<Rightarrow> rat \<Rightarrow> rat" where "fadd x y = rnd (x + y)"
definition fsub :: "rat \<Rightarrow> rat \<Rightarrow> rat" where "fsub x y = rnd (x - y)"
definition fmul :: "rat \<Rightarrow> rat \<Rightarrow> rat" where "fmul x y = rnd (x * y)"
definition fdiv :: "rat \<Rightarrow> rat \<Rightarrow> rat" where "fdiv x y = rnd (x / y)"

text \<open>\<open>float(n)\<close> for a Python int, which raises OverflowError when the nearest double is not finite.\<close>

definition float_of_int :: "int \<Rightarrow> rat option" where
  "float_of_int n = (if \<bar>n\<bar> < 2 ^ 1024 - 2 ^ 970 then Some (rnd (of_int n)) else None)"

text \<open>\<open>int(x)\<close> truncates towards zero.\<close>

definition py_trunc :: "rat \<Rightarrow> int" where
  "py_trunc x = (if 0 \<le> x then \<lfloor>x\<rfloor> else \<lceil>x\<rceil>)"

section \<open>Durations\<close>

text \<open>A \<open>timedelta\<close> is a number of microseconds. \<open>timedelta(seconds=x)\<close> takes the whole seconds
  exactly and rounds the fractional part, scaled in floating point, half to even.\<close>

definition timedelta_seconds :: "rat \<Rightarrow> int" where
  "timedelta_seconds x = py_trunc x * 1000000
     + round_half_even (fmul 1000000 (x - of_int (py_trunc x)))"

definition total_seconds :: "int \<Rightarrow> rat" where
  "total_seconds us = fdiv (of_int us) 1000000"

section \<open>Laws of rounding\<close>

lemma bitlen_powi:
  assumes "0 < p"
  shows "(2::rat) powi (bitlen p - 1) \<le> of_int p" and "of_int p < (2::rat) powi bitlen p"
proof -
  have b: "0 < bitlen p"
    using assms bitlen_eq_zero_iff [of p] bitlen_nonneg [of p] by simp
  have "(2::rat) powi (bitlen p - 1) = of_int (2 ^ nat (bitlen p - 1))"
    using b by (simp add: power_int_def)
  then show "(2::rat) powi (bitlen p - 1) \<le> of_int p"
    using bitlen_bounds [OF assms] by (simp only: of_int_le_iff)
  have "(2::rat) powi bitlen p = of_int (2 ^ nat (bitlen p))"
    using b by (simp add: power_int_def)
  then show "of_int p < (2::rat) powi bitlen p"
    using bitlen_bounds [OF assms] by (simp only: of_int_less_iff)
qed

lemma floor_log2_bounds:
  assumes "0 < x"
  shows "2 powi (floor_log2 x) \<le> x" and "x < 2 powi (floor_log2 x + 1)"
proof -
  obtain p q where pq: "quotient_of x = (p, q)" by (cases "quotient_of x")
  have q: "0 < q" using quotient_of_denom_pos [OF pq] .
  have x: "x = of_int p / of_int q" using quotient_of_div [OF pq] .
  with assms q have p: "0 < p" by (simp add: zero_less_divide_iff)
  define a b where "a = bitlen p" and "b = bitlen q"
  note P = bitlen_powi [OF p, folded a_def] and Q = bitlen_powi [OF q, folded b_def]
  have pw: "(2::rat) powi (s + t) = 2 powi s * 2 powi t" for s t
    by (simp add: power_int_add)
  have lo: "2 powi (a - b - 1) \<le> x"
  proof -
    have "(2::rat) powi (a - b - 1) * of_int q \<le> 2 powi (a - b - 1) * 2 powi b"
      using Q(2) by simp
    also have "\<dots> = 2 powi (a - 1)" by (subst pw [symmetric]) simp
    also have "\<dots> \<le> of_int p" by (rule P)
    finally show ?thesis using q by (simp add: x pos_le_divide_eq)
  qed
  have hi: "x < 2 powi (a - b + 1)"
  proof -
    have "of_int p < (2::rat) powi (a - b + 1) * 2 powi (b - 1)"
      using P(2) by (subst pw [symmetric]) simp
    also have "\<dots> \<le> 2 powi (a - b + 1) * of_int q" using Q(1) by simp
    finally show ?thesis using q by (simp add: x pos_divide_less_eq)
  qed
  show "2 powi (floor_log2 x) \<le> x" and "x < 2 powi (floor_log2 x + 1)"
    using lo hi by (auto simp: floor_log2_def pq a_def b_def Let_def)
qed

lemma round_half_even_of_int [simp]: "round_half_even (of_int n) = n"
  by (simp add: round_half_even_def)

lemma round_half_even_floor:
  "round_half_even x = \<lfloor>x\<rfloor> \<or> round_half_even x = \<lfloor>x\<rfloor> + 1 \<and> 1/2 \<le> x - of_int \<lfloor>x\<rfloor>"
  by (auto simp: round_half_even_def Let_def)

lemma round_half_even_mono: "x \<le> y \<Longrightarrow> round_half_even x \<le> round_half_even y"
proof -
  assume le: "x \<le> y"
  then have fl: "\<lfloor>x\<rfloor> \<le> \<lfloor>y\<rfloor>" by (rule floor_mono)
  show ?thesis
  proof (cases "\<lfloor>x\<rfloor> = \<lfloor>y\<rfloor>")
    case True
    with le show ?thesis by (auto simp: round_half_even_def Let_def)
  next
    case False
    with fl have "\<lfloor>x\<rfloor> + 1 \<le> \<lfloor>y\<rfloor>" by simp
    with round_half_even_floor [of x] round_half_even_floor [of y] show ?thesis by auto
  qed
qed

lemma round_half_even_le: "x \<le> of_int n \<Longrightarrow> round_half_even x \<le> n"
  using round_half_even_mono [of x "of_int n"] by simp

lemma round_half_even_ge: "of_int n \<le> x \<Longrightarrow> n \<le> round_half_even x"
  using round_half_even_mono [of "of_int n" x] by simp

lemma rnd_0 [simp]: "rnd 0 = 0"
  by (simp add: rnd_def)

lemma rnd_pos: "0 < x \<Longrightarrow> rnd x = of_int (round_half_even (x / 2 powi ulp_exp x)) * 2 powi ulp_exp x"
  by (simp add: rnd_def Let_def)

lemma rnd_nonneg: "0 \<le> x \<Longrightarrow> 0 \<le> rnd x"
  using round_half_even_ge [of 0 "x / 2 powi ulp_exp x"]
  by (cases "x = 0") (auto simp: rnd_pos)

lemma rnd_minus: "rnd (- x) = - rnd x"
  by (simp add: rnd_def Let_def)

lemma powi_of_int_diff: "e \<le> k \<Longrightarrow> (2::rat) powi k / 2 powi e = of_int (2 ^ nat (k - e))"
  proof -
  assume "e \<le> k"
  then have "(2::rat) powi k = 2 powi (k - e) * 2 powi e" by (simp flip: power_int_add)
  with \<open>e \<le> k\<close> show ?thesis by (simp add: power_int_def [of 2 "k - e"])
qed

lemma rnd_le_powi:
  assumes "0 < x" "x \<le> 2 powi k" "ulp_exp x \<le> k"
  shows "rnd x \<le> 2 powi k"
proof -
  let ?e = "ulp_exp x"
  have "x / 2 powi ?e \<le> 2 powi k / 2 powi ?e"
    using assms(2) by (simp add: divide_right_mono)
  then have "round_half_even (x / 2 powi ?e) \<le> 2 ^ nat (k - ?e)"
    by (simp only: powi_of_int_diff [OF assms(3)]) (rule round_half_even_le)
  then have "of_int (round_half_even (x / 2 powi ?e)) \<le> (2::rat) powi k / 2 powi ?e"
    by (simp only: powi_of_int_diff [OF assms(3)] of_int_le_iff)
  then show ?thesis using assms(1) by (simp add: rnd_pos pos_le_divide_eq)
qed

lemma rnd_ge_powi:
  assumes "0 < x" "2 powi k \<le> x" "ulp_exp x \<le> k"
  shows "2 powi k \<le> rnd x"
proof -
  let ?e = "ulp_exp x"
  have "2 powi k / 2 powi ?e \<le> x / 2 powi ?e"
    using assms(2) by (simp add: divide_right_mono)
  then have "2 ^ nat (k - ?e) \<le> round_half_even (x / 2 powi ?e)"
    by (simp only: powi_of_int_diff [OF assms(3)]) (rule round_half_even_ge)
  then have "(2::rat) powi k / 2 powi ?e \<le> of_int (round_half_even (x / 2 powi ?e))"
    by (simp only: powi_of_int_diff [OF assms(3)] of_int_le_iff)
  then show ?thesis using assms(1) by (simp add: rnd_pos pos_divide_le_eq)
qed

lemma powi_less_cancel: "(2::rat) powi a < 2 powi b \<Longrightarrow> a < b"
  by (rule ccontr) (auto simp: not_less dest: power_int_increasing [of _ _ "2::rat"])

lemma floor_log2_mono: "0 < x \<Longrightarrow> x \<le> y \<Longrightarrow> floor_log2 x \<le> floor_log2 y"
proof -
  assume xy: "0 < x" "x \<le> y"
  have "2 powi floor_log2 x < (2::rat) powi (floor_log2 y + 1)"
    using floor_log2_bounds(1) [OF xy(1)] floor_log2_bounds(2) [of y] xy by linarith
  then show ?thesis using powi_less_cancel by fastforce
qed

lemma rnd_mono_pos:
  assumes "0 < x" "x \<le> y"
  shows "rnd x \<le> rnd y"
proof -
  have y: "0 < y" using assms by simp
  have fl: "floor_log2 x \<le> floor_log2 y" using floor_log2_mono assms by simp
  then have ue: "ulp_exp x \<le> ulp_exp y" by (simp add: ulp_exp_def)
  show ?thesis
  proof (cases "ulp_exp x = ulp_exp y")
    case True
    then show ?thesis using assms y
      by (simp add: rnd_pos round_half_even_mono divide_right_mono)
  next
    case False
    define k where "k = ulp_exp y + 52"
    have k: "k = floor_log2 y" "floor_log2 x + 1 \<le> k" "ulp_exp x \<le> k" "ulp_exp y \<le> k"
      using False ue by (auto simp: k_def ulp_exp_def max_def split: if_splits)
    have "x \<le> 2 powi (floor_log2 x + 1)" using floor_log2_bounds(2) [OF assms(1)] by simp
    also have "\<dots> \<le> 2 powi k" using k(2) by (intro power_int_increasing) auto
    finally have "rnd x \<le> 2 powi k" using rnd_le_powi [OF assms(1)] k by simp
    also have "\<dots> \<le> rnd y"
      using rnd_ge_powi [OF y] floor_log2_bounds(1) [OF y] k by simp
    finally show ?thesis .
  qed
qed

lemma rnd_mono_nonneg: "0 \<le> x \<Longrightarrow> x \<le> y \<Longrightarrow> rnd x \<le> rnd y"
  by (cases "x = 0") (auto simp: rnd_nonneg rnd_mono_pos)

lemma rnd_multiple:
  assumes "x = of_int m * 2 powi e" "0 < x" "ulp_exp x \<le> e"
  shows "rnd x = x"
proof -
  let ?u = "ulp_exp x"
  have "x / 2 powi ?u = of_int m * (2 powi e / 2 powi ?u)" by (simp add: assms(1))
  also have "\<dots> = of_int (m * 2 ^ nat (e - ?u))" by (simp only: powi_of_int_diff [OF assms(3)] of_int_mult)
  finally have eq: "x / 2 powi ?u = of_int (m * 2 ^ nat (e - ?u))" .
  have "rnd x = of_int (m * 2 ^ nat (e - ?u)) * 2 powi ?u"
    using assms(2) by (simp only: rnd_pos eq round_half_even_of_int)
  also have "\<dots> = x" by (simp only: eq [symmetric]) simp
  finally show ?thesis .
qed

lemma rnd_exact:
  assumes "0 < m" "m < 2 ^ 53" "- 1074 \<le> e"
  shows "rnd (of_int m * 2 powi e) = of_int m * 2 powi e"
proof -
  let ?x = "of_int m * 2 powi e :: rat"
  have pos: "0 < ?x" using assms(1) by simp
  have "of_int m < (2::rat) ^ 53"
    using assms(2) by (metis of_int_less_iff of_int_numeral of_int_power)
  then have "?x < 2 ^ 53 * 2 powi e" by simp
  also have "(2::rat) ^ 53 * 2 powi e = 2 powi (53 + e)" by (simp add: power_int_add)
  finally have "2 powi floor_log2 ?x < (2::rat) powi (53 + e)"
    using floor_log2_bounds(1) [OF pos] by linarith
  then have "floor_log2 ?x < 53 + e" by (rule powi_less_cancel)
  then have "ulp_exp ?x \<le> e" using assms(3) by (simp add: ulp_exp_def)
  with rnd_multiple [OF refl pos] show ?thesis .
qed

lemma rnd_idem_pos: "0 < x \<Longrightarrow> rnd (rnd x) = rnd x"
proof -
  assume x: "0 < x"
  define e m where "e = ulp_exp x" and "m = round_half_even (x / 2 powi e)"
  have r: "rnd x = of_int m * 2 powi e" using x by (simp add: rnd_pos e_def m_def)
  have e: "- 1074 \<le> e" by (simp add: e_def ulp_exp_def)
  have "floor_log2 x + 1 \<le> e + 53" by (simp add: e_def ulp_exp_def)
  then have "x \<le> 2 powi (e + 53)"
    using floor_log2_bounds(2) [OF x] power_int_increasing [of "floor_log2 x + 1" "e + 53" "2::rat"]
    by linarith
  then have "x / 2 powi e \<le> of_int (2 ^ 53)"
    by (simp add: pos_divide_le_eq power_int_add mult.commute)
  then have le: "m \<le> 2 ^ 53" unfolding m_def by (rule round_half_even_le)
  have ge: "0 \<le> m" unfolding m_def by (rule round_half_even_ge) (use x in simp)
  consider "m = 0" | "m = 2 ^ 53" | "0 < m" "m < 2 ^ 53" using le ge by linarith
  then show ?thesis
  proof cases
    case 2
    then have "rnd x = of_int (2 ^ 52) * 2 powi (e + 1)" by (simp add: r power_int_add)
    then show ?thesis using rnd_exact [of "2 ^ 52" "e + 1"] e by simp
  next
    case 3
    then show ?thesis using rnd_exact e by (simp add: r)
  qed (simp add: r)
qed

lemma rnd_idem [simp]: "rnd (rnd x) = rnd x"
proof (cases x "0::rat" rule: linorder_cases)
  case less
  then show ?thesis using rnd_idem_pos [of "- x"] by (simp add: rnd_minus)
qed (simp_all add: rnd_idem_pos)

lemma is_double_rnd [simp, intro]: "is_double (rnd x)"
  by (simp add: is_double_def)

lemma is_double_0 [simp]: "is_double 0"
  by (simp add: is_double_def)

text \<open>Scaling a double down by a factor in the unit interval stays within it: no rounding can lift
  the product over the bound.\<close>

lemma fmul_unit_interval:
  assumes "is_double c" "0 \<le> c" "0 \<le> u" "u \<le> 1"
  shows "0 \<le> fmul c u" and "fmul c u \<le> c"
proof -
  show "0 \<le> fmul c u" using assms by (simp add: fmul_def rnd_nonneg)
  have "c * u \<le> c" using assms by (simp add: mult_left_le)
  then have "rnd (c * u) \<le> rnd c" using assms by (intro rnd_mono_nonneg) auto
  then show "fmul c u \<le> c" using assms by (simp add: fmul_def is_double_def)
qed

lemma timedelta_seconds_mono:
  assumes "0 \<le> x" "x \<le> y"
  shows "timedelta_seconds x \<le> timedelta_seconds y" "0 \<le> timedelta_seconds x"
proof -
  have t: "timedelta_seconds z = \<lfloor>z\<rfloor> * 1000000 + round_half_even (rnd (1000000 * (z - of_int \<lfloor>z\<rfloor>)))" if "0 \<le> z" for z
    using that by (simp add: timedelta_seconds_def py_trunc_def fmul_def)
  have M: "rnd 1000000 = 1000000"
    using rnd_exact [of 1000000 0] by simp
  have r: "0 \<le> round_half_even (rnd (1000000 * (z - of_int \<lfloor>z\<rfloor>)))"
    "round_half_even (rnd (1000000 * (z - of_int \<lfloor>z\<rfloor>))) \<le> 1000000" for z
  proof -
    have f: "0 \<le> 1000000 * (z - of_int \<lfloor>z\<rfloor>)" "1000000 * (z - of_int \<lfloor>z\<rfloor>) \<le> 1000000"
      using floor_correct [of z] by auto
    have "0 \<le> rnd (1000000 * (z - of_int \<lfloor>z\<rfloor>))" using rnd_nonneg [OF f(1)] .
    then show "0 \<le> round_half_even (rnd (1000000 * (z - of_int \<lfloor>z\<rfloor>)))" by (intro round_half_even_ge) simp
    have "rnd (1000000 * (z - of_int \<lfloor>z\<rfloor>)) \<le> 1000000" using rnd_mono_nonneg [OF f] M by simp
    then show "round_half_even (rnd (1000000 * (z - of_int \<lfloor>z\<rfloor>))) \<le> 1000000" by (intro round_half_even_le) simp
  qed
  show "0 \<le> timedelta_seconds x" using t [OF assms(1)] r(1) [of x] assms(1) by simp
  have "\<lfloor>x\<rfloor> \<le> \<lfloor>y\<rfloor>" using assms(2) by (rule floor_mono)
  then consider "\<lfloor>x\<rfloor> = \<lfloor>y\<rfloor>" | "\<lfloor>x\<rfloor> + 1 \<le> \<lfloor>y\<rfloor>" by linarith
  then show "timedelta_seconds x \<le> timedelta_seconds y"
  proof cases
    case 1
    have "rnd (1000000 * (x - of_int \<lfloor>x\<rfloor>)) \<le> rnd (1000000 * (y - of_int \<lfloor>y\<rfloor>))"
      using assms(2) 1 of_int_floor_le [of x] by (intro rnd_mono_nonneg) simp_all
    from round_half_even_mono [OF this] 1 show ?thesis using t [of x] t [of y] assms by simp
  next
    case 2
    then show ?thesis using t [of x] t [of y] assms r(2) [of x] r(1) [of y] by linarith
  qed
qed

text \<open>Evaluation: an integer below \<open>2^53\<close> is a double.\<close>

lemma rnd_small_int:
  assumes "\<bar>n\<bar> < 9007199254740992"
  shows "rnd (of_int n) = of_int n"
proof (cases "0 \<le> n")
  case True
  then show ?thesis using rnd_exact [of n 0] assms by (cases "n = 0") simp_all
next
  case False
  then have "rnd (of_int (- n)) = of_int (- n)" using rnd_exact [of "- n" 0] assms by simp
  then show ?thesis using rnd_minus [of "of_int n"] by simp
qed

lemma rnd_code [code]:
  "rnd x = (let (p, q) = quotient_of x
     in if q = 1 \<and> \<bar>p\<bar> < 9007199254740992 then x
        else let e = ulp_exp \<bar>x\<bar> in sgn x * of_int (round_half_even (\<bar>x\<bar> / 2 powi e)) * 2 powi e)"
proof -
  obtain p q where pq: "quotient_of x = (p, q)" by (cases "quotient_of x")
  have "rnd x = x" if "q = 1" "\<bar>p\<bar> < 9007199254740992"
    using quotient_of_div [OF pq] rnd_small_int [of p] that by simp
  moreover have "x \<noteq> 0" if "\<not> (q = 1 \<and> \<bar>p\<bar> < 9007199254740992)"
    using pq that by (auto simp: quotient_of_int [of 0, simplified])
  ultimately show ?thesis by (auto simp: pq rnd_def)
qed
end
