(* ===== verification/PyStr.thy ===== *)
theory PyStr
  imports Prelude
begin

text \<open>
  The operations of Python's \<open>str\<close> the program uses, on strings of code points below 256:
  decimal rendering and parsing of integers, \<open>repr\<close>, \<open>strip\<close>, \<open>partition\<close>, \<open>split\<close>,
  \<open>lower\<close>, \<open>isprintable\<close> and the length of the UTF-8 encoding.
\<close>

section \<open>Rendering\<close>

definition digit_char :: "nat \<Rightarrow> char" where
  "digit_char d = char_of (48 + d)"

fun show_nat :: "nat \<Rightarrow> py_str" where
  "show_nat n = (if n < 10 then [digit_char n] else show_nat (n div 10) @ [digit_char (n mod 10)])"

declare show_nat.simps [simp del]

definition show_int :: "int \<Rightarrow> py_str" where
  "show_int i = (if i < 0 then CHR ''-'' # show_nat (nat (- i)) else show_nat (nat i))"

definition hex_digit :: "nat \<Rightarrow> char" where
  "hex_digit d = (if d < 10 then char_of (48 + d) else char_of (87 + d))"

text \<open>\<open>str.isprintable\<close> per character: the C0 and C1 controls, DEL, NO-BREAK SPACE and SOFT HYPHEN are
  the code points below 256 that are not printable.\<close>

definition printable :: "char \<Rightarrow> bool" where
  "printable c \<longleftrightarrow> (let n = (of_char c :: nat) in 32 \<le> n \<and> n < 127 \<or> 161 \<le> n \<and> n \<noteq> 173)"

definition repr_char :: "char \<Rightarrow> char \<Rightarrow> py_str" where
  "repr_char quote c =
     (if c = quote \<or> c = CHR 0x5C then [CHR 0x5C, c]
      else if c = CHR 0x09 then [CHR 0x5C, CHR ''t'']
      else if c = CHR 0x0A then [CHR 0x5C, CHR ''n'']
      else if c = CHR 0x0D then [CHR 0x5C, CHR ''r'']
      else if printable c then [c]
      else [CHR 0x5C, CHR ''x'', hex_digit (of_char c div 16), hex_digit (of_char c mod 16)])"

text \<open>\<open>repr(s)\<close>: single quotes, unless the string holds a single quote and no double quote.\<close>

definition py_repr :: "py_str \<Rightarrow> py_str" where
  "py_repr s = (let q = (if CHR 0x27 \<in> set s \<and> CHR 0x22 \<notin> set s then CHR 0x22 else CHR 0x27)
                in q # concat (map (repr_char q) s) @ [q])"

section \<open>Taking apart\<close>

text \<open>\<open>str.strip()\<close> removes white space at both ends.\<close>

definition is_space :: "char \<Rightarrow> bool" where
  "is_space c \<longleftrightarrow> (let n = (of_char c :: nat) in 9 \<le> n \<and> n \<le> 13 \<or> 28 \<le> n \<and> n \<le> 32 \<or> n = 133 \<or> n = 160)"

definition py_strip :: "py_str \<Rightarrow> py_str" where
  "py_strip s = rev (dropWhile is_space (rev (dropWhile is_space s)))"

text \<open>\<open>s.partition(c)\<close> with a one-character separator: the part before it, whether it was found, and
  the part after it.\<close>

fun py_partition :: "char \<Rightarrow> py_str \<Rightarrow> py_str \<times> bool \<times> py_str" where
  "py_partition c [] = ([], False, [])"
| "py_partition c (x # xs) =
     (if x = c then ([], True, xs)
      else let (a, found, b) = py_partition c xs in (x # a, found, b))"

fun py_split :: "char \<Rightarrow> py_str \<Rightarrow> py_str list" where
  "py_split c [] = [[]]"
| "py_split c (x # xs) =
     (if x = c then [] # py_split c xs
      else case py_split c xs of [] \<Rightarrow> [[x]] | p # ps \<Rightarrow> (x # p) # ps)"

definition to_lower :: "char \<Rightarrow> char" where
  "to_lower c = (let n = (of_char c :: nat)
     in if 65 \<le> n \<and> n \<le> 90 \<or> 192 \<le> n \<and> n \<le> 222 \<and> n \<noteq> 215 then char_of (n + 32) else c)"

definition py_lower :: "py_str \<Rightarrow> py_str" where
  "py_lower s = map to_lower s"

definition is_ascii :: "py_str \<Rightarrow> bool" where
  "is_ascii s \<longleftrightarrow> list_all (\<lambda>c. (of_char c :: nat) < 128) s"

definition utf8_len :: "py_str \<Rightarrow> nat" where
  "utf8_len s = sum_list (map (\<lambda>c. if (of_char c :: nat) < 128 then 1 else 2) s)"

text \<open>\<open>int(s)\<close> in base ten: surrounding white space, an optional sign, then digits with single
  underscores between them; anything else is a ValueError.\<close>

definition is_digit :: "char \<Rightarrow> bool" where
  "is_digit c \<longleftrightarrow> (let n = (of_char c :: nat) in 48 \<le> n \<and> n \<le> 57)"

fun parse_digits :: "int \<Rightarrow> py_str \<Rightarrow> int option" where
  "parse_digits acc [] = Some acc"
| "parse_digits acc (c # cs) =
     (if is_digit c then parse_digits (acc * 10 + (of_char c - 48)) cs
      else if c = CHR ''_'' then
        (case cs of [] \<Rightarrow> None
         | d # ds \<Rightarrow> if is_digit d then parse_digits (acc * 10 + (of_char d - 48)) ds else None)
      else None)"

definition parse_unsigned :: "py_str \<Rightarrow> int option" where
  "parse_unsigned s = (case s of [] \<Rightarrow> None | c # _ \<Rightarrow> if is_digit c then parse_digits 0 s else None)"

definition py_int :: "py_str \<Rightarrow> int option" where
  "py_int s = (case py_strip s of
      [] \<Rightarrow> None
    | c # cs \<Rightarrow> if c = CHR ''-'' then map_option uminus (parse_unsigned cs)
               else if c = CHR ''+'' then parse_unsigned cs
               else parse_unsigned (c # cs))"

section \<open>Laws\<close>

lemma py_partition_found:
  "py_partition c s = (a, True, b) \<Longrightarrow> s = a @ c # b \<and> c \<notin> set a"
  by (induction s arbitrary: a) (auto split: if_splits prod.splits)

lemma py_partition_none:
  "py_partition c s = (a, False, b) \<Longrightarrow> a = s \<and> b = [] \<and> c \<notin> set s"
  by (induction s arbitrary: a) (auto split: if_splits prod.splits)

lemma py_partition_append: "c \<notin> set a \<Longrightarrow> py_partition c (a @ c # b) = (a, True, b)"
  by (induction a) auto

lemma py_split_nonempty [simp]: "py_split c s \<noteq> []"
  by (induction s) (auto split: list.splits)

lemma py_split_single: "c \<notin> set s \<Longrightarrow> py_split c s = [s]"
  by (induction s) auto

lemma py_split_append: "c \<notin> set a \<Longrightarrow> py_split c (a @ c # b) = a # py_split c b"
  by (induction a) auto

lemma digit_char_nat: "d < 10 \<Longrightarrow> (of_char (digit_char d) :: nat) = 48 + d"
  by (simp add: digit_char_def)

lemma is_digit_char [simp]: "d < 10 \<Longrightarrow> is_digit (digit_char d)"
  by (simp add: is_digit_def digit_char_nat)

lemma of_char_digit_int: "d < 10 \<Longrightarrow> (of_char (digit_char d) :: int) = 48 + int d"
  by (metis digit_char_nat of_nat_add of_nat_numeral of_nat_of_char)

lemma show_nat_digits: "c \<in> set (show_nat n) \<Longrightarrow> is_digit c"
proof (induction n rule: show_nat.induct)
  case (1 n)
  show ?case
  proof (cases "n < 10")
    case True
    with "1.prems" show ?thesis by (simp add: show_nat.simps [of n])
  next
    case False
    with "1" show ?thesis by (auto simp: show_nat.simps [of n])
  qed
qed

lemma parse_digits_append:
  "(\<And>c. c \<in> set xs \<Longrightarrow> is_digit c) \<Longrightarrow>
   parse_digits acc (xs @ ys) = (case parse_digits acc xs of None \<Rightarrow> None | Some a \<Rightarrow> parse_digits a ys)"
  by (induction xs arbitrary: acc) auto

lemma parse_digits_show_nat: "parse_digits 0 (show_nat n) = Some (int n)"
proof (induction n rule: show_nat.induct)
  case (1 n)
  show ?case
  proof (cases "n < 10")
    case True
    then show ?thesis by (subst show_nat.simps) (simp add: of_char_digit_int)
  next
    case False
    then have "parse_digits 0 (show_nat n)
        = parse_digits 0 (show_nat (n div 10) @ [digit_char (n mod 10)])"
      by (subst show_nat.simps) simp
    also have "\<dots> = Some (int (n div 10) * 10 + int (n mod 10))"
      using "1.IH" [OF False] show_nat_digits
      by (subst parse_digits_append) (auto simp: of_char_digit_int)
    also have "\<dots> = Some (int n)" using div_mult_mod_eq [of n 10] by (simp add: zdiv_int zmod_int)
    finally show ?thesis .
  qed
qed

end
