(* ===== verification/Domain.thy ===== *)
theory Domain
  imports PyStr
begin

text \<open>
  The pure domain vocabulary: the state enums (\<open>domain/enums.py\<close>), effects (\<open>domain/effects.py\<close>),
  events (\<open>domain/events.py\<close>), JSON values, and the exceptions of the program
  (\<open>domain/errors.py\<close> and the exception classes of the other modules) with the class
  tests the program performs on them.
\<close>

section \<open>Enums\<close>

datatype webhook_status = PENDING | PROCESSING | SUCCEEDED | DEAD_LETTERED

datatype attempt_outcome = ATT_SUCCEEDED | ATT_SUPERSEDED | RETRYABLE_ERROR | NON_RETRYABLE_ERROR

datatype dlq_status = NEEDS_REVIEW | REPLAYING | RESOLVED | DISCARDED

datatype replay_outcome = REP_SUCCEEDED | SKIPPED_ALREADY_PROCESSED | REP_FAILED

text \<open>The \<open>value\<close> of a \<open>StrEnum\<close> member.\<close>

fun webhook_status_value :: "webhook_status \<Rightarrow> py_str" where
  "webhook_status_value PENDING = ''pending''"
| "webhook_status_value PROCESSING = ''processing''"
| "webhook_status_value SUCCEEDED = ''succeeded''"
| "webhook_status_value DEAD_LETTERED = ''dead_lettered''"

fun attempt_outcome_value :: "attempt_outcome \<Rightarrow> py_str" where
  "attempt_outcome_value ATT_SUCCEEDED = ''succeeded''"
| "attempt_outcome_value ATT_SUPERSEDED = ''superseded''"
| "attempt_outcome_value RETRYABLE_ERROR = ''retryable_error''"
| "attempt_outcome_value NON_RETRYABLE_ERROR = ''non_retryable_error''"

fun dlq_status_value :: "dlq_status \<Rightarrow> py_str" where
  "dlq_status_value NEEDS_REVIEW = ''needs_review''"
| "dlq_status_value REPLAYING = ''replaying''"
| "dlq_status_value RESOLVED = ''resolved''"
| "dlq_status_value DISCARDED = ''discarded''"

fun replay_outcome_value :: "replay_outcome \<Rightarrow> py_str" where
  "replay_outcome_value REP_SUCCEEDED = ''succeeded''"
| "replay_outcome_value SKIPPED_ALREADY_PROCESSED = ''skipped_already_processed''"
| "replay_outcome_value REP_FAILED = ''failed''"

section \<open>Effects\<close>

datatype effect =
    Credit (account_ref: py_str) (amount_minor: int)
  | SetBalance (account_ref: py_str) (balance_minor: int) (sequence: int)

datatype effect_result = APPLIED | ALREADY_APPLIED | EFF_SUPERSEDED

section \<open>JSON and events\<close>

text \<open>A decoded JSON document; an object keeps the order of its keys.\<close>

datatype json = JNull | JBool bool | JInt int | JFloat rat | JStr py_str
  | JArr "json list" | JObj "(py_str \<times> json) list"

type_synonym json_object = "(py_str \<times> json) list"

text \<open>\<open>json.loads\<close> keeps the last value of a repeated key, so the objects that reach the program have
  distinct keys and \<open>dict.get\<close> is \<open>map_of\<close>.\<close>

definition json_get :: "json_object \<Rightarrow> py_str \<Rightarrow> json option" where
  "json_get obj k = map_of obj k"

fun json_text_ok :: "json \<Rightarrow> bool" where
  "json_text_ok (JStr s) = text_ok s"
| "json_text_ok (JArr xs) = list_all json_text_ok xs"
| "json_text_ok (JObj kvs) = list_all (\<lambda>(k, v). text_ok k \<and> json_text_ok v) kvs"
| "json_text_ok _ = True"

record incoming_event =
  ie_source :: py_str
  ie_external_id :: py_str
  ie_idempotency_key :: py_str
  ie_event_type :: py_str
  ie_entity_type :: py_str
  ie_entity_id :: py_str
  ie_payload :: json_object
  ie_headers :: json_object
  ie_signature_verified :: bool
  ie_occurred_at :: datetime
  ie_provider_sequence :: "int option"

record stored_event =
  se_id :: int
  se_source :: py_str
  se_event_type :: py_str
  se_entity_type :: py_str
  se_entity_id :: py_str
  se_payload :: json_object
  se_occurred_at :: datetime
  se_provider_sequence :: "int option"
  se_attempt_count :: int

section \<open>Exceptions\<close>

text \<open>Every exception the program raises or tells apart. A constructor is a class and carries the
  text of \<open>str(exc)\<close>. \<open>DBAPIError\<close> carries the name of the SQLAlchemy subclass, the flag
  \<open>connection_invalidated\<close> and the SQLSTATE of the driver's exception, if it has one.
  \<open>RetryableSub\<close> and \<open>NonRetryableSub\<close> are the classes a handler module may derive from the
  domain's two bases, \<open>OtherError\<close> any other subclass of \<open>Exception\<close>, and \<open>BaseExc\<close> what is
  not an \<open>Exception\<close> at all: a cancelled task, \<open>SystemExit\<close>, or the process being killed.\<close>

datatype exc =
    RetryableError py_str
  | RetryableSub py_str py_str
  | LockContentionError py_str
  | NonRetryableError py_str
  | NonRetryableSub py_str py_str
  | UnknownEventTypeError py_str
  | UnprocessableEventError py_str
  | InvalidDlqTransitionError py_str
  | SQLAlchemyTimeoutError py_str
  | DBAPIError py_str bool "py_str option" py_str
  | NoResultFound py_str
  | ConnectionError py_str py_str
  | TimeoutError py_str
  | GaiError py_str
  | MalformedPayloadError py_str
  | MalformedSignatureHeaderError py_str
  | TimestampOutsideToleranceError py_str
  | SignatureMismatchError py_str
  | EventNotFoundError py_str
  | SchemaNotReadyError py_str
  | HTTPException int py_str
  | ValueError py_str
  | TypeError py_str
  | OverflowError py_str
  | KeyError py_str
  | RuntimeError py_str
  | OtherError py_str py_str
  | BaseExc py_str py_str

text \<open>\<open>type(exc).__name__\<close> and \<open>str(exc)\<close>.\<close>

fun class_name :: "exc \<Rightarrow> py_str" where
  "class_name (RetryableError _) = ''RetryableError''"
| "class_name (RetryableSub c _) = c"
| "class_name (LockContentionError _) = ''LockContentionError''"
| "class_name (NonRetryableError _) = ''NonRetryableError''"
| "class_name (NonRetryableSub c _) = c"
| "class_name (UnknownEventTypeError _) = ''UnknownEventTypeError''"
| "class_name (UnprocessableEventError _) = ''UnprocessableEventError''"
| "class_name (InvalidDlqTransitionError _) = ''InvalidDlqTransitionError''"
| "class_name (SQLAlchemyTimeoutError _) = ''TimeoutError''"
| "class_name (DBAPIError c _ _ _) = c"
| "class_name (NoResultFound _) = ''NoResultFound''"
| "class_name (ConnectionError c _) = c"
| "class_name (TimeoutError _) = ''TimeoutError''"
| "class_name (GaiError _) = ''gaierror''"
| "class_name (MalformedPayloadError _) = ''MalformedPayloadError''"
| "class_name (MalformedSignatureHeaderError _) = ''MalformedSignatureHeaderError''"
| "class_name (TimestampOutsideToleranceError _) = ''TimestampOutsideToleranceError''"
| "class_name (SignatureMismatchError _) = ''SignatureMismatchError''"
| "class_name (EventNotFoundError _) = ''EventNotFoundError''"
| "class_name (SchemaNotReadyError _) = ''SchemaNotReadyError''"
| "class_name (HTTPException _ _) = ''HTTPException''"
| "class_name (ValueError _) = ''ValueError''"
| "class_name (TypeError _) = ''TypeError''"
| "class_name (OverflowError _) = ''OverflowError''"
| "class_name (KeyError _) = ''KeyError''"
| "class_name (RuntimeError _) = ''RuntimeError''"
| "class_name (OtherError c _) = c"
| "class_name (BaseExc c _) = c"

fun exc_str :: "exc \<Rightarrow> py_str" where
  "exc_str (RetryableError m) = m"
| "exc_str (RetryableSub _ m) = m"
| "exc_str (LockContentionError m) = m"
| "exc_str (NonRetryableError m) = m"
| "exc_str (NonRetryableSub _ m) = m"
| "exc_str (UnknownEventTypeError m) = m"
| "exc_str (UnprocessableEventError m) = m"
| "exc_str (InvalidDlqTransitionError m) = m"
| "exc_str (SQLAlchemyTimeoutError m) = m"
| "exc_str (DBAPIError _ _ _ m) = m"
| "exc_str (NoResultFound m) = m"
| "exc_str (ConnectionError _ m) = m"
| "exc_str (TimeoutError m) = m"
| "exc_str (GaiError m) = m"
| "exc_str (MalformedPayloadError m) = m"
| "exc_str (MalformedSignatureHeaderError m) = m"
| "exc_str (TimestampOutsideToleranceError m) = m"
| "exc_str (SignatureMismatchError m) = m"
| "exc_str (EventNotFoundError m) = m"
| "exc_str (SchemaNotReadyError m) = m"
| "exc_str (HTTPException code m) = show_int code @ '': '' @ m"
| "exc_str (ValueError m) = m"
| "exc_str (TypeError m) = m"
| "exc_str (OverflowError m) = m"
| "exc_str (KeyError m) = m"
| "exc_str (RuntimeError m) = m"
| "exc_str (OtherError _ m) = m"
| "exc_str (BaseExc _ m) = m"

text \<open>The \<open>isinstance\<close> tests.\<close>

fun is_NonRetryableError :: "exc \<Rightarrow> bool" where
  "is_NonRetryableError (NonRetryableError _) = True"
| "is_NonRetryableError (NonRetryableSub _ _) = True"
| "is_NonRetryableError (UnknownEventTypeError _) = True"
| "is_NonRetryableError (UnprocessableEventError _) = True"
| "is_NonRetryableError (InvalidDlqTransitionError _) = True"
| "is_NonRetryableError _ = False"

fun is_RetryableError :: "exc \<Rightarrow> bool" where
  "is_RetryableError (RetryableError _) = True"
| "is_RetryableError (RetryableSub _ _) = True"
| "is_RetryableError (LockContentionError _) = True"
| "is_RetryableError _ = False"

definition is_ProcessingError :: "exc \<Rightarrow> bool" where
  "is_ProcessingError e \<longleftrightarrow> is_RetryableError e \<or> is_NonRetryableError e"

fun is_SignatureError :: "exc \<Rightarrow> bool" where
  "is_SignatureError (MalformedSignatureHeaderError _) = True"
| "is_SignatureError (TimestampOutsideToleranceError _) = True"
| "is_SignatureError (SignatureMismatchError _) = True"
| "is_SignatureError _ = False"

fun is_Exception :: "exc \<Rightarrow> bool" where
  "is_Exception (BaseExc _ _) = False"
| "is_Exception _ = True"

text \<open>Sequencing of computations that may raise.\<close>

definition bind_exc :: "exc + 'a \<Rightarrow> ('a \<Rightarrow> exc + 'b) \<Rightarrow> exc + 'b" where
  "bind_exc m f = (case m of Inl e \<Rightarrow> Inl e | Inr a \<Rightarrow> f a)"

lemma bind_exc_simps [simp]:
  "bind_exc (Inl e) f = Inl e"
  "bind_exc (Inr a) f = f a"
  by (simp_all add: bind_exc_def)

lemma bind_exc_Inr: "bind_exc m f = Inr b \<longleftrightarrow> (\<exists>a. m = Inr a \<and> f a = Inr b)"
  by (cases m) auto

lemma bind_exc_Inl: "bind_exc m f = Inl e \<longleftrightarrow> m = Inl e \<or> (\<exists>a. m = Inr a \<and> f a = Inl e)"
  by (cases m) auto

lemma taxonomy_disjoint: "\<not> (is_RetryableError e \<and> is_NonRetryableError e)"
  by (cases e) auto

lemma processing_error_is_exception: "is_ProcessingError e \<Longrightarrow> is_Exception e"
  by (cases e) (auto simp: is_ProcessingError_def)

end
