(* ===== verification/Backoff.thy ===== *)
theory Backoff
  imports Floats Domain
begin

text \<open>
  Randomness (\<open>adapters/rng.py\<close>) and the retry delay (\<open>domain/backoff.py\<close>). A generator is the
  sequence of 53-bit integers its \<open>random.Random\<close> will draw and a position in it; \<open>uniform_source\<close>
  is the contract of the \<open>Rng\<close> protocol, under which the bounds of the delay are proved, and
  both generators of the program satisfy it.
\<close>

section \<open>Random number generators\<close>

record rng =
  draws :: "nat \<Rightarrow> 53 word"
  drawn :: nat

text \<open>\<open>random.Random.random()\<close>: a 53-bit integer scaled into the half-open unit interval.\<close>

definition py_random :: "rng \<Rightarrow> rat \<times> rng" where
  "py_random r = (of_nat (unat (draws r (drawn r))) / 2 ^ 53, r\<lparr>drawn := Suc (drawn r)\<rparr>)"

text \<open>\<open>random.Random.uniform\<close>, which \<open>SystemRng.uniform\<close> and \<open>SeededRng.uniform\<close> return.\<close>

definition rng_uniform :: "rat \<Rightarrow> rat \<Rightarrow> rng \<Rightarrow> rat \<times> rng" where
  "rng_uniform low high r = (let (u, r') = py_random r in (fadd low (fmul (fsub high low) u), r'))"

text \<open>\<open>mt\<close> is the sequence \<open>random.Random(seed)\<close> draws and \<open>entropy\<close> the one a generator seeded
  by the operating system draws.\<close>

definition create_rng :: "(int \<Rightarrow> nat \<Rightarrow> 53 word) \<Rightarrow> (nat \<Rightarrow> 53 word) \<Rightarrow> int option \<Rightarrow> rng" where
  "create_rng mt entropy seed =
     (case seed of None \<Rightarrow> \<lparr>draws = entropy, drawn = 0\<rparr> | Some s \<Rightarrow> \<lparr>draws = mt s, drawn = 0\<rparr>)"

section \<open>The retry delay\<close>

definition MAX_EXPONENT :: int where
  "MAX_EXPONENT = 32"

definition delay_ceiling :: "int \<Rightarrow> rat \<Rightarrow> rat \<Rightarrow> rat" where
  "delay_ceiling attempt base_seconds cap_seconds =
     (let exponent = min attempt MAX_EXPONENT
      in min cap_seconds (fmul base_seconds (2 ^ nat exponent)))"

definition next_delay_seconds ::
  "(rat \<Rightarrow> rat \<Rightarrow> 'r \<Rightarrow> rat \<times> 'r) \<Rightarrow> int \<Rightarrow> rat \<Rightarrow> rat \<Rightarrow> 'r \<Rightarrow> exc + rat \<times> 'r" where
  "next_delay_seconds uniform attempt base_seconds cap_seconds rng =
     (if attempt < 1 then Inl (ValueError (''attempt is 1-based; got '' @ show_int attempt))
      else Inr (uniform 0 (delay_ceiling attempt base_seconds cap_seconds) rng))"

section \<open>The contract of the generator\<close>

locale uniform_source =
  fixes uniform :: "rat \<Rightarrow> rat \<Rightarrow> 'r \<Rightarrow> rat \<times> 'r"
  assumes uniform_within: "is_double high \<Longrightarrow> 0 \<le> high \<Longrightarrow>
    0 \<le> fst (uniform 0 high r) \<and> fst (uniform 0 high r) \<le> high"
begin

lemma delay_within:
  assumes "1 \<le> attempt" "is_double cap" "0 \<le> cap" "0 \<le> base"
  shows "\<exists>d r'. next_delay_seconds uniform attempt base cap r = Inr (d, r')
           \<and> 0 \<le> d \<and> d \<le> delay_ceiling attempt base cap"
proof -
  let ?c = "delay_ceiling attempt base cap"
  have "is_double ?c" "0 \<le> ?c"
    using assms by (auto simp: delay_ceiling_def Let_def min_def fmul_def rnd_nonneg)
  then have "0 \<le> fst (uniform 0 ?c r)" "fst (uniform 0 ?c r) \<le> ?c"
    using uniform_within by auto
  moreover have "next_delay_seconds uniform attempt base cap r
      = Inr (fst (uniform 0 ?c r), snd (uniform 0 ?c r))"
    using assms(1) by (simp add: next_delay_seconds_def)
  ultimately show ?thesis by blast
qed

end

lemma py_random_unit: "0 \<le> fst (py_random r)" "fst (py_random r) < 1"
proof -
  have "unat (draws r (drawn r)) < 2 ^ 53"
    by (rule order_less_le_trans, rule unsigned_less) simp
  then have "(of_nat (unat (draws r (drawn r))) :: rat) < of_nat (2 ^ 53)"
    by (simp only: of_nat_less_iff)
  then show "fst (py_random r) < 1" by (simp add: py_random_def)
  show "0 \<le> fst (py_random r)"
    unfolding py_random_def fst_conv by (rule divide_nonneg_nonneg [OF of_nat_0_le_iff]) simp
qed

lemma rng_uniform_within:
  assumes "is_double high" "0 \<le> high"
  shows "0 \<le> fst (rng_uniform 0 high r) \<and> fst (rng_uniform 0 high r) \<le> high"
proof -
  have "fst (rng_uniform 0 high r) = fmul high (fst (py_random r))"
    using assms by (simp add: rng_uniform_def fadd_def fsub_def fmul_def is_double_def split: prod.splits)
  then show ?thesis
    using fmul_unit_interval [OF assms py_random_unit(1) less_imp_le [OF py_random_unit(2)]] by simp
qed

interpretation sys_rng: uniform_source rng_uniform
  by unfold_locales (rule rng_uniform_within)

section \<open>Properties\<close>

lemma delay_ceiling_le_cap: "delay_ceiling attempt base cap \<le> cap"
  by (simp add: delay_ceiling_def Let_def)

lemma delay_ceiling_mono:
  assumes "1 \<le> a" "a \<le> b" "0 \<le> base"
  shows "delay_ceiling a base cap \<le> delay_ceiling b base cap"
proof -
  have "(2::rat) ^ nat (min a MAX_EXPONENT) \<le> 2 ^ nat (min b MAX_EXPONENT)"
    using assms by (intro power_increasing) (auto simp: MAX_EXPONENT_def)
  then have "base * 2 ^ nat (min a MAX_EXPONENT) \<le> base * 2 ^ nat (min b MAX_EXPONENT)"
    using assms(3) by (rule mult_left_mono)
  then have "fmul base (2 ^ nat (min a MAX_EXPONENT)) \<le> fmul base (2 ^ nat (min b MAX_EXPONENT))"
    unfolding fmul_def using assms(3) by (intro rnd_mono_nonneg) auto
  then show ?thesis by (simp add: delay_ceiling_def Let_def min.coboundedI2)
qed

end
