(* ===== verification/Database.thy ===== *)
theory Database
  imports Backoff
begin

text \<open>
  The database and the programs that run against it. The six tables of \<open>adapters/orm.py\<close> and
  \<open>migrations/versions/0001_initial_schema.py\<close> are lists of records; their unique constraints,
  foreign keys, checks and integer ranges are enforced by the statements below, as Postgres does.

  A program is a state-and-exception computation over a \<open>world\<close>: the tables, the identity
  sequences (which a rollback does not rewind), the clocks, the random generator, the metrics, and
  the environment. The environment decides what the program cannot: whether the \<open>k\<close>-th statement
  fails and how, what the two clocks read, which rows other transactions hold, and in which order an
  unordered scan delivers rows. \<open>session_scope\<close> (\<open>adapters/database.py\<close>) runs a body as one
  transaction; its commit may fail, or succeed with the acknowledgement lost.
\<close>

section \<open>Rows\<close>

record webhook_event =
  ev_id :: int
  ev_source :: py_str
  ev_external_id :: py_str
  ev_idempotency_key :: py_str
  ev_event_type :: py_str
  ev_entity_type :: py_str
  ev_entity_id :: py_str
  ev_payload :: json_object
  ev_headers :: json_object
  ev_signature_verified :: bool
  ev_occurred_at :: datetime
  ev_provider_sequence :: "int option"
  ev_received_at :: datetime
  ev_status :: webhook_status
  ev_attempt_count :: int
  ev_next_attempt_at :: datetime
  ev_processed_at :: "datetime option"
  ev_last_error :: "py_str option"

record processing_attempt =
  pa_id :: int
  pa_event_id :: int
  pa_attempt_number :: int
  pa_started_at :: datetime
  pa_finished_at :: "datetime option"
  pa_outcome :: "attempt_outcome option"
  pa_error_class :: "py_str option"
  pa_error_detail :: "py_str option"
  pa_duration_ms :: "int option"

record dead_letter_entry =
  dl_id :: int
  dl_event_id :: int
  dl_reason :: py_str
  dl_attempts_made :: int
  dl_dead_lettered_at :: datetime
  dl_status :: dlq_status
  dl_resolved_at :: "datetime option"
  dl_resolution_note :: "py_str option"

record replay_request =
  rr_id :: int
  rr_event_id :: int
  rr_requested_by :: py_str
  rr_requested_at :: datetime
  rr_reason :: "py_str option"
  rr_outcome :: "replay_outcome option"
  rr_resulting_attempt_id :: "int option"

record account =
  ac_id :: int
  ac_external_ref :: py_str
  ac_balance_minor :: int
  ac_version :: int
  ac_updated_at :: datetime

record ledger_entry =
  le_id :: int
  le_account_id :: int
  le_event_id :: int
  le_amount_minor :: int
  le_created_at :: datetime

record tables =
  webhook_event_t :: "webhook_event list"
  processing_attempt_t :: "processing_attempt list"
  dead_letter_entry_t :: "dead_letter_entry list"
  replay_request_t :: "replay_request list"
  account_t :: "account list"
  ledger_entry_t :: "ledger_entry list"

text \<open>The next value of each identity column.\<close>

record sequences =
  sq_event :: int
  sq_attempt :: int
  sq_dlq :: int
  sq_replay :: int
  sq_account :: int
  sq_ledger :: int

section \<open>The world\<close>

datatype fault = Fails exc | AckLost exc

fun fault_exc :: "fault \<Rightarrow> exc" where
  "fault_exc (Fails e) = e"
| "fault_exc (AckLost e) = e"

record env =
  faults :: "nat \<Rightarrow> fault option"
  app_clock :: "nat \<Rightarrow> datetime"
  server_clock :: "nat \<Rightarrow> datetime"
  row_locked :: "nat \<Rightarrow> int \<Rightarrow> bool"
  scan_events :: "nat \<Rightarrow> webhook_event list \<Rightarrow> webhook_event list"
  scan_dlq :: "nat \<Rightarrow> dead_letter_entry list \<Rightarrow> dead_letter_entry list"
  driver_text :: "py_str \<Rightarrow> py_str"
  blake2b8 :: "py_str \<Rightarrow> 8 word list"

text \<open>What \<open>obs/metrics.py\<close> counts: one value per counter increment or histogram observation, with
  its labels.\<close>

datatype metric =
    EventsIngested py_str bool
  | EventsRejected py_str py_str
  | EventsProcessed py_str py_str
  | EventsRetried py_str py_str
  | EventsDeadLettered py_str py_str
  | EventsReplayed py_str
  | IngestLatency py_str
  | ProcessLatency py_str rat

record world =
  tables :: tables
  seqs :: sequences
  tx_now :: datetime
  stmts :: nat
  ticks :: nat
  rng :: rng
  advisory :: "int list"
  metrics :: "metric list"
  env :: env

type_synonym 'a prog = "world \<Rightarrow> (exc + 'a) \<times> world"

section \<open>Programs\<close>

definition return_tx :: "'a \<Rightarrow> 'a prog" where
  "return_tx a w = (Inr a, w)"

definition raise_tx :: "exc \<Rightarrow> 'a prog" where
  "raise_tx e w = (Inl e, w)"

definition bind_tx :: "'a prog \<Rightarrow> ('a \<Rightarrow> 'b prog) \<Rightarrow> 'b prog" where
  "bind_tx m f w = (case m w of (Inl e, w') \<Rightarrow> (Inl e, w') | (Inr a, w') \<Rightarrow> f a w')"

definition lift_exc :: "exc + 'a \<Rightarrow> 'a prog" where
  "lift_exc r w = (r, w)"

text \<open>\<open>except Exception\<close>: a \<open>BaseException\<close> passes through.\<close>

definition catch_exception :: "'a prog \<Rightarrow> (exc \<Rightarrow> 'a prog) \<Rightarrow> 'a prog" where
  "catch_exception m h w =
     (case m w of (Inl e, w') \<Rightarrow> if is_Exception e then h e w' else (Inl e, w') | (Inr a, w') \<Rightarrow> (Inr a, w'))"

definition clock_now :: "datetime prog" where
  "clock_now w = (Inr (app_clock (env w) (ticks w)), w\<lparr>ticks := Suc (ticks w)\<rparr>)"

definition inc :: "metric \<Rightarrow> unit prog" where
  "inc m w = (Inr (), w\<lparr>metrics := metrics w @ [m]\<rparr>)"

definition draw_delay :: "int \<Rightarrow> rat \<Rightarrow> rat \<Rightarrow> rat prog" where
  "draw_delay attempt base cap w =
     (case next_delay_seconds rng_uniform attempt base cap (rng w) of
        Inl e \<Rightarrow> (Inl e, w)
      | Inr (d, r) \<Rightarrow> (Inr d, w\<lparr>rng := r\<rparr>))"

text \<open>One statement: the environment may make it fail, in which case it has no effect.\<close>

definition stmt :: "'a prog \<Rightarrow> 'a prog" where
  "stmt f w =
     (let w' = w\<lparr>stmts := Suc (stmts w)\<rparr>
      in case faults (env w) (stmts w) of Some x \<Rightarrow> (Inl (fault_exc x), w') | None \<Rightarrow> f w')"

text \<open>A \<open>SELECT\<close> and a data-modifying statement without identity values.\<close>

definition query :: "(world \<Rightarrow> 'a) \<Rightarrow> 'a prog" where
  "query f = stmt (\<lambda>w. (Inr (f w), w))"

definition modify :: "(world \<Rightarrow> exc + tables) \<Rightarrow> unit prog" where
  "modify f = stmt (\<lambda>w. case f w of Inl e \<Rightarrow> (Inl e, w) | Inr t \<Rightarrow> (Inr (), w\<lparr>tables := t\<rparr>))"

text \<open>\<open>session_scope\<close>: commit on success, roll the tables back on any exception. The commit is the
  last statement of the transaction; transaction-scoped advisory locks end with it.\<close>

definition session_scope :: "'a prog \<Rightarrow> 'a prog" where
  "session_scope body w0 =
     (case body (w0\<lparr>tx_now := server_clock (env w0) (stmts w0), advisory := []\<rparr>) of
        (Inl e, w) \<Rightarrow> (Inl e, w\<lparr>tables := tables w0, advisory := []\<rparr>)
      | (Inr a, w) \<Rightarrow>
          let w' = w\<lparr>stmts := Suc (stmts w), advisory := []\<rparr>
          in case faults (env w) (stmts w) of
               None \<Rightarrow> (Inr a, w')
             | Some (Fails e) \<Rightarrow> (Inl e, w'\<lparr>tables := tables w0\<rparr>)
             | Some (AckLost e) \<Rightarrow> (Inl e, w'))"

section \<open>Database errors\<close>

definition db_error :: "world \<Rightarrow> py_str \<Rightarrow> exc" where
  "db_error w code = DBAPIError ''DBAPIError'' False (Some code) (driver_text (env w) code)"

definition integrity_error :: "world \<Rightarrow> py_str \<Rightarrow> exc" where
  "integrity_error w code = DBAPIError ''IntegrityError'' False (Some code) (driver_text (env w) code)"

text \<open>A bound integer out of its column's range is refused by the driver (22000), a computed one by
  the server (22003), a NUL character in text by the server (22021), a violated check, foreign key
  or unique constraint as an integrity error (23514, 23503, 23505).\<close>

definition text_opt_ok :: "py_str option \<Rightarrow> bool" where
  "text_opt_ok s = (case s of None \<Rightarrow> True | Some t \<Rightarrow> text_ok t)"

definition json_object_ok :: "json_object \<Rightarrow> bool" where
  "json_object_ok obj = json_text_ok (JObj obj)"

section \<open>Inserts\<close>

definition ev_key :: "webhook_event \<Rightarrow> py_str \<times> py_str" where
  "ev_key r = (ev_source r, ev_idempotency_key r)"

definition pa_key :: "processing_attempt \<Rightarrow> int \<times> int" where
  "pa_key r = (pa_event_id r, pa_attempt_number r)"

text \<open>The row an insert of a delivery writes, with the server defaults of the columns it omits.\<close>

definition new_webhook_event :: "datetime \<Rightarrow> incoming_event \<Rightarrow> int \<Rightarrow> webhook_event" where
  "new_webhook_event now e n = \<lparr>
     ev_id = n, ev_source = ie_source e, ev_external_id = ie_external_id e,
     ev_idempotency_key = ie_idempotency_key e, ev_event_type = ie_event_type e,
     ev_entity_type = ie_entity_type e, ev_entity_id = ie_entity_id e,
     ev_payload = ie_payload e, ev_headers = ie_headers e,
     ev_signature_verified = ie_signature_verified e, ev_occurred_at = ie_occurred_at e,
     ev_provider_sequence = ie_provider_sequence e, ev_received_at = now, ev_status = PENDING,
     ev_attempt_count = 0, ev_next_attempt_at = now, ev_processed_at = None, ev_last_error = None\<rparr>"

definition new_account :: "datetime \<Rightarrow> py_str \<Rightarrow> int \<Rightarrow> account" where
  "new_account now ref n = \<lparr>ac_id = n, ac_external_ref = ref, ac_balance_minor = 0, ac_version = 0,
     ac_updated_at = now\<rparr>"

definition new_ledger_entry :: "datetime \<Rightarrow> int \<times> int \<times> int \<Rightarrow> int \<Rightarrow> ledger_entry" where
  "new_ledger_entry now v n = (case v of (account_id, event_id, amount) \<Rightarrow>
     \<lparr>le_id = n, le_account_id = account_id, le_event_id = event_id, le_amount_minor = amount,
      le_created_at = now\<rparr>)"

definition new_dead_letter_entry :: "datetime \<Rightarrow> int \<times> py_str \<times> int \<Rightarrow> int \<Rightarrow> dead_letter_entry" where
  "new_dead_letter_entry now v n = (case v of (event_id, reason, attempts_made) \<Rightarrow>
     \<lparr>dl_id = n, dl_event_id = event_id, dl_reason = reason, dl_attempts_made = attempts_made,
      dl_dead_lettered_at = now, dl_status = NEEDS_REVIEW, dl_resolved_at = None,
      dl_resolution_note = None\<rparr>)"

interpretation event_table: keyed_table ev_id ev_key "new_webhook_event now" for now
  by unfold_locales (simp_all add: new_webhook_event_def ev_key_def)

interpretation account_table: keyed_table ac_id ac_external_ref "new_account now" for now
  by unfold_locales (simp_all add: new_account_def)

interpretation ledger_table: keyed_table le_id le_event_id "new_ledger_entry now" for now
  by unfold_locales (simp_all add: new_ledger_entry_def split: prod.splits)

interpretation dlq_table: keyed_table dl_id dl_event_id "new_dead_letter_entry now" for now
  by unfold_locales (simp_all add: new_dead_letter_entry_def split: prod.splits)

section \<open>Running programs\<close>

abbreviation tick_stmt :: "world \<Rightarrow> world" where
  "tick_stmt w \<equiv> w\<lparr>stmts := Suc (stmts w)\<rparr>"

abbreviation begin_tx :: "world \<Rightarrow> world" where
  "begin_tx w \<equiv> w\<lparr>tx_now := server_clock (env w) (stmts w), advisory := []\<rparr>"

lemma prog_ok [tx_simps]:
  "return_tx a w = (Inr b, w') \<longleftrightarrow> b = a \<and> w' = w"
  "raise_tx e w = (Inr b, w') \<longleftrightarrow> False"
  "lift_exc r w = (Inr b, w') \<longleftrightarrow> r = Inr b \<and> w' = w"
  "bind_tx m f w = (Inr c, w'') \<longleftrightarrow> (\<exists>a w'. m w = (Inr a, w') \<and> f a w' = (Inr c, w''))"
  "clock_now w = (Inr d, w') \<longleftrightarrow> d = app_clock (env w) (ticks w) \<and> w' = w\<lparr>ticks := Suc (ticks w)\<rparr>"
  "inc m' w = (Inr u, w') \<longleftrightarrow> w' = w\<lparr>metrics := metrics w @ [m']\<rparr>"
  by (auto simp: return_tx_def raise_tx_def lift_exc_def bind_tx_def clock_now_def inc_def
      split: prod.splits sum.splits)

lemma stmt_ok [tx_simps]:
  "stmt f w = (Inr a, w') \<longleftrightarrow> faults (env w) (stmts w) = None \<and> f (tick_stmt w) = (Inr a, w')"
  by (auto simp: stmt_def Let_def split: option.splits)

lemma query_ok [tx_simps]:
  "query f w = (Inr a, w') \<longleftrightarrow>
     faults (env w) (stmts w) = None \<and> a = f (tick_stmt w) \<and> w' = tick_stmt w"
  by (auto simp: query_def stmt_ok)

lemma modify_ok [tx_simps]:
  "modify f w = (Inr a, w') \<longleftrightarrow>
     faults (env w) (stmts w) = None \<and> (\<exists>t. f (tick_stmt w) = Inr t \<and> w' = (tick_stmt w)\<lparr>tables := t\<rparr>)"
  by (auto simp: modify_def stmt_ok split: sum.splits)

lemma draw_delay_ok:
  "draw_delay attempt base cap w = (Inr d, w') \<Longrightarrow>
     \<exists>r. next_delay_seconds rng_uniform attempt base cap (rng w) = Inr (d, r) \<and> w' = w\<lparr>rng := r\<rparr>"
  by (auto simp: draw_delay_def split: sum.splits)

section \<open>Frames\<close>

text \<open>Every program leaves the environment alone and never rewinds an identity sequence, whether it
  succeeds or raises.\<close>

definition seqs_le :: "sequences \<Rightarrow> sequences \<Rightarrow> bool" where
  "seqs_le s t \<longleftrightarrow> sq_event s \<le> sq_event t \<and> sq_attempt s \<le> sq_attempt t \<and> sq_dlq s \<le> sq_dlq t
     \<and> sq_replay s \<le> sq_replay t \<and> sq_account s \<le> sq_account t \<and> sq_ledger s \<le> sq_ledger t"

lemma seqs_le_refl [simp]: "seqs_le s s"
  by (simp add: seqs_le_def)

lemma seqs_le_trans: "seqs_le r s \<Longrightarrow> seqs_le s t \<Longrightarrow> seqs_le r t"
  by (auto simp: seqs_le_def)

definition frame :: "'a prog \<Rightarrow> bool" where
  "frame m \<longleftrightarrow> (\<forall>w. env (snd (m w)) = env w \<and> seqs_le (seqs w) (seqs (snd (m w))))"

lemma frameD: "frame m \<Longrightarrow> m w = (r, w') \<Longrightarrow> env w' = env w \<and> seqs_le (seqs w) (seqs w')"
  unfolding frame_def by (metis snd_conv)

lemma frame_bind [frame_intros]:
  assumes m: "frame m" and f: "\<And>a. frame (f a)"
  shows "frame (bind_tx m f)"
  unfolding frame_def
proof (intro allI)
  fix w
  obtain r w' where r: "m w = (r, w')" by (cases "m w")
  have m': "env w' = env w \<and> seqs_le (seqs w) (seqs w')" using frameD [OF m r] .
  show "env (snd (bind_tx m f w)) = env w \<and> seqs_le (seqs w) (seqs (snd (bind_tx m f w)))"
  proof (cases r)
    case (Inl e)
    with r m' show ?thesis by (simp add: bind_tx_def)
  next
    case (Inr a)
    have "env (snd (f a w')) = env w' \<and> seqs_le (seqs w') (seqs (snd (f a w')))"
      using f [of a] by (simp add: frame_def)
    with Inr r m' show ?thesis by (auto simp: bind_tx_def intro: seqs_le_trans)
  qed
qed

lemma frame_simple [frame_intros]:
  "frame (return_tx a)" "frame (raise_tx e)" "frame (lift_exc r)" "frame clock_now" "frame (inc m)"
  "frame (query q)" "frame (modify g)" "frame (draw_delay att b c)"
  by (auto simp: frame_def return_tx_def raise_tx_def lift_exc_def clock_now_def inc_def query_def
      modify_def stmt_def draw_delay_def Let_def split: option.splits sum.splits)

lemma frame_stmt:
  assumes "\<And>w. env (snd (f w)) = env w \<and> seqs_le (seqs w) (seqs (snd (f w)))"
  shows "frame (stmt f)"
  using assms [of "tick_stmt w" for w] by (auto simp: frame_def stmt_def Let_def split: option.splits)

lemma frame_catch [frame_intros]:
  assumes "frame m" "\<And>e. frame (h e)"
  shows "frame (catch_exception m h)"
  unfolding frame_def
proof (intro allI)
  fix w
  obtain r w' where r: "m w = (r, w')" by (cases "m w")
  have "env w' = env w \<and> seqs_le (seqs w) (seqs w')" using frameD [OF assms(1) r] .
  moreover have "env (snd (h e w')) = env w' \<and> seqs_le (seqs w') (seqs (snd (h e w')))" for e
    using assms(2) [of e] by (simp add: frame_def)
  ultimately show "env (snd (catch_exception m h w)) = env w
      \<and> seqs_le (seqs w) (seqs (snd (catch_exception m h w)))"
    using r by (auto simp: catch_exception_def split: sum.splits intro: seqs_le_trans)
qed

lemma session_scope_cases:
  assumes "session_scope body w = (r, w')"
  obtains (committed) a w1 where "body (begin_tx w) = (Inr a, w1)"
      "w' = w1\<lparr>stmts := Suc (stmts w1), advisory := []\<rparr>"
      "r = Inr a \<and> faults (env w1) (stmts w1) = None
       \<or> (\<exists>e. r = Inl e \<and> faults (env w1) (stmts w1) = Some (AckLost e))"
  | (rolled_back) e r1 w1 where "body (begin_tx w) = (r1, w1)" "r = Inl e" "tables w' = tables w"
      "seqs w' = seqs w1" "env w' = env w1" "metrics w' = metrics w1" "ticks w' = ticks w1" "rng w' = rng w1"
  using assms
  by (auto simp: session_scope_def Let_def split: prod.splits sum.splits option.splits fault.splits)

lemma frame_session_scope [frame_intros]:
  assumes "frame body"
  shows "frame (session_scope body)"
  unfolding frame_def
proof (intro allI)
  fix w
  obtain r w' where r: "session_scope body w = (r, w')" by (cases "session_scope body w")
  then show "env (snd (session_scope body w)) = env w
      \<and> seqs_le (seqs w) (seqs (snd (session_scope body w)))"
    by (cases rule: session_scope_cases) (use r frameD [OF assms, of "begin_tx w"] in auto)
qed

section \<open>Invariants of transactions\<close>

text \<open>\<open>ok_keeps I m\<close>: a successful run of \<open>m\<close>, from a state where \<open>I\<close> holds, ends in one.
  \<open>keeps I m\<close>: every run does, also one that raises. A body needs only the first: the
  transaction around it undoes a failed run.\<close>

definition ok_keeps :: "(tables \<Rightarrow> sequences \<Rightarrow> bool) \<Rightarrow> 'a prog \<Rightarrow> bool" where
  "ok_keeps I m \<longleftrightarrow> (\<forall>w a w'. I (tables w) (seqs w) \<longrightarrow> m w = (Inr a, w') \<longrightarrow> I (tables w') (seqs w'))"

definition keeps :: "(tables \<Rightarrow> sequences \<Rightarrow> bool) \<Rightarrow> 'a prog \<Rightarrow> bool" where
  "keeps I m \<longleftrightarrow> (\<forall>w. I (tables w) (seqs w) \<longrightarrow> I (tables (snd (m w))) (seqs (snd (m w))))"

locale tx_invariant =
  fixes I :: "tables \<Rightarrow> sequences \<Rightarrow> bool"
  assumes seqs_mono: "I t s \<Longrightarrow> seqs_le s s' \<Longrightarrow> I t s'"
begin

lemma ok_bind: "ok_keeps I m \<Longrightarrow> (\<And>a. ok_keeps I (f a)) \<Longrightarrow> ok_keeps I (bind_tx m f)"
  unfolding ok_keeps_def prog_ok by blast

lemma ok_simple:
  "ok_keeps I (return_tx a)" "ok_keeps I (raise_tx e)" "ok_keeps I (lift_exc r)" "ok_keeps I clock_now"
  "ok_keeps I (inc m)" "ok_keeps I (query q)" "ok_keeps I (draw_delay att b c)"
  by (auto simp: ok_keeps_def tx_simps dest!: draw_delay_ok)

lemma keeps_bind:
  assumes "keeps I m" "\<And>a. keeps I (f a)"
  shows "keeps I (bind_tx m f)"
  unfolding keeps_def
proof (intro allI impI)
  fix w :: world assume I: "I (tables w) (seqs w)"
  obtain r w' where r: "m w = (r, w')" by (cases "m w")
  with I assms(1) have "I (tables w') (seqs w')" unfolding keeps_def by (metis snd_conv)
  with assms(2) r show "I (tables (snd (bind_tx m f w))) (seqs (snd (bind_tx m f w)))"
    by (cases r) (auto simp: bind_tx_def keeps_def)
qed

lemma keeps_simple:
  "keeps I (return_tx a)" "keeps I (raise_tx e)" "keeps I (lift_exc r)" "keeps I clock_now"
  "keeps I (inc m)" "keeps I (draw_delay att b c)"
  by (auto simp: keeps_def return_tx_def raise_tx_def lift_exc_def clock_now_def inc_def draw_delay_def
      split: sum.splits)

lemma keeps_catch:
  assumes "keeps I m" "\<And>e. keeps I (h e)"
  shows "keeps I (catch_exception m h)"
  unfolding keeps_def
proof (intro allI impI)
  fix w :: world assume I: "I (tables w) (seqs w)"
  obtain r w' where r: "m w = (r, w')" by (cases "m w")
  with I assms(1) have "I (tables w') (seqs w')" unfolding keeps_def by (metis snd_conv)
  with assms(2) r show "I (tables (snd (catch_exception m h w))) (seqs (snd (catch_exception m h w)))"
    by (cases r) (auto simp: catch_exception_def keeps_def)
qed

text \<open>A transaction keeps the invariant if its body does when it succeeds: a failed body and a failed
  commit leave the tables as they were, a lost acknowledgement leaves them as committed.\<close>

lemma keeps_session_scope:
  assumes fr: "frame body" and ok: "ok_keeps I body"
  shows "keeps I (session_scope body)"
  unfolding keeps_def
proof (intro allI impI)
  fix w :: world assume I: "I (tables w) (seqs w)"
  obtain r w' where r: "session_scope body w = (r, w')" by (cases "session_scope body w")
  from r show "I (tables (snd (session_scope body w))) (seqs (snd (session_scope body w)))"
  proof (cases rule: session_scope_cases)
    case (committed a w1)
    have "I (tables (begin_tx w)) (seqs (begin_tx w))" using I by simp
    with ok committed(1) have "I (tables w1) (seqs w1)" unfolding ok_keeps_def by blast
    with r committed(2) show ?thesis by simp
  next
    case (rolled_back e r1 w1)
    with frameD [OF fr rolled_back(1)] I r show ?thesis by (auto intro: seqs_mono)
  qed
qed

end

end
