(* ===== verification/Schema.thy ===== *)
theory Schema
  imports Database
begin

text \<open>
  What the schema guarantees of the stored rows: primary keys, the four unique constraints (and
  the attempt number's), the foreign keys and the checks (\<open>adapters/orm.py\<close>,
  \<open>migrations/versions/0001_initial_schema.py\<close>), together with the business invariants the
  service adds on top: the reconciliation of balances with the ledger, and the cover of every
  dead-lettered event by an entry of the dead-letter queue. The conjunction is \<open>db_inv\<close>.
\<close>

definition event_ids :: "tables \<Rightarrow> int set" where
  "event_ids t = ev_id ` set (webhook_event_t t)"

definition account_ids :: "tables \<Rightarrow> int set" where
  "account_ids t = ac_id ` set (account_t t)"

definition attempt_links :: "tables \<Rightarrow> int set" where
  "attempt_links t = {i. Some i \<in> rr_resulting_attempt_id ` set (replay_request_t t)}"

lemma attempt_links_frame [simp]:
  "attempt_links (t\<lparr>webhook_event_t := es\<rparr>) = attempt_links t"
  "attempt_links (t\<lparr>processing_attempt_t := as\<rparr>) = attempt_links t"
  "attempt_links (t\<lparr>dead_letter_entry_t := ds\<rparr>) = attempt_links t"
  "attempt_links (t\<lparr>account_t := bs\<rparr>) = attempt_links t"
  "attempt_links (t\<lparr>ledger_entry_t := ls\<rparr>) = attempt_links t"
  by (simp_all add: attempt_links_def)

definition keys_ok :: "tables \<Rightarrow> sequences \<Rightarrow> bool" where
  "keys_ok t s \<longleftrightarrow>
     table_ok ev_id ev_key (sq_event s) (webhook_event_t t)
   \<and> table_ok pa_id pa_key (sq_attempt s) (processing_attempt_t t)
   \<and> table_ok dl_id dl_event_id (sq_dlq s) (dead_letter_entry_t t)
   \<and> table_ok rr_id rr_id (sq_replay s) (replay_request_t t)
   \<and> table_ok ac_id ac_external_ref (sq_account s) (account_t t)
   \<and> table_ok le_id le_event_id (sq_ledger s) (ledger_entry_t t)"

definition seqs_ok :: "sequences \<Rightarrow> bool" where
  "seqs_ok s \<longleftrightarrow> 1 \<le> sq_event s \<and> 1 \<le> sq_attempt s \<and> 1 \<le> sq_dlq s \<and> 1 \<le> sq_replay s
     \<and> 1 \<le> sq_account s \<and> 1 \<le> sq_ledger s"

definition refs_ok :: "tables \<Rightarrow> bool" where
  "refs_ok t \<longleftrightarrow>
     pa_event_id ` set (processing_attempt_t t) \<subseteq> event_ids t
   \<and> dl_event_id ` set (dead_letter_entry_t t) \<subseteq> event_ids t
   \<and> rr_event_id ` set (replay_request_t t) \<subseteq> event_ids t
   \<and> attempt_links t \<subseteq> pa_id ` set (processing_attempt_t t)
   \<and> le_event_id ` set (ledger_entry_t t) \<subseteq> event_ids t
   \<and> le_account_id ` set (ledger_entry_t t) \<subseteq> account_ids t"

definition checks_ok :: "tables \<Rightarrow> bool" where
  "checks_ok t \<longleftrightarrow>
     (\<forall>e \<in> set (webhook_event_t t). 0 \<le> ev_attempt_count e)
   \<and> (\<forall>a \<in> set (processing_attempt_t t). 1 \<le> pa_attempt_number a)
   \<and> (\<forall>d \<in> set (dead_letter_entry_t t). 0 \<le> dl_attempts_made d)
   \<and> (\<forall>a \<in> set (account_t t). 0 \<le> ac_version a)"

text \<open>The balance is a cache of the ledger (\<open>drift = 0\<close> in \<open>v_account_reconciliation\<close>).\<close>

definition ledger_sum :: "tables \<Rightarrow> int \<Rightarrow> int" where
  "ledger_sum t aid = sum_col (\<lambda>l. le_account_id l = aid) le_amount_minor (ledger_entry_t t)"

definition reconciled :: "tables \<Rightarrow> bool" where
  "reconciled t \<longleftrightarrow> (\<forall>a \<in> set (account_t t). ac_balance_minor a = ledger_sum t (ac_id a))"

definition dlq_covers :: "tables \<Rightarrow> bool" where
  "dlq_covers t \<longleftrightarrow> (\<forall>e \<in> set (webhook_event_t t). ev_status e = DEAD_LETTERED \<longrightarrow>
     (\<exists>d \<in> set (dead_letter_entry_t t). dl_event_id d = ev_id e))"

definition db_inv :: "tables \<Rightarrow> sequences \<Rightarrow> bool" where
  "db_inv t s \<longleftrightarrow> keys_ok t s \<and> seqs_ok s \<and> refs_ok t \<and> checks_ok t \<and> reconciled t \<and> dlq_covers t"

lemmas db_inv_defs = db_inv_def keys_ok_def seqs_ok_def refs_ok_def checks_ok_def reconciled_def
  dlq_covers_def event_ids_def account_ids_def attempt_links_def ledger_sum_def

lemma db_inv_seqs_mono: "db_inv t s \<Longrightarrow> seqs_le s s' \<Longrightarrow> db_inv t s'"
  unfolding db_inv_def keys_ok_def seqs_ok_def seqs_le_def
  by (auto intro: table_ok_mono)

interpretation inv: tx_invariant db_inv
  by unfold_locales (rule db_inv_seqs_mono)

text \<open>The empty database.\<close>

definition no_rows :: tables where
  "no_rows = \<lparr>webhook_event_t = [], processing_attempt_t = [], dead_letter_entry_t = [],
     replay_request_t = [], account_t = [], ledger_entry_t = []\<rparr>"

definition fresh_sequences :: sequences where
  "fresh_sequences = \<lparr>sq_event = 1, sq_attempt = 1, sq_dlq = 1, sq_replay = 1, sq_account = 1, sq_ledger = 1\<rparr>"

lemma db_inv_no_rows: "db_inv no_rows fresh_sequences"
  by (simp add: db_inv_defs no_rows_def fresh_sequences_def table_ok_def)

lemma dlq_covers_iff:
  "dlq_covers t \<longleftrightarrow> (\<forall>e \<in> set (webhook_event_t t). ev_status e = DEAD_LETTERED \<longrightarrow>
     ev_id e \<in> dl_event_id ` set (dead_letter_entry_t t))"
  unfolding dlq_covers_def by (metis (no_types, lifting) imageE imageI)

lemma event_unique:
  "keys_ok t s \<Longrightarrow> e \<in> set (webhook_event_t t) \<Longrightarrow> e' \<in> set (webhook_event_t t) \<Longrightarrow> ev_id e = ev_id e' \<Longrightarrow> e = e'"
  unfolding keys_ok_def by (blast dest: table_ok_rid_inj)

lemma account_unique:
  "keys_ok t s \<Longrightarrow> a \<in> set (account_t t) \<Longrightarrow> b \<in> set (account_t t) \<Longrightarrow> ac_id a = ac_id b \<Longrightarrow> a = b"
  "keys_ok t s \<Longrightarrow> a \<in> set (account_t t) \<Longrightarrow> b \<in> set (account_t t) \<Longrightarrow> ac_external_ref a = ac_external_ref b \<Longrightarrow> a = b"
  unfolding keys_ok_def by (blast dest: table_ok_rid_inj table_ok_key_inj)+

end
