(* ===== verification/Ledger.thy ===== *)
theory Ledger
  imports Schema
begin

text \<open>
  Applying an effect (\<open>adapters/ledger.py\<close>): the upsert of the account, the claim of the
  ledger row by its unique event id, the additive and the state-setting effect. The abstract
  specification is a map from account references to a balance and a high-water mark together with the
  set of applied events; the statements implement it.
\<close>

section \<open>Statements\<close>

definition insert_account :: "py_str \<Rightarrow> int option prog" where
  "insert_account ref = stmt (\<lambda>w.
     if \<not> text_ok ref then (Inl (db_error w ''22021''), w)
     else
       let n = sq_account (seqs w);
           (r, rows) = on_conflict_do_nothing ac_external_ref (new_account (tx_now w) ref) n
                         (account_t (tables w))
       in (Inr r, w\<lparr>tables := (tables w)\<lparr>account_t := rows\<rparr>,
                    seqs := (seqs w)\<lparr>sq_account := n + 1\<rparr>\<rparr>))"

definition account_id :: "py_str \<Rightarrow> int prog" where
  "account_id ref =
     bind_tx (insert_account ref) (\<lambda>inserted. case inserted of
       Some n \<Rightarrow> return_tx n
     | None \<Rightarrow>
         bind_tx (query (\<lambda>w. find_row (\<lambda>a. ac_external_ref a = ref) (account_t (tables w)))) (\<lambda>row.
           case row of
             Some a \<Rightarrow> return_tx (ac_id a)
           | None \<Rightarrow> raise_tx (NoResultFound ''No row was found when one was required'')))"

definition claim_ledger_row :: "int \<Rightarrow> int \<Rightarrow> int \<Rightarrow> bool prog" where
  "claim_ledger_row aid event_id amount = stmt (\<lambda>w.
     if \<not> (int8_ok aid \<and> int8_ok event_id \<and> int8_ok amount) then (Inl (db_error w ''22000''), w)
     else
       let n = sq_ledger (seqs w);
           (r, rows) = on_conflict_do_nothing le_event_id
                         (new_ledger_entry (tx_now w) (aid, event_id, amount)) n
                         (ledger_entry_t (tables w));
           w' = w\<lparr>seqs := (seqs w)\<lparr>sq_ledger := n + 1\<rparr>\<rparr>
       in case r of
            None \<Rightarrow> (Inr False, w')
          | Some _ \<Rightarrow>
              if aid \<notin> account_ids (tables w) \<or> event_id \<notin> event_ids (tables w)
              then (Inl (integrity_error w ''23503''), w')
              else (Inr True, w'\<lparr>tables := (tables w)\<lparr>ledger_entry_t := rows\<rparr>\<rparr>))"

text \<open>\<open>UPDATE account SET balance_minor = balance_minor + :amount, version = greatest(...)\<close>.\<close>

definition add_to_balance :: "int \<Rightarrow> int \<Rightarrow> int \<Rightarrow> unit prog" where
  "add_to_balance aid amount sq = modify (\<lambda>w.
     let rows = account_t (tables w); hit = (\<lambda>a. ac_id a = aid)
     in if \<not> (int8_ok amount \<and> int8_ok sq) then Inl (db_error w ''22000'')
        else if \<exists>a \<in> set rows. hit a \<and> \<not> int8_ok (ac_balance_minor a + amount)
        then Inl (db_error w ''22003'')
        else Inr ((tables w)\<lparr>account_t := update_where hit
               (\<lambda>a. a\<lparr>ac_balance_minor := ac_balance_minor a + amount,
                       ac_version := max (ac_version a) sq, ac_updated_at := tx_now w\<rparr>) rows\<rparr>))"

definition set_balance :: "int \<Rightarrow> int \<Rightarrow> int \<Rightarrow> unit prog" where
  "set_balance aid balance sq = modify (\<lambda>w.
     let rows = account_t (tables w); hit = (\<lambda>a. ac_id a = aid)
     in if \<not> (int8_ok balance \<and> int8_ok sq) then Inl (db_error w ''22000'')
        else if sq < 0 \<and> (\<exists>a \<in> set rows. hit a) then Inl (integrity_error w ''23514'')
        else Inr ((tables w)\<lparr>account_t := update_where hit
               (\<lambda>a. a\<lparr>ac_balance_minor := balance, ac_version := sq, ac_updated_at := tx_now w\<rparr>) rows\<rparr>))"

section \<open>Effects\<close>

definition seq_or_zero :: "int option \<Rightarrow> int" where
  "seq_or_zero s = (case s of None \<Rightarrow> 0 | Some n \<Rightarrow> n)"

definition apply_credit :: "stored_event \<Rightarrow> py_str \<Rightarrow> int \<Rightarrow> effect_result prog" where
  "apply_credit event ref amount =
     bind_tx (account_id ref) (\<lambda>aid.
     bind_tx (claim_ledger_row aid (se_id event) amount) (\<lambda>claimed.
       if \<not> claimed then return_tx ALREADY_APPLIED
       else
         bind_tx (add_to_balance aid amount (seq_or_zero (se_provider_sequence event))) (\<lambda>_.
         return_tx APPLIED)))"

definition apply_set_balance :: "stored_event \<Rightarrow> py_str \<Rightarrow> int \<Rightarrow> int \<Rightarrow> effect_result prog" where
  "apply_set_balance event ref balance sq =
     bind_tx (account_id ref) (\<lambda>aid.
     bind_tx (query (\<lambda>w. find_row (\<lambda>a. ac_id a = aid) (account_t (tables w)))) (\<lambda>row.
       case row of
         None \<Rightarrow> raise_tx (NoResultFound ''No row was found when one was required'')
       | Some current \<Rightarrow>
           if sq \<le> ac_version current then return_tx EFF_SUPERSEDED
           else
             let delta = balance - ac_balance_minor current
             in bind_tx (claim_ledger_row aid (se_id event) delta) (\<lambda>claimed.
                  if \<not> claimed then return_tx ALREADY_APPLIED
                  else bind_tx (set_balance aid balance sq) (\<lambda>_. return_tx APPLIED))))"

definition apply_effect :: "stored_event \<Rightarrow> effect \<Rightarrow> effect_result prog" where
  "apply_effect event eff =
     (case eff of
        Credit ref amount \<Rightarrow> apply_credit event ref amount
      | SetBalance ref balance sq \<Rightarrow> apply_set_balance event ref balance sq)"

section \<open>Specification\<close>

record ledger_spec =
  sp_account :: "py_str \<Rightarrow> int \<times> int"
  sp_applied :: "int set"

fun spec_effect :: "int \<Rightarrow> int option \<Rightarrow> effect \<Rightarrow> ledger_spec \<Rightarrow> effect_result \<times> ledger_spec" where
  "spec_effect eid sq (Credit ref amount) s =
     (if eid \<in> sp_applied s then (ALREADY_APPLIED, s)
      else let (b, v) = sp_account s ref
           in (APPLIED, \<lparr>sp_account = (sp_account s)(ref := (b + amount, max v (seq_or_zero sq))),
                         sp_applied = insert eid (sp_applied s)\<rparr>))"
| "spec_effect eid sq (SetBalance ref balance n) s =
     (let (b, v) = sp_account s ref
      in if n \<le> v then (EFF_SUPERSEDED, s)
         else if eid \<in> sp_applied s then (ALREADY_APPLIED, s)
         else (APPLIED, \<lparr>sp_account = (sp_account s)(ref := (balance, n)),
                         sp_applied = insert eid (sp_applied s)\<rparr>))"

text \<open>The abstraction of the tables: an account not yet seen stands at balance 0, mark 0.\<close>

definition account_view :: "account list \<Rightarrow> py_str \<Rightarrow> int \<times> int" where
  "account_view rows ref =
     (case find_row (\<lambda>a. ac_external_ref a = ref) rows of
        None \<Rightarrow> (0, 0) | Some a \<Rightarrow> (ac_balance_minor a, ac_version a))"

definition ledger_abs :: "tables \<Rightarrow> ledger_spec" where
  "ledger_abs t = \<lparr>sp_account = account_view (account_t t),
                   sp_applied = le_event_id ` set (ledger_entry_t t)\<rparr>"

section \<open>Frames\<close>

lemma frame_insert_account [frame_intros]: "frame (insert_account ref)"
  unfolding insert_account_def by (rule frame_stmt) (auto simp: Let_def seqs_le_def split: prod.splits)

lemma frame_claim_ledger_row [frame_intros]: "frame (claim_ledger_row a e m)"
  unfolding claim_ledger_row_def
  by (rule frame_stmt) (auto simp: Let_def seqs_le_def split: prod.splits option.splits)

lemma frame_account_id [frame_intros]: "frame (account_id ref)"
  unfolding account_id_def by (auto intro!: frame_intros split: option.splits)

lemma frame_apply_effect [frame_intros]: "frame (apply_effect ev eff)"
  unfolding apply_effect_def apply_credit_def apply_set_balance_def add_to_balance_def set_balance_def Let_def
  by (auto intro!: frame_intros split: effect.splits option.splits)

section \<open>What the statements do when they succeed\<close>

definition with_account :: "datetime \<Rightarrow> int \<Rightarrow> py_str \<Rightarrow> account list \<Rightarrow> account list" where
  "with_account now n ref rows =
     snd (on_conflict_do_nothing ac_external_ref (new_account now ref) n rows)"

lemma with_account_eq:
  "with_account now n ref rows =
     (if ref \<in> ac_external_ref ` set rows then rows else rows @ [new_account now ref n])"
  by (simp add: with_account_def on_conflict_do_nothing_def new_account_def)

definition upsert_account :: "py_str \<Rightarrow> world \<Rightarrow> tables" where
  "upsert_account ref w = (tables w)\<lparr>account_t :=
     with_account (tx_now w) (sq_account (seqs w)) ref (account_t (tables w))\<rparr>"

lemma account_id_ok:
  assumes "account_id ref w = (Inr aid, w')"
  shows "tables w' = upsert_account ref w"
    and "seqs w' = (seqs w)\<lparr>sq_account := sq_account (seqs w) + 1\<rparr>"
    and "tx_now w' = tx_now w"
    and "\<exists>a. find_row (\<lambda>a. ac_external_ref a = ref) (account_t (tables w')) = Some a \<and> ac_id a = aid"
proof -
  let ?rows = "account_t (tables w)"
  have new: "find_row (\<lambda>a. ac_external_ref a = ref) (?rows @ [new_account now ref n]) = Some (new_account now ref n)"
    if "\<forall>r \<in> set ?rows. ac_external_ref r \<noteq> ref" for now n
    using that by (intro find_row_unique) (auto simp: new_account_def)
  show "tables w' = upsert_account ref w"
    and "seqs w' = (seqs w)\<lparr>sq_account := sq_account (seqs w) + 1\<rparr>"
    and "tx_now w' = tx_now w"
    and "\<exists>a. find_row (\<lambda>a. ac_external_ref a = ref) (account_t (tables w')) = Some a \<and> ac_id a = aid"
    using assms new [of "tx_now w" "sq_account (seqs w)"]
    by (auto simp: account_id_def insert_account_def tx_simps Let_def with_account_def upsert_account_def
        on_conflict_do_nothing_def new_account_def image_iff eq_commute [of ref] split: if_splits option.splits prod.splits)
qed

lemma claim_ledger_row_ok:
  "claim_ledger_row aid eid amount w = (Inr b, w') \<longleftrightarrow>
     faults (env w) (stmts w) = None \<and> int8_ok aid \<and> int8_ok eid \<and> int8_ok amount
   \<and> (let w1 = (tick_stmt w)\<lparr>seqs := (seqs w)\<lparr>sq_ledger := sq_ledger (seqs w) + 1\<rparr>\<rparr>
      in if eid \<in> le_event_id ` set (ledger_entry_t (tables w)) then \<not> b \<and> w' = w1
         else b \<and> aid \<in> account_ids (tables w) \<and> eid \<in> event_ids (tables w)
            \<and> w' = w1\<lparr>tables := (tables w)\<lparr>ledger_entry_t := ledger_entry_t (tables w)
                 @ [new_ledger_entry (tx_now w) (aid, eid, amount) (sq_ledger (seqs w))]\<rparr>\<rparr>)"
  by (auto simp: claim_ledger_row_def tx_simps Let_def on_conflict_do_nothing_def new_ledger_entry_def
      split: if_splits)

section \<open>The invariant across the statements\<close>

lemma db_inv_upsert:
  assumes "db_inv (tables w) (seqs w)"
  shows "db_inv (upsert_account ref w) ((seqs w)\<lparr>sq_account := sq_account (seqs w) + 1\<rparr>)"
proof -
  let ?t = "tables w" and ?s = "seqs w" and ?n = "sq_account (seqs w)"
  let ?rows = "with_account (tx_now w) ?n ref (account_t ?t)"
  have k: "table_ok ac_id ac_external_ref ?n (account_t ?t)" and n: "1 \<le> ?n"
    using assms by (simp_all add: db_inv_defs)
  have sub: "set (account_t ?t) \<subseteq> set ?rows" by (auto simp: with_account_eq)
  have "table_ok ac_id ac_external_ref (?n + 1) ?rows"
    unfolding with_account_def by (rule account_table.insert_ok [OF k n])
  moreover have "ledger_sum ?t ?n = 0"
    unfolding ledger_sum_def using assms k
    by (intro sum_col_none) (fastforce simp: db_inv_def refs_ok_def account_ids_def table_ok_def)
  then have "\<forall>a \<in> set ?rows. ac_balance_minor a = ledger_sum ?t (ac_id a)"
    using assms by (auto simp: with_account_eq new_account_def db_inv_def reconciled_def)
  moreover have "\<forall>a \<in> set ?rows. 0 \<le> ac_version a"
    using assms by (auto simp: with_account_eq new_account_def db_inv_def checks_ok_def)
  moreover have "refs_ok (upsert_account ref w)"
    using assms image_mono [OF sub, of ac_id]
    by (simp add: db_inv_def refs_ok_def upsert_account_def account_ids_def event_ids_def) (meson order_trans)
  ultimately show ?thesis using assms
    by (simp add: db_inv_def keys_ok_def seqs_ok_def checks_ok_def reconciled_def dlq_covers_def ledger_sum_def
        upsert_account_def)
qed

text \<open>Posting one ledger entry and moving its account's balance by the same amount.\<close>

definition post_entry ::
  "datetime \<Rightarrow> int \<Rightarrow> int \<Rightarrow> int \<Rightarrow> (account \<Rightarrow> account) \<Rightarrow> int \<Rightarrow> tables \<Rightarrow> tables" where
  "post_entry now aid eid amount move n t =
     t\<lparr>ledger_entry_t := ledger_entry_t t @ [new_ledger_entry now (aid, eid, amount) n],
       account_t := update_where (\<lambda>a. ac_id a = aid) move (account_t t)\<rparr>"

lemma db_inv_post_entry:
  assumes inv: "db_inv t s"
    and refs: "aid \<in> account_ids t" "eid \<in> event_ids t" "eid \<notin> le_event_id ` set (ledger_entry_t t)"
    and move: "\<And>a. ac_id (move a) = ac_id a" "\<And>a. ac_external_ref (move a) = ac_external_ref a"
      "\<And>a. a \<in> set (account_t t) \<Longrightarrow> ac_id a = aid \<Longrightarrow> ac_balance_minor (move a) = ac_balance_minor a + amount \<and> 0 \<le> ac_version (move a)"
  shows "db_inv (post_entry now aid eid amount move (sq_ledger s) t) (s\<lparr>sq_ledger := sq_ledger s + 1\<rparr>)"
proof -
  let ?l = "new_ledger_entry now (aid, eid, amount)" and ?n = "sq_ledger s"
  let ?t = "post_entry now aid eid amount move ?n t"
  have l: "le_account_id (?l n) = aid" "le_event_id (?l n) = eid" "le_amount_minor (?l n) = amount" for n
    by (simp_all add: new_ledger_entry_def)
  have "table_ok le_id le_event_id ?n (ledger_entry_t t)" "1 \<le> ?n" using inv by (simp_all add: db_inv_defs)
  from ledger_table.insert_ok [OF this, of now "(aid, eid, amount)"] refs(3)
  have led: "table_ok le_id le_event_id (?n + 1) (ledger_entry_t t @ [?l ?n])"
    by (simp add: on_conflict_do_nothing_def l)
  have acc: "table_ok ac_id ac_external_ref (sq_account s) (account_t ?t)"
    using inv move(1,2) by (simp add: post_entry_def table_ok_update db_inv_defs)
  have ids: "account_ids ?t = account_ids t" "event_ids ?t = event_ids t"
    using arg_cong [OF map_update_where [of ac_id move "\<lambda>a. ac_id a = aid" "account_t t"], of set] move(1)
    by (simp_all add: account_ids_def event_ids_def post_entry_def)
  have sum: "ledger_sum ?t i = ledger_sum t i + (if i = aid then amount else 0)" for i
    by (simp add: ledger_sum_def post_entry_def l)
  have "reconciled ?t"
    unfolding reconciled_def sum using inv move
    by (auto simp: post_entry_def set_update_where db_inv_def reconciled_def)
  moreover have "\<forall>a \<in> set (account_t ?t). 0 \<le> ac_version a"
    using inv move by (auto simp: post_entry_def set_update_where db_inv_def checks_ok_def)
  moreover have "refs_ok ?t"
    using inv refs ids l by (auto simp: db_inv_def refs_ok_def post_entry_def)
  ultimately show ?thesis
    using inv led acc by (auto simp: db_inv_def keys_ok_def seqs_ok_def checks_ok_def dlq_covers_def post_entry_def)
qed

lemma account_view_with_account:
  "account_view (with_account now n ref rows) r = account_view rows r"
  by (cases "find_row (\<lambda>a. ac_external_ref a = r) rows")
     (simp_all add: account_view_def with_account_eq find_row_append new_account_def del: find_row_None)

lemma account_view_update:
  assumes inj: "\<And>a b. a \<in> set rows \<Longrightarrow> b \<in> set rows \<Longrightarrow> ac_id a = ac_id b \<Longrightarrow> a = b"
    and a: "find_row (\<lambda>a. ac_external_ref a = ref) rows = Some a"
    and f: "\<And>a. ac_external_ref (f a) = ac_external_ref a"
  shows "account_view (update_where (\<lambda>b. ac_id b = ac_id a) f rows) r =
     ((account_view rows)(ref := (ac_balance_minor (f a), ac_version (f a)))) r"
proof (cases "find_row (\<lambda>a. ac_external_ref a = r) rows")
  case None
  with a have "r \<noteq> ref" by (auto simp del: find_row_None)
  with None show ?thesis by (simp add: account_view_def find_row_update_where f del: find_row_None)
next
  case (Some b)
  have a': "a \<in> set rows" "ac_external_ref a = ref" using find_row_Some [OF a] by auto
  have b': "b \<in> set rows" "ac_external_ref b = r" using find_row_Some [OF Some] by auto
  show ?thesis
  proof (cases "r = ref")
    case True
    with Some a have "b = a" by simp
    with Some True show ?thesis by (simp add: account_view_def find_row_update_where f)
  next
    case False
    with inj [OF a'(1) b'(1)] a' b' have "ac_id b \<noteq> ac_id a" by auto
    with Some False show ?thesis by (simp add: account_view_def find_row_update_where f)
  qed
qed

text \<open>A successful credit: either nothing but the account's existence changed, or one entry was
  posted.\<close>

lemma apply_credit_ok:
  assumes "apply_credit ev ref amount w = (Inr res, w')"
  obtains (already) "res = ALREADY_APPLIED" "tables w' = upsert_account ref w"
      "se_id ev \<in> le_event_id ` set (ledger_entry_t (tables w))"
      "seqs w' = (seqs w)\<lparr>sq_account := sq_account (seqs w) + 1, sq_ledger := sq_ledger (seqs w) + 1\<rparr>"
  | (applied) a where "res = APPLIED"
      "find_row (\<lambda>a. ac_external_ref a = ref) (account_t (upsert_account ref w)) = Some a"
      "se_id ev \<notin> le_event_id ` set (ledger_entry_t (tables w))" "se_id ev \<in> event_ids (tables w)"
      "tables w' = post_entry (tx_now w) (ac_id a) (se_id ev) amount
         (\<lambda>a. a\<lparr>ac_balance_minor := ac_balance_minor a + amount,
                 ac_version := max (ac_version a) (seq_or_zero (se_provider_sequence ev)),
                 ac_updated_at := tx_now w\<rparr>) (sq_ledger (seqs w)) (upsert_account ref w)"
      "seqs w' = (seqs w)\<lparr>sq_account := sq_account (seqs w) + 1, sq_ledger := sq_ledger (seqs w) + 1\<rparr>"
proof -
  from assms obtain aid w1 claimed w2 where
    1: "account_id ref w = (Inr aid, w1)" and
    2: "claim_ledger_row aid (se_id ev) amount w1 = (Inr claimed, w2)" and
    3: "(if \<not> claimed then return_tx ALREADY_APPLIED
         else bind_tx (add_to_balance aid amount (seq_or_zero (se_provider_sequence ev))) (\<lambda>_. return_tx APPLIED)) w2
        = (Inr res, w')"
    by (auto simp: apply_credit_def tx_simps)
  note a = account_id_ok [OF 1]
  have led: "ledger_entry_t (tables w1) = ledger_entry_t (tables w)" "event_ids (tables w1) = event_ids (tables w)"
    by (simp_all add: a(1) upsert_account_def event_ids_def)
  show ?thesis
  proof (cases claimed)
    case False
    then show ?thesis using 2 3 a led
      by (intro already) (auto simp: claim_ledger_row_ok tx_simps Let_def split: if_splits)
  next
    case True
    obtain ar where ar: "find_row (\<lambda>a. ac_external_ref a = ref) (account_t (tables w1)) = Some ar" "ac_id ar = aid"
      using a(4) by blast
    show ?thesis
      by (rule applied [of ar])
         (use True 2 3 a(1,2,3) led ar in \<open>auto simp: claim_ledger_row_ok add_to_balance_def tx_simps Let_def post_entry_def split: if_splits\<close>)
  qed
qed

lemma apply_set_balance_ok:
  assumes "apply_set_balance ev ref balance sq w = (Inr res, w')"
    and keys: "keys_ok (tables w) (seqs w)" "seqs_ok (seqs w)"
  obtains (superseded) a where "res = EFF_SUPERSEDED" "tables w' = upsert_account ref w"
      "find_row (\<lambda>a. ac_external_ref a = ref) (account_t (upsert_account ref w)) = Some a" "sq \<le> ac_version a"
      "seqs w' = (seqs w)\<lparr>sq_account := sq_account (seqs w) + 1\<rparr>"
  | (already) a where "res = ALREADY_APPLIED" "tables w' = upsert_account ref w"
      "find_row (\<lambda>a. ac_external_ref a = ref) (account_t (upsert_account ref w)) = Some a" "ac_version a < sq"
      "se_id ev \<in> le_event_id ` set (ledger_entry_t (tables w))"
      "seqs w' = (seqs w)\<lparr>sq_account := sq_account (seqs w) + 1, sq_ledger := sq_ledger (seqs w) + 1\<rparr>"
  | (applied) a where "res = APPLIED"
      "find_row (\<lambda>a. ac_external_ref a = ref) (account_t (upsert_account ref w)) = Some a" "ac_version a < sq"
      "se_id ev \<notin> le_event_id ` set (ledger_entry_t (tables w))" "se_id ev \<in> event_ids (tables w)" "0 \<le> sq"
      "tables w' = post_entry (tx_now w) (ac_id a) (se_id ev) (balance - ac_balance_minor a)
         (\<lambda>a. a\<lparr>ac_balance_minor := balance, ac_version := sq, ac_updated_at := tx_now w\<rparr>)
         (sq_ledger (seqs w)) (upsert_account ref w)"
      "seqs w' = (seqs w)\<lparr>sq_account := sq_account (seqs w) + 1, sq_ledger := sq_ledger (seqs w) + 1\<rparr>"
proof -
  from assms obtain aid w1 row w2 where
    1: "account_id ref w = (Inr aid, w1)" and
    2: "row = find_row (\<lambda>a. ac_id a = aid) (account_t (tables w1))" "w2 = tick_stmt w1" and
    3: "(case row of None \<Rightarrow> raise_tx (NoResultFound ''No row was found when one was required'')
         | Some current \<Rightarrow> if sq \<le> ac_version current then return_tx EFF_SUPERSEDED
           else let delta = balance - ac_balance_minor current
             in bind_tx (claim_ledger_row aid (se_id ev) delta) (\<lambda>claimed.
                  if \<not> claimed then return_tx ALREADY_APPLIED
                  else bind_tx (set_balance aid balance sq) (\<lambda>_. return_tx APPLIED))) w2 = (Inr res, w')"
    by (auto simp: apply_set_balance_def tx_simps)
  note a = account_id_ok [OF 1]
  obtain ar where ar: "find_row (\<lambda>a. ac_external_ref a = ref) (account_t (tables w1)) = Some ar" "ac_id ar = aid"
    using a(4) by blast
  have led: "ledger_entry_t (tables w1) = ledger_entry_t (tables w)" "event_ids (tables w1) = event_ids (tables w)"
    by (simp_all add: a(1) upsert_account_def event_ids_def)
  have in1: "ar \<in> set (account_t (tables w1))" using find_row_Some [OF ar(1)] by simp
  have "table_ok ac_id ac_external_ref (sq_account (seqs w) + 1) (account_t (tables w1))"
    unfolding a(1) upsert_account_def with_account_def using keys account_table.insert_ok
    by (simp add: keys_ok_def seqs_ok_def)
  then have "row = Some ar"
    unfolding 2 using in1 ar(2) by (intro find_row_unique) (auto dest: table_ok_rid_inj)
  note 3 = 3 [unfolded this option.case]
  show ?thesis
  proof (cases "sq \<le> ac_version ar")
    case True
    then show ?thesis using 3 a(1,2) ar 2(2) by (intro superseded [of ar]) (auto simp: tx_simps)
  next
    case new: False
    with 3 obtain claimed w3 where
      4: "claim_ledger_row aid (se_id ev) (balance - ac_balance_minor ar) w2 = (Inr claimed, w3)" and
      5: "(if \<not> claimed then return_tx ALREADY_APPLIED
           else bind_tx (set_balance aid balance sq) (\<lambda>_. return_tx APPLIED)) w3 = (Inr res, w')"
      by (auto simp: tx_simps Let_def)
    show ?thesis
    proof (cases claimed)
      case False
      then show ?thesis using 4 5 a(1,2) ar led new 2(2)
        by (intro already [of ar]) (auto simp: claim_ledger_row_ok tx_simps Let_def split: if_splits)
    next
      case True
      show ?thesis
        by (rule applied [of ar])
           (use True 4 5 a(1,2,3) led ar new 2(2) in1 in \<open>auto simp: claim_ledger_row_ok set_balance_def tx_simps Let_def post_entry_def split: if_splits\<close>)
    qed
  qed
qed

lemma upsert_view:
  assumes "find_row (\<lambda>a. ac_external_ref a = ref) (account_t (upsert_account ref w)) = Some a"
  shows "account_view (account_t (tables w)) ref = (ac_balance_minor a, ac_version a)"
proof -
  have "account_view (account_t (upsert_account ref w)) ref = (ac_balance_minor a, ac_version a)"
    using assms by (simp add: account_view_def)
  then show ?thesis by (simp add: upsert_account_def account_view_with_account)
qed

lemma ledger_abs_upsert: "ledger_abs (upsert_account ref w) = ledger_abs (tables w)"
  by (simp add: ledger_abs_def upsert_account_def account_view_with_account [abs_def] fun_eq_iff)

lemma ledger_abs_post:
  assumes inv: "db_inv (tables w) (seqs w)"
    and a: "find_row (\<lambda>a. ac_external_ref a = ref) (account_t (upsert_account ref w)) = Some a"
    and f: "\<And>a. ac_external_ref (f a) = ac_external_ref a"
  shows "ledger_abs (post_entry now (ac_id a) eid amount f n (upsert_account ref w)) =
    \<lparr>sp_account = (account_view (account_t (tables w)))(ref := (ac_balance_minor (f a), ac_version (f a))),
     sp_applied = insert eid (le_event_id ` set (ledger_entry_t (tables w)))\<rparr>"
proof -
  let ?rows = "account_t (upsert_account ref w)"
  have "keys_ok (upsert_account ref w) ((seqs w)\<lparr>sq_account := sq_account (seqs w) + 1\<rparr>)"
    using db_inv_upsert [OF inv] by (simp add: db_inv_def)
  then have inj: "b = c" if "b \<in> set ?rows" "c \<in> set ?rows" "ac_id b = ac_id c" for b c
    using that account_unique(1) by blast
  let ?rows' = "update_where (\<lambda>b. ac_id b = ac_id a) f ?rows"
  have v: "account_view ?rows = account_view (account_t (tables w))"
    by (simp add: upsert_account_def account_view_with_account fun_eq_iff)
  have "account_view ?rows' = (account_view ?rows)(ref := (ac_balance_minor (f a), ac_version (f a)))"
    by (rule ext) (rule account_view_update [OF inj a f])
  then have "account_view (account_t (post_entry now (ac_id a) eid amount f n (upsert_account ref w))) =
      (account_view (account_t (tables w)))(ref := (ac_balance_minor (f a), ac_version (f a)))"
    by (simp add: v post_entry_def)
  moreover have "le_event_id ` set (ledger_entry_t (post_entry now (ac_id a) eid amount f n (upsert_account ref w))) =
      insert eid (le_event_id ` set (ledger_entry_t (tables w)))"
    by (simp add: post_entry_def upsert_account_def new_ledger_entry_def)
  ultimately show ?thesis by (simp only: ledger_abs_def)
qed

lemma account_in_upsert:
  assumes inv: "db_inv (tables w) (seqs w)"
    and a: "find_row (\<lambda>a. ac_external_ref a = ref) (account_t (upsert_account ref w)) = Some a"
  shows "ac_id a \<in> account_ids (upsert_account ref w)"
    and "b \<in> set (account_t (upsert_account ref w)) \<Longrightarrow> ac_id b = ac_id a \<Longrightarrow> b = a"
    and "0 \<le> ac_version a"
proof -
  have I: "db_inv (upsert_account ref w) ((seqs w)\<lparr>sq_account := sq_account (seqs w) + 1\<rparr>)"
    by (rule db_inv_upsert [OF inv])
  have m: "a \<in> set (account_t (upsert_account ref w))" using find_row_Some [OF a] by simp
  then show "ac_id a \<in> account_ids (upsert_account ref w)" by (simp add: account_ids_def)
  show "0 \<le> ac_version a" using I m by (simp add: db_inv_def checks_ok_def)
  show "b \<in> set (account_t (upsert_account ref w)) \<Longrightarrow> ac_id b = ac_id a \<Longrightarrow> b = a"
    using I m account_unique(1) by (auto simp: db_inv_def)
qed

lemma upsert_simps [simp]:
  "event_ids (upsert_account ref w) = event_ids (tables w)"
  "ledger_entry_t (upsert_account ref w) = ledger_entry_t (tables w)"
  by (simp_all add: upsert_account_def event_ids_def)

lemma db_inv_post_upserted:
  assumes inv: "db_inv (tables w) (seqs w)"
    and a: "find_row (\<lambda>a. ac_external_ref a = ref) (account_t (upsert_account ref w)) = Some a"
    and eid: "eid \<in> event_ids (tables w)" "eid \<notin> le_event_id ` set (ledger_entry_t (tables w))"
    and move: "\<And>b. ac_id (move b) = ac_id b" "\<And>b. ac_external_ref (move b) = ac_external_ref b"
      "ac_balance_minor (move a) = ac_balance_minor a + amount" "0 \<le> ac_version a \<Longrightarrow> 0 \<le> ac_version (move a)"
  shows "db_inv (post_entry now (ac_id a) eid amount move (sq_ledger (seqs w)) (upsert_account ref w))
    ((seqs w)\<lparr>sq_account := sq_account (seqs w) + 1, sq_ledger := sq_ledger (seqs w) + 1\<rparr>)"
proof -
  let ?s = "(seqs w)\<lparr>sq_account := sq_account (seqs w) + 1\<rparr>"
  have "ac_balance_minor (move b) = ac_balance_minor b + amount \<and> 0 \<le> ac_version (move b)"
    if "b \<in> set (account_t (upsert_account ref w))" "ac_id b = ac_id a" for b
    using account_in_upsert(2) [OF inv a that] account_in_upsert(3) [OF inv a] move(3,4) by simp
  then have "db_inv (post_entry now (ac_id a) eid amount move (sq_ledger ?s) (upsert_account ref w)) (?s\<lparr>sq_ledger := sq_ledger ?s + 1\<rparr>)"
    by (intro db_inv_post_entry db_inv_upsert inv account_in_upsert(1) [OF inv a]) (simp_all add: eid move)
  then show ?thesis by simp
qed

lemma ok_keeps_apply_effect: "ok_keeps db_inv (apply_effect ev eff)"
  unfolding ok_keeps_def
proof (intro allI impI)
  fix w res w'
  assume inv: "db_inv (tables w) (seqs w)" and run: "apply_effect ev eff w = (Inr res, w')"
  let ?s = "\<lambda>s. s\<lparr>sq_account := sq_account s + 1\<rparr>"
  have le: "seqs_le (?s (seqs w)) (?s (seqs w)\<lparr>sq_ledger := sq_ledger (seqs w) + 1\<rparr>)" by (simp add: seqs_le_def)
  show "db_inv (tables w') (seqs w')"
  proof (cases eff)
    case (Credit ref amount)
    note up = db_inv_upsert [OF inv, of ref]
    from run Credit have "apply_credit ev ref amount w = (Inr res, w')" by (simp add: apply_effect_def)
    then show ?thesis
    proof (cases rule: apply_credit_ok)
      case already
      with up le show ?thesis by (auto intro: inv.seqs_mono)
    next
      case (applied a)
      show ?thesis unfolding applied
        by (rule db_inv_post_upserted [OF inv applied(2)]) (use applied(3,4) in simp_all)
    qed
  next
    case (SetBalance ref balance sq)
    note up = db_inv_upsert [OF inv, of ref]
    have k: "keys_ok (tables w) (seqs w)" "seqs_ok (seqs w)" using inv by (simp_all add: db_inv_def)
    from run SetBalance have "apply_set_balance ev ref balance sq w = (Inr res, w')" by (simp add: apply_effect_def)
    from this k show ?thesis
    proof (cases rule: apply_set_balance_ok)
      case (superseded a)
      with up le show ?thesis by (auto intro: inv.seqs_mono)
    next
      case (already a)
      with up le show ?thesis by (auto intro: inv.seqs_mono)
    next
      case (applied a)
      show ?thesis unfolding applied
        by (rule db_inv_post_upserted [OF inv applied(2)]) (use applied(3-6) in simp_all)
    qed
  qed
qed

text \<open>The statements implement the specification.\<close>

lemma apply_effect_refines:
  assumes inv: "db_inv (tables w) (seqs w)" and run: "apply_effect ev eff w = (Inr res, w')"
  shows "spec_effect (se_id ev) (se_provider_sequence ev) eff (ledger_abs (tables w)) = (res, ledger_abs (tables w'))"
proof (cases eff)
  case (Credit ref amount)
  from run Credit have "apply_credit ev ref amount w = (Inr res, w')" by (simp add: apply_effect_def)
  then show ?thesis
  proof (cases rule: apply_credit_ok)
    case already
    then show ?thesis by (simp add: Credit ledger_abs_upsert) (simp add: ledger_abs_def)
  next
    case (applied a)
    show ?thesis unfolding applied Credit
      by (subst ledger_abs_post [OF inv applied(2)])
         (use applied(3) upsert_view [OF applied(2)] in \<open>simp_all add: ledger_abs_def\<close>)
  qed
next
  case (SetBalance ref balance sq)
  have k: "keys_ok (tables w) (seqs w)" "seqs_ok (seqs w)" using inv by (simp_all add: db_inv_def)
  from run SetBalance have "apply_set_balance ev ref balance sq w = (Inr res, w')" by (simp add: apply_effect_def)
  from this k show ?thesis
  proof (cases rule: apply_set_balance_ok)
    case (superseded a)
    then show ?thesis using upsert_view [OF superseded(3)]
      by (simp add: SetBalance ledger_abs_upsert) (simp add: ledger_abs_def)
  next
    case (already a)
    then show ?thesis using upsert_view [OF already(3)]
      by (simp add: SetBalance ledger_abs_upsert) (simp add: ledger_abs_def)
  next
    case (applied a)
    show ?thesis unfolding applied SetBalance
      by (subst ledger_abs_post [OF inv applied(2)])
         (use applied(3,4) upsert_view [OF applied(2)] in \<open>simp_all add: ledger_abs_def\<close>)
  qed
qed

end
