(* ===== verification/Queue.thy ===== *)
theory Queue
  imports Ledger "HOL-Library.Multiset"
begin

text \<open>
  The event table used as a work queue (\<open>adapters/queue.py\<close>): the unlocked read of due events, the
  claim under \<open>FOR UPDATE SKIP LOCKED\<close>, the attempt history, and the statements that move an
  event between its states. Each statement keeps \<open>db_inv\<close>; \<open>dead_letter\<close> does so only as a
  whole, because its two statements belong together.
\<close>

section \<open>Statements\<close>

text \<open>A read whose \<open>WHERE\<close> clause binds an id: the driver refuses an id outside \<open>bigint\<close>.\<close>

definition query_by_id :: "int \<Rightarrow> (world \<Rightarrow> 'a) \<Rightarrow> 'a prog" where
  "query_by_id i f = stmt (\<lambda>w. if int8_ok i then (Inr (f w), w) else (Inl (db_error w ''22000''), w))"

definition to_domain :: "webhook_event \<Rightarrow> stored_event" where
  "to_domain row = \<lparr>se_id = ev_id row, se_source = ev_source row, se_event_type = ev_event_type row,
     se_entity_type = ev_entity_type row, se_entity_id = ev_entity_id row, se_payload = ev_payload row,
     se_occurred_at = ev_occurred_at row, se_provider_sequence = ev_provider_sequence row,
     se_attempt_count = ev_attempt_count row\<rparr>"

definition is_due :: "datetime \<Rightarrow> webhook_event \<Rightarrow> bool" where
  "is_due now e \<longleftrightarrow> ev_status e = PENDING \<and> ev_next_attempt_at e \<le> now"

definition due_event_ids :: "datetime \<Rightarrow> int \<Rightarrow> int list prog" where
  "due_event_ids now limit = query (\<lambda>w.
     map ev_id (order_by_limit ev_next_attempt_at (nat limit)
       (scan_events (env w) (stmts w) (filter (is_due now) (webhook_event_t (tables w))))))"

definition claim :: "int \<Rightarrow> datetime \<Rightarrow> stored_event option prog" where
  "claim event_id now = query_by_id event_id (\<lambda>w.
     map_option to_domain
       (find_row (\<lambda>e. ev_id e = event_id \<and> is_due now e \<and> \<not> row_locked (env w) (stmts w) event_id)
          (webhook_event_t (tables w))))"

definition load_for_update :: "int \<Rightarrow> stored_event option prog" where
  "load_for_update event_id = query_by_id event_id (\<lambda>w.
     map_option to_domain (find_row (\<lambda>e. ev_id e = event_id) (webhook_event_t (tables w))))"

definition attempts_of :: "int \<Rightarrow> tables \<Rightarrow> processing_attempt list" where
  "attempts_of event_id t = filter (\<lambda>a. pa_event_id a = event_id) (processing_attempt_t t)"

definition next_attempt_number :: "int \<Rightarrow> int prog" where
  "next_attempt_number event_id =
     bind_tx (query_by_id event_id (\<lambda>w. max_col pa_attempt_number (attempts_of event_id (tables w)))) (\<lambda>highest.
       return_tx ((case highest of None \<Rightarrow> 0 | Some h \<Rightarrow> h) + 1))"

definition update_event :: "int \<Rightarrow> (webhook_event \<Rightarrow> webhook_event) \<Rightarrow> tables \<Rightarrow> tables" where
  "update_event event_id f t =
     t\<lparr>webhook_event_t := update_where (\<lambda>e. ev_id e = event_id) f (webhook_event_t t)\<rparr>"

definition requeue :: "int \<Rightarrow> datetime \<Rightarrow> unit prog" where
  "requeue event_id now = modify (\<lambda>w.
     if \<not> int8_ok event_id then Inl (db_error w ''22000'')
     else Inr (update_event event_id (\<lambda>e. e\<lparr>ev_status := PENDING, ev_attempt_count := 0,
                  ev_next_attempt_at := now, ev_last_error := None, ev_processed_at := None\<rparr>) (tables w)))"

text \<open>\<open>int((finished_at - started_at).total_seconds() * 1000)\<close>.\<close>

definition duration_ms :: "datetime \<Rightarrow> datetime \<Rightarrow> int" where
  "duration_ms started_at finished_at = py_trunc (fmul (total_seconds (finished_at - started_at)) 1000)"

definition record_attempt ::
  "int \<Rightarrow> int \<Rightarrow> datetime \<Rightarrow> datetime \<Rightarrow> attempt_outcome \<Rightarrow> py_str option \<Rightarrow> py_str option \<Rightarrow> unit prog" where
  "record_attempt event_id attempt_number started_at finished_at outcome error_class error_detail = stmt (\<lambda>w.
     let d = duration_ms started_at finished_at; n = sq_attempt (seqs w);
         row = \<lparr>pa_id = n, pa_event_id = event_id, pa_attempt_number = attempt_number,
                pa_started_at = started_at, pa_finished_at = Some finished_at, pa_outcome = Some outcome,
                pa_error_class = error_class, pa_error_detail = error_detail, pa_duration_ms = Some d\<rparr>;
         w' = w\<lparr>seqs := (seqs w)\<lparr>sq_attempt := n + 1\<rparr>\<rparr>
     in if \<not> (int8_ok event_id \<and> int4_ok attempt_number \<and> int4_ok d) then (Inl (db_error w ''22000''), w)
        else if \<not> (text_opt_ok error_class \<and> text_opt_ok error_detail) then (Inl (db_error w ''22021''), w)
        else if attempt_number < 1 then (Inl (integrity_error w ''23514''), w')
        else if pa_key row \<in> pa_key ` set (processing_attempt_t (tables w)) then (Inl (integrity_error w ''23505''), w')
        else if event_id \<notin> event_ids (tables w) then (Inl (integrity_error w ''23503''), w')
        else (Inr (), w'\<lparr>tables := (tables w)\<lparr>processing_attempt_t := processing_attempt_t (tables w) @ [row]\<rparr>\<rparr>))"

definition mark_succeeded :: "int \<Rightarrow> int \<Rightarrow> datetime \<Rightarrow> unit prog" where
  "mark_succeeded event_id attempts_used now = modify (\<lambda>w.
     if \<not> (int8_ok event_id \<and> int4_ok attempts_used) then Inl (db_error w ''22000'')
     else if attempts_used < 0 \<and> event_id \<in> event_ids (tables w) then Inl (integrity_error w ''23514'')
     else Inr (update_event event_id (\<lambda>e. e\<lparr>ev_status := SUCCEEDED, ev_attempt_count := attempts_used,
                  ev_processed_at := Some now, ev_last_error := None\<rparr>) (tables w)))"

definition reschedule :: "int \<Rightarrow> int \<Rightarrow> datetime \<Rightarrow> py_str \<Rightarrow> unit prog" where
  "reschedule event_id attempts_used next_attempt_at last_error = modify (\<lambda>w.
     if \<not> (int8_ok event_id \<and> int4_ok attempts_used) then Inl (db_error w ''22000'')
     else if \<not> text_ok last_error then Inl (db_error w ''22021'')
     else if attempts_used < 0 \<and> event_id \<in> event_ids (tables w) then Inl (integrity_error w ''23514'')
     else Inr (update_event event_id (\<lambda>e. e\<lparr>ev_status := PENDING, ev_attempt_count := attempts_used,
                  ev_next_attempt_at := next_attempt_at, ev_last_error := Some last_error\<rparr>) (tables w)))"

definition latest_attempt_id :: "int \<Rightarrow> int option prog" where
  "latest_attempt_id event_id = query_by_id event_id (\<lambda>w. max_col pa_id (attempts_of event_id (tables w)))"

definition record_replay_request ::
  "int \<Rightarrow> py_str \<Rightarrow> py_str option \<Rightarrow> replay_outcome \<Rightarrow> datetime \<Rightarrow> int option \<Rightarrow> unit prog" where
  "record_replay_request event_id requested_by reason outcome requested_at resulting_attempt_id = stmt (\<lambda>w.
     let n = sq_replay (seqs w);
         row = \<lparr>rr_id = n, rr_event_id = event_id, rr_requested_by = requested_by, rr_requested_at = requested_at,
                rr_reason = reason, rr_outcome = Some outcome, rr_resulting_attempt_id = resulting_attempt_id\<rparr>;
         w' = w\<lparr>seqs := (seqs w)\<lparr>sq_replay := n + 1\<rparr>\<rparr>
     in if \<not> int8_ok event_id then (Inl (db_error w ''22000''), w)
        else if \<not> (text_ok requested_by \<and> text_opt_ok reason) then (Inl (db_error w ''22021''), w)
        else if event_id \<notin> event_ids (tables w)
             \<or> (case resulting_attempt_id of None \<Rightarrow> False | Some i \<Rightarrow> i \<notin> pa_id ` set (processing_attempt_t (tables w)))
        then (Inl (integrity_error w ''23503''), w')
        else (Inr (), w'\<lparr>tables := (tables w)\<lparr>replay_request_t := replay_request_t (tables w) @ [row]\<rparr>\<rparr>))"

definition dead_lettered_event_ids :: "int \<Rightarrow> dlq_status \<Rightarrow> int list prog" where
  "dead_lettered_event_ids limit status = query (\<lambda>w.
     map dl_event_id (order_by_limit dl_dead_lettered_at (nat limit)
       (scan_dlq (env w) (stmts w) (filter (\<lambda>d. dl_status d = status) (dead_letter_entry_t (tables w))))))"

definition event_ids_in_range :: "datetime \<Rightarrow> datetime \<Rightarrow> int \<Rightarrow> int list prog" where
  "event_ids_in_range since until limit = query (\<lambda>w.
     map ev_id (order_by_limit ev_received_at (nat limit)
       (scan_events (env w) (stmts w)
         (filter (\<lambda>e. since \<le> ev_received_at e \<and> ev_received_at e < until) (webhook_event_t (tables w))))))"

definition insert_dead_letter :: "int \<Rightarrow> py_str \<Rightarrow> int \<Rightarrow> unit prog" where
  "insert_dead_letter event_id reason attempts_made = stmt (\<lambda>w.
     let n = sq_dlq (seqs w);
         (r, rows) = on_conflict_do_nothing dl_event_id
           (new_dead_letter_entry (tx_now w) (event_id, reason, attempts_made)) n (dead_letter_entry_t (tables w));
         w' = w\<lparr>seqs := (seqs w)\<lparr>sq_dlq := n + 1\<rparr>\<rparr>
     in if \<not> (int8_ok event_id \<and> int4_ok attempts_made) then (Inl (db_error w ''22000''), w)
        else if \<not> text_ok reason then (Inl (db_error w ''22021''), w)
        else if attempts_made < 0 then (Inl (integrity_error w ''23514''), w')
        else if r \<noteq> None \<and> event_id \<notin> event_ids (tables w) then (Inl (integrity_error w ''23503''), w')
        else (Inr (), w'\<lparr>tables := (tables w)\<lparr>dead_letter_entry_t := rows\<rparr>\<rparr>))"

definition dead_letter :: "int \<Rightarrow> int \<Rightarrow> py_str \<Rightarrow> unit prog" where
  "dead_letter event_id attempts_made reason =
     bind_tx (modify (\<lambda>w.
       if \<not> (int8_ok event_id \<and> int4_ok attempts_made) then Inl (db_error w ''22000'')
       else if \<not> text_ok reason then Inl (db_error w ''22021'')
       else if attempts_made < 0 \<and> event_id \<in> event_ids (tables w) then Inl (integrity_error w ''23514'')
       else Inr (update_event event_id (\<lambda>e. e\<lparr>ev_status := DEAD_LETTERED, ev_attempt_count := attempts_made,
                    ev_last_error := Some reason\<rparr>) (tables w)))) (\<lambda>_.
     insert_dead_letter event_id reason attempts_made)"

section \<open>Running the statements\<close>

lemma query_by_id_ok [tx_simps]:
  "query_by_id i f w = (Inr a, w') \<longleftrightarrow>
     faults (env w) (stmts w) = None \<and> int8_ok i \<and> a = f (tick_stmt w) \<and> w' = tick_stmt w"
  by (auto simp: query_by_id_def stmt_ok split: if_splits)

lemma frame_query_by_id [frame_intros]: "frame (query_by_id i f)"
  unfolding query_by_id_def by (rule frame_stmt) auto

lemma frame_queue_writes [frame_intros]:
  "frame (record_attempt e n s f out c d)"
  "frame (record_replay_request e b r o1 a i)"
  "frame (insert_dead_letter e why n)"
  unfolding record_attempt_def record_replay_request_def insert_dead_letter_def
  by (rule frame_stmt; auto simp: Let_def seqs_le_def split: prod.splits)+

lemma frame_queue [frame_intros]:
  "frame (due_event_ids now limit)" "frame (claim e now)" "frame (load_for_update e)"
  "frame (next_attempt_number e)" "frame (requeue e now)" "frame (mark_succeeded e n now)"
  "frame (reschedule e n t er)" "frame (latest_attempt_id e)" "frame (dead_lettered_event_ids limit st)"
  "frame (event_ids_in_range a b limit)" "frame (dead_letter e n why)"
  unfolding due_event_ids_def claim_def load_for_update_def next_attempt_number_def requeue_def
    mark_succeeded_def reschedule_def latest_attempt_id_def dead_lettered_event_ids_def event_ids_in_range_def
    dead_letter_def
  by (intro frame_intros)+

lemma event_ids_update [simp]: "(\<And>e. ev_id (f e) = ev_id e) \<Longrightarrow> event_ids (update_event i f t) = event_ids t"
  unfolding event_ids_def update_event_def set_map [symmetric] by (simp add: map_update_where del: set_map)

lemma update_event_tables [simp]:
  "processing_attempt_t (update_event i f t) = processing_attempt_t t"
  "dead_letter_entry_t (update_event i f t) = dead_letter_entry_t t"
  "replay_request_t (update_event i f t) = replay_request_t t"
  "account_t (update_event i f t) = account_t t"
  "ledger_entry_t (update_event i f t) = ledger_entry_t t"
  "attempt_links (update_event i f t) = attempt_links t"
  by (simp_all add: update_event_def)

text \<open>An update that moves no event into the dead-letter state keeps everything.\<close>

lemma db_inv_update_event:
  assumes inv: "db_inv t s"
    and f: "\<And>e. ev_id (f e) = ev_id e" "\<And>e. ev_key (f e) = ev_key e"
      "\<And>e. e \<in> set (webhook_event_t t) \<Longrightarrow> ev_id e = i \<Longrightarrow> 0 \<le> ev_attempt_count (f e)"
    and cover: "\<And>e. ev_status (f e) = DEAD_LETTERED \<Longrightarrow> i \<in> dl_event_id ` set (dead_letter_entry_t t)"
  shows "db_inv (update_event i f t) s"
proof -
  have "keys_ok (update_event i f t) s"
    using inv f(1,2) by (simp add: db_inv_def keys_ok_def) (simp add: update_event_def table_ok_update)
  moreover have "refs_ok (update_event i f t)"
    using inv f(1) by (simp add: db_inv_def refs_ok_def account_ids_def)
  moreover have "checks_ok (update_event i f t)"
    using inv f(3) by (auto simp: db_inv_def checks_ok_def update_event_def set_update_where)
  moreover have "reconciled (update_event i f t)"
    using inv by (simp add: db_inv_def reconciled_def ledger_sum_def)
  moreover have "dlq_covers (update_event i f t)"
    using inv f(1) cover by (auto simp: db_inv_def dlq_covers_def update_event_def set_update_where image_iff; metis)
  ultimately show ?thesis using inv by (simp add: db_inv_def)
qed

section \<open>The invariant across the statements\<close>

context tx_invariant
begin

lemma ok_by_id: "ok_keeps I (query_by_id i f)"
  by (auto simp: ok_keeps_def tx_simps)

lemma ok_write:
  assumes "\<And>w t. I (tables w) (seqs w) \<Longrightarrow> g w = Inr t \<Longrightarrow> I t (seqs w)"
  shows "ok_keeps I (modify g)"
  unfolding ok_keeps_def
proof (intro allI impI)
  fix w u w'
  assume I: "I (tables w) (seqs w)" and run: "modify g w = (Inr u, w')"
  from run obtain t where "g (tick_stmt w) = Inr t" "w' = (tick_stmt w)\<lparr>tables := t\<rparr>" by (auto simp: tx_simps)
  with assms [of "tick_stmt w" t] I show "I (tables w') (seqs w')" by simp
qed

lemma ok_reads:
  "ok_keeps I (due_event_ids now limit)" "ok_keeps I (claim e now)" "ok_keeps I (load_for_update e)"
  "ok_keeps I (next_attempt_number e)" "ok_keeps I (latest_attempt_id e)"
  "ok_keeps I (dead_lettered_event_ids limit st)" "ok_keeps I (event_ids_in_range a b limit)"
  unfolding due_event_ids_def claim_def load_for_update_def next_attempt_number_def latest_attempt_id_def
    dead_lettered_event_ids_def event_ids_in_range_def
  by (intro ok_bind ok_simple ok_by_id)+

end

lemmas ok_modify = inv.ok_write
lemmas ok_query_by_id = inv.ok_by_id

lemma ok_requeue: "ok_keeps db_inv (requeue e now)"
  unfolding requeue_def
  by (rule ok_modify) (auto split: if_splits intro!: db_inv_update_event simp: ev_key_def)

lemma ok_mark_succeeded: "ok_keeps db_inv (mark_succeeded e n now)"
  unfolding mark_succeeded_def
  by (rule ok_modify) (auto split: if_splits intro!: db_inv_update_event simp: ev_key_def event_ids_def)

lemma ok_reschedule: "ok_keeps db_inv (reschedule e n t er)"
  unfolding reschedule_def
  by (rule ok_modify) (auto split: if_splits intro!: db_inv_update_event simp: ev_key_def event_ids_def)

text \<open>A recorded attempt is one new row with a fresh number.\<close>

definition attempt_row ::
  "int \<Rightarrow> int \<Rightarrow> int \<Rightarrow> datetime \<Rightarrow> datetime \<Rightarrow> attempt_outcome \<Rightarrow> py_str option \<Rightarrow> py_str option \<Rightarrow> processing_attempt" where
  "attempt_row n event_id attempt_number started_at finished_at outcome error_class error_detail =
     \<lparr>pa_id = n, pa_event_id = event_id, pa_attempt_number = attempt_number,
      pa_started_at = started_at, pa_finished_at = Some finished_at, pa_outcome = Some outcome,
      pa_error_class = error_class, pa_error_detail = error_detail,
      pa_duration_ms = Some (duration_ms started_at finished_at)\<rparr>"

lemma record_attempt_ok:
  assumes "record_attempt e n s f out c d w = (Inr u, w')"
  shows "w' = (tick_stmt w)\<lparr>seqs := (seqs w)\<lparr>sq_attempt := sq_attempt (seqs w) + 1\<rparr>,
      tables := (tables w)\<lparr>processing_attempt_t := processing_attempt_t (tables w) @ [attempt_row (sq_attempt (seqs w)) e n s f out c d]\<rparr>\<rparr>"
    and "1 \<le> n" "e \<in> event_ids (tables w)" "(e, n) \<notin> pa_key ` set (processing_attempt_t (tables w))"
  using assms by (auto simp: record_attempt_def tx_simps Let_def attempt_row_def pa_key_def split: if_splits)

lemma ok_record_attempt: "ok_keeps db_inv (record_attempt e n s f out c d)"
  unfolding ok_keeps_def
proof (intro allI impI)
  fix w u w'
  assume I: "db_inv (tables w) (seqs w)" and run: "record_attempt e n s f out c d w = (Inr u, w')"
  note r = record_attempt_ok [OF run]
  have "table_ok pa_id pa_key (sq_attempt (seqs w) + 1) (processing_attempt_t (tables w'))"
    using I r(1,4) by (auto simp: db_inv_def keys_ok_def seqs_ok_def table_ok_def attempt_row_def pa_key_def)
  then show "db_inv (tables w') (seqs w')"
    using I r(1,2,3) by (auto simp: db_inv_defs attempt_row_def)
qed

lemma record_replay_request_ok:
  assumes "record_replay_request e b r out t i w = (Inr u, w')"
  shows "w' = (tick_stmt w)\<lparr>seqs := (seqs w)\<lparr>sq_replay := sq_replay (seqs w) + 1\<rparr>,
      tables := (tables w)\<lparr>replay_request_t := replay_request_t (tables w) @
        [\<lparr>rr_id = sq_replay (seqs w), rr_event_id = e, rr_requested_by = b, rr_requested_at = t,
          rr_reason = r, rr_outcome = Some out, rr_resulting_attempt_id = i\<rparr>]\<rparr>\<rparr>"
    and "e \<in> event_ids (tables w)" and "i = Some n \<Longrightarrow> n \<in> pa_id ` set (processing_attempt_t (tables w))"
  using assms by (auto simp: record_replay_request_def tx_simps Let_def split: if_splits option.splits)

lemma ok_record_replay_request: "ok_keeps db_inv (record_replay_request e b r out t i)"
  unfolding ok_keeps_def
proof (intro allI impI)
  fix w u w'
  assume I: "db_inv (tables w) (seqs w)" and run: "record_replay_request e b r out t i w = (Inr u, w')"
  note r = record_replay_request_ok [OF run]
  have "table_ok rr_id rr_id (sq_replay (seqs w) + 1) (replay_request_t (tables w'))"
    using I r(1) by (auto simp: db_inv_def keys_ok_def seqs_ok_def table_ok_def)
  then show "db_inv (tables w') (seqs w')"
    using I r by (auto simp: db_inv_defs)
qed

text \<open>The entry, then the status: seen as a whole, a dead-lettered event always has its entry.\<close>

lemma insert_dead_letter_ok:
  assumes "insert_dead_letter e why n w = (Inr u, w')"
  shows "w' = (tick_stmt w)\<lparr>seqs := (seqs w)\<lparr>sq_dlq := sq_dlq (seqs w) + 1\<rparr>,
      tables := (tables w)\<lparr>dead_letter_entry_t := snd (on_conflict_do_nothing dl_event_id
           (new_dead_letter_entry (tx_now w) (e, why, n)) (sq_dlq (seqs w)) (dead_letter_entry_t (tables w)))\<rparr>\<rparr>"
    and "0 \<le> n" "e \<in> event_ids (tables w) \<or> e \<in> dl_event_id ` set (dead_letter_entry_t (tables w))"
  using assms
  by (auto simp: insert_dead_letter_def tx_simps Let_def on_conflict_do_nothing_def new_dead_letter_entry_def
      split: if_splits prod.splits)

definition with_dead_letter :: "datetime \<Rightarrow> int \<Rightarrow> py_str \<Rightarrow> int \<Rightarrow> int \<Rightarrow> tables \<Rightarrow> tables" where
  "with_dead_letter now e why n i t = t\<lparr>dead_letter_entry_t :=
     snd (on_conflict_do_nothing dl_event_id (new_dead_letter_entry now (e, why, n)) i (dead_letter_entry_t t))\<rparr>"

lemma with_dead_letter_tables [simp]:
  "webhook_event_t (with_dead_letter now e why n i t) = webhook_event_t t"
  "processing_attempt_t (with_dead_letter now e why n i t) = processing_attempt_t t"
  "replay_request_t (with_dead_letter now e why n i t) = replay_request_t t"
  "account_t (with_dead_letter now e why n i t) = account_t t"
  "ledger_entry_t (with_dead_letter now e why n i t) = ledger_entry_t t"
  "attempt_links (with_dead_letter now e why n i t) = attempt_links t"
  by (simp_all add: with_dead_letter_def)

lemma with_dead_letter_entries:
  "set (dead_letter_entry_t t) \<subseteq> set (dead_letter_entry_t (with_dead_letter now e why n i t))"
  "d \<in> set (dead_letter_entry_t (with_dead_letter now e why n i t)) \<Longrightarrow>
     d \<in> set (dead_letter_entry_t t) \<or> d = new_dead_letter_entry now (e, why, n) i"
  "e \<in> dl_event_id ` set (dead_letter_entry_t (with_dead_letter now e why n i t))"
  by (auto simp: with_dead_letter_def on_conflict_do_nothing_def new_dead_letter_entry_def split: if_splits)

lemma db_inv_with_dead_letter:
  assumes I: "db_inv t s" and n: "0 \<le> n" and e: "e \<in> event_ids t"
  shows "db_inv (with_dead_letter now e why n (sq_dlq s) t) (s\<lparr>sq_dlq := sq_dlq s + 1\<rparr>)"
proof -
  let ?t = "with_dead_letter now e why n (sq_dlq s) t"
  have "table_ok dl_id dl_event_id (sq_dlq s + 1) (dead_letter_entry_t ?t)"
    using I by (simp add: with_dead_letter_def db_inv_def keys_ok_def seqs_ok_def dlq_table.insert_ok)
  moreover have "dl_event_id d \<in> event_ids t \<and> 0 \<le> dl_attempts_made d" if "d \<in> set (dead_letter_entry_t ?t)" for d
  proof -
    have "d \<in> set (dead_letter_entry_t t) \<or> d = new_dead_letter_entry now (e, why, n) (sq_dlq s)"
      using with_dead_letter_entries(2) [OF that] .
    then show ?thesis
    proof
      assume "d \<in> set (dead_letter_entry_t t)"
      moreover have "dl_event_id ` set (dead_letter_entry_t t) \<subseteq> event_ids t" "\<forall>d\<in>set (dead_letter_entry_t t). 0 \<le> dl_attempts_made d"
        using I by (simp_all add: db_inv_def refs_ok_def checks_ok_def)
      ultimately show ?thesis by blast
    qed (simp add: new_dead_letter_entry_def e n)
  qed
  moreover have "dlq_covers ?t"
    using I with_dead_letter_entries(1) [of t now e why n "sq_dlq s"] by (simp add: db_inv_def dlq_covers_def) blast
  ultimately show ?thesis using I
    by (simp add: db_inv_def keys_ok_def seqs_ok_def refs_ok_def checks_ok_def reconciled_def ledger_sum_def
        event_ids_def account_ids_def image_subset_iff)
qed

definition dead_lettered :: "int \<Rightarrow> py_str \<Rightarrow> webhook_event \<Rightarrow> webhook_event" where
  "dead_lettered n why e = e\<lparr>ev_status := DEAD_LETTERED, ev_attempt_count := n, ev_last_error := Some why\<rparr>"

lemma dead_letter_ok:
  assumes "dead_letter e n why w = (Inr u, w')"
  shows "tables w' = update_event e (dead_lettered n why) (with_dead_letter (tx_now w) e why n (sq_dlq (seqs w)) (tables w))"
    and "seqs w' = (seqs w)\<lparr>sq_dlq := sq_dlq (seqs w) + 1\<rparr>" "0 \<le> n"
    and "e \<in> event_ids (tables w) \<or> e \<in> dl_event_id ` set (dead_letter_entry_t (tables w))"
proof -
  from assms obtain w1 where 1: "tables w1 = update_event e (dead_lettered n why) (tables w)"
      "seqs w1 = seqs w" "tx_now w1 = tx_now w" and 2: "insert_dead_letter e why n w1 = (Inr u, w')"
    using that [of "(tick_stmt w)\<lparr>tables := update_event e (dead_lettered n why) (tables w)\<rparr>"]
    by (auto simp: dead_letter_def tx_simps dead_lettered_def [abs_def] split: if_splits)
  note r = insert_dead_letter_ok [OF 2]
  show "tables w' = update_event e (dead_lettered n why) (with_dead_letter (tx_now w) e why n (sq_dlq (seqs w)) (tables w))"
    "seqs w' = (seqs w)\<lparr>sq_dlq := sq_dlq (seqs w) + 1\<rparr>" "0 \<le> n"
    using r(1,2) 1 by (simp_all add: update_event_def with_dead_letter_def)
  show "e \<in> event_ids (tables w) \<or> e \<in> dl_event_id ` set (dead_letter_entry_t (tables w))"
    using r(3) by (simp add: 1 dead_lettered_def)
qed

lemma ok_dead_letter: "ok_keeps db_inv (dead_letter e n why)"
  unfolding ok_keeps_def
proof (intro allI impI)
  fix w u w'
  assume I: "db_inv (tables w) (seqs w)" and run: "dead_letter e n why w = (Inr u, w')"
  note r = dead_letter_ok [OF run]
  have "e \<in> event_ids (tables w)" using I r(4) by (auto simp: db_inv_def refs_ok_def)
  note J = db_inv_with_dead_letter [OF I r(3) this, of "tx_now w" why]
  show "db_inv (tables w') (seqs w')" unfolding r(1,2)
    by (rule db_inv_update_event [OF J])
       (simp_all add: dead_lettered_def ev_key_def r(3) with_dead_letter_entries(3))
qed

lemmas ok_queue =
  ok_query_by_id ok_requeue ok_mark_succeeded ok_reschedule ok_record_attempt ok_record_replay_request ok_dead_letter

lemmas ok_queue_reads = inv.ok_reads

section \<open>What the reads return\<close>

text \<open>The poll returns due events only, no event twice, the most overdue first, and fills the batch.\<close>

lemma due_event_ids_ok:
  assumes run: "due_event_ids now limit w = (Inr ids, w')"
    and scan: "\<And>k rows. mset (scan_events (env w) k rows) = mset rows"
    and inv: "db_inv (tables w) (seqs w)"
  obtains batch where "ids = map ev_id batch" "distinct ids" "sorted (map ev_next_attempt_at batch)"
    "set batch \<subseteq> {e \<in> set (webhook_event_t (tables w)). is_due now e}"
    "length ids = min (nat limit) (length (filter (is_due now) (webhook_event_t (tables w))))"
    "\<And>e d. e \<in> set (webhook_event_t (tables w)) \<Longrightarrow> is_due now e \<Longrightarrow> e \<notin> set batch \<Longrightarrow> d \<in> set batch \<Longrightarrow>
       ev_next_attempt_at d \<le> ev_next_attempt_at e"
proof -
  let ?due = "filter (is_due now) (webhook_event_t (tables w))"
  let ?scan = "scan_events (env w) (Suc (stmts w)) ?due"
  let ?batch = "order_by_limit ev_next_attempt_at (nat limit) ?scan"
  have m: "mset ?scan = mset ?due" by (rule scan)
  then have s: "set ?scan = set ?due" "length ?scan = length ?due" by (metis mset_eq_setD, metis mset_eq_length)
  have "distinct (map ev_id ?due)"
    using inv by (auto simp: db_inv_def keys_ok_def table_ok_def distinct_map intro: inj_on_subset)
  then have "distinct (map ev_id ?scan)" using m by (metis mset_map mset_eq_imp_distinct_iff)
  then have "distinct (map ev_id (sort_key ev_next_attempt_at ?scan))"
    by (metis mset_map mset_sort mset_eq_imp_distinct_iff)
  then have dist: "distinct (map ev_id ?batch)" by (simp add: order_by_limit_def take_map [symmetric] distinct_take)
  show ?thesis
  proof
    show "ids = map ev_id ?batch" using run by (simp add: due_event_ids_def tx_simps)
    then show "distinct ids" "length ids = min (nat limit) (length ?due)"
      using dist s(2) by (simp_all add: order_by_limit_length min.commute)
    show "sorted (map ev_next_attempt_at ?batch)" by (rule order_by_limit_sorted)
    show "set ?batch \<subseteq> {e \<in> set (webhook_event_t (tables w)). is_due now e}"
      using order_by_limit_subset [of ev_next_attempt_at "nat limit" ?scan] s(1) by auto
    show "ev_next_attempt_at d \<le> ev_next_attempt_at e"
      if "e \<in> set (webhook_event_t (tables w))" "is_due now e" "e \<notin> set ?batch" "d \<in> set ?batch" for e d
      using order_by_limit_least [OF _ that(3,4)] that(1,2) s(1) by simp
  qed
qed

text \<open>The next attempt number is larger than every recorded one.\<close>

lemma next_attempt_number_ok:
  assumes "next_attempt_number e w = (Inr n, w')"
  shows "w' = tick_stmt w" "\<forall>a \<in> set (attempts_of e (tables w)). pa_attempt_number a < n"
    and "n = (case max_col pa_attempt_number (attempts_of e (tables w)) of None \<Rightarrow> 0 | Some h \<Rightarrow> h) + 1"
proof -
  show "w' = tick_stmt w" and n: "n = (case max_col pa_attempt_number (attempts_of e (tables w)) of None \<Rightarrow> 0 | Some h \<Rightarrow> h) + 1"
    using assms by (auto simp: next_attempt_number_def tx_simps)
  show "\<forall>a \<in> set (attempts_of e (tables w)). pa_attempt_number a < n"
    by (cases "max_col pa_attempt_number (attempts_of e (tables w))")
       (auto simp: n dest: max_col_upper)
qed

end
