(* ===== verification/Dlq_Machine.thy ===== *)
theory Dlq_Machine
  imports Domain "HOL-Library.List_Lexorder" "HOL-Library.Char_ord"
begin

text \<open>
  The dead-letter queue as a state machine (\<open>domain/dlq.py\<close>): the table of legal moves, the
  terminal states and \<open>ensure_transition\<close>, with the moves it allows as a step relation.
\<close>

fun ALLOWED :: "dlq_status \<Rightarrow> dlq_status list" where
  "ALLOWED NEEDS_REVIEW = [REPLAYING, RESOLVED, DISCARDED]"
| "ALLOWED REPLAYING = [RESOLVED, NEEDS_REVIEW, DISCARDED]"
| "ALLOWED RESOLVED = []"
| "ALLOWED DISCARDED = []"

definition TERMINAL :: "dlq_status list" where
  "TERMINAL = [RESOLVED, DISCARDED]"

fun join_comma :: "py_str list \<Rightarrow> py_str" where
  "join_comma [] = []"
| "join_comma [s] = s"
| "join_comma (s # ss) = s @ '', '' @ join_comma ss"

definition ensure_transition :: "dlq_status \<Rightarrow> dlq_status \<Rightarrow> exc + unit" where
  "ensure_transition current target =
     (if target \<notin> set (ALLOWED current) then
        let names = join_comma (sort (map dlq_status_value (ALLOWED current)));
            allowed = (if names = [] then ''nothing'' else names);
            was_terminal = (if current \<in> set TERMINAL then '' (it is terminal)'' else [])
        in Inl (InvalidDlqTransitionError
             (''cannot move a dead-letter entry from '' @ py_repr (dlq_status_value current)
              @ '' to '' @ py_repr (dlq_status_value target) @ was_terminal
              @ ''; from '' @ py_repr (dlq_status_value current)
              @ '' the legal moves are: '' @ allowed))
      else Inr ())"

inductive dlq_move :: "dlq_status \<Rightarrow> dlq_status \<Rightarrow> bool" where
  move: "ensure_transition s t = Inr () \<Longrightarrow> dlq_move s t"

inductive_cases dlq_moveE: "dlq_move s t"

inductive_simps dlq_move_iff: "dlq_move s t"

text \<open>A run of moves.\<close>

inductive dlq_moves :: "dlq_status \<Rightarrow> dlq_status \<Rightarrow> bool" where
  stay: "dlq_moves s s"
| go: "dlq_moves s t \<Longrightarrow> dlq_move t u \<Longrightarrow> dlq_moves s u"

lemma ensure_transition_ok:
  "ensure_transition s t = Inr () \<longleftrightarrow> t \<in> set (ALLOWED s)"
  by (simp add: ensure_transition_def Let_def)

lemma ensure_transition_cases:
  "ensure_transition s t = Inr () \<or> (\<exists>m. ensure_transition s t = Inl (InvalidDlqTransitionError m))"
  by (simp add: ensure_transition_def Let_def)

lemma terminal_no_move: "s \<in> set TERMINAL \<Longrightarrow> \<not> dlq_move s t"
  by (cases s) (auto simp: TERMINAL_def dlq_move_iff ensure_transition_ok)

lemma moves_from_terminal: "dlq_moves s t \<Longrightarrow> s \<in> set TERMINAL \<Longrightarrow> t = s"
  by (induction rule: dlq_moves.induct) (auto dest: terminal_no_move)

lemma open_moves_to_terminal: "s \<notin> set TERMINAL \<Longrightarrow> t \<in> set TERMINAL \<Longrightarrow> dlq_move s t"
  by (cases s; cases t) (auto simp: TERMINAL_def dlq_move_iff ensure_transition_ok)

end
