(* ===== verification/Dlq_Adapter.thy ===== *)
theory Dlq_Adapter
  imports Queue Dlq_Machine
begin

text \<open>
  Reading and triaging the dead-letter queue (\<open>adapters/dlq.py\<close>): the join of an entry with its
  event, the listing, and the guarded transition. The database's own guard on terminal entries
  (\<open>fn_dlq_terminal_is_terminal\<close> of migration 0003) is part of the update.
\<close>

record dlq_record =
  dr_id :: int
  dr_event_id :: int
  dr_source :: py_str
  dr_event_type :: py_str
  dr_entity_type :: py_str
  dr_entity_id :: py_str
  dr_external_id :: py_str
  dr_reason :: py_str
  dr_attempts_made :: int
  dr_dead_lettered_at :: datetime
  dr_status :: dlq_status
  dr_resolved_at :: "datetime option"
  dr_resolution_note :: "py_str option"

definition to_record :: "dead_letter_entry \<Rightarrow> webhook_event \<Rightarrow> dlq_record" where
  "to_record entry event = \<lparr>dr_id = dl_id entry, dr_event_id = dl_event_id entry, dr_source = ev_source event,
     dr_event_type = ev_event_type event, dr_entity_type = ev_entity_type event,
     dr_entity_id = ev_entity_id event, dr_external_id = ev_external_id event, dr_reason = dl_reason entry,
     dr_attempts_made = dl_attempts_made entry, dr_dead_lettered_at = dl_dead_lettered_at entry,
     dr_status = dl_status entry, dr_resolved_at = dl_resolved_at entry,
     dr_resolution_note = dl_resolution_note entry\<rparr>"

text \<open>The inner join of entries with events.\<close>

definition base_query :: "webhook_event list \<Rightarrow> dead_letter_entry list \<Rightarrow> (dead_letter_entry \<times> webhook_event) list" where
  "base_query events entries =
     concat (map (\<lambda>d. map (\<lambda>e. (d, e)) (filter (\<lambda>e. ev_id e = dl_event_id d) events)) entries)"

text \<open>\<open>ORDER BY dead_lettered_at DESC LIMIT .. OFFSET ..\<close>.\<close>

definition list_entries :: "dlq_status option \<Rightarrow> int \<Rightarrow> int \<Rightarrow> dlq_record list prog" where
  "list_entries status limit offset = query (\<lambda>w.
     let entries = filter (\<lambda>d. case status of None \<Rightarrow> True | Some s \<Rightarrow> dl_status d = s)
           (scan_dlq (env w) (stmts w) (dead_letter_entry_t (tables w)));
         rows = sort_key (\<lambda>(d, e). - dl_dead_lettered_at d) (base_query (webhook_event_t (tables w)) entries)
     in map (\<lambda>(d, e). to_record d e) (take (nat limit) (drop (nat offset) rows)))"

text \<open>\<open>one_or_none\<close> on a primary key or a unique column: the joined row, if any.\<close>

definition get_entry :: "int \<Rightarrow> dlq_record option prog" where
  "get_entry entry_id = query_by_id entry_id (\<lambda>w.
     case base_query (webhook_event_t (tables w)) (filter (\<lambda>d. dl_id d = entry_id) (dead_letter_entry_t (tables w))) of
       [] \<Rightarrow> None | (d, e) # _ \<Rightarrow> Some (to_record d e))"

definition entry_for_event :: "int \<Rightarrow> dlq_record option prog" where
  "entry_for_event event_id = query_by_id event_id (\<lambda>w.
     case base_query (webhook_event_t (tables w)) (filter (\<lambda>d. dl_event_id d = event_id) (dead_letter_entry_t (tables w))) of
       [] \<Rightarrow> None | (d, e) # _ \<Rightarrow> Some (to_record d e))"

text \<open>\<open>fn_dlq_terminal_is_terminal\<close>: a terminal entry may not change its status.\<close>

definition fn_dlq_terminal_is_terminal :: "dead_letter_entry \<Rightarrow> dead_letter_entry \<Rightarrow> bool" where
  "fn_dlq_terminal_is_terminal old new \<longleftrightarrow>
     \<not> (dl_status old \<in> {RESOLVED, DISCARDED} \<and> dl_status new \<noteq> dl_status old)"

definition moved_entry :: "dlq_status \<Rightarrow> datetime \<Rightarrow> py_str option \<Rightarrow> dead_letter_entry \<Rightarrow> dead_letter_entry" where
  "moved_entry target now note d =
     (let d' = d\<lparr>dl_status := target, dl_resolution_note := note\<rparr>
      in if target \<in> set TERMINAL then d'\<lparr>dl_resolved_at := Some now\<rparr> else d')"

definition update_entry :: "int \<Rightarrow> dlq_status \<Rightarrow> datetime \<Rightarrow> py_str option \<Rightarrow> unit prog" where
  "update_entry entry_id target now note = modify (\<lambda>w.
     let hit = (\<lambda>d. dl_id d = entry_id); f = moved_entry target now note; rows = dead_letter_entry_t (tables w)
     in if \<not> int8_ok entry_id then Inl (db_error w ''22000'')
        else if \<not> text_opt_ok note then Inl (db_error w ''22021'')
        else if \<exists>d \<in> set rows. hit d \<and> \<not> fn_dlq_terminal_is_terminal d (f d)
        then Inl (integrity_error w ''23000'')
        else Inr ((tables w)\<lparr>dead_letter_entry_t := update_where hit f rows\<rparr>))"

definition transition :: "int \<Rightarrow> dlq_status \<Rightarrow> datetime \<Rightarrow> py_str option \<Rightarrow> dlq_record prog" where
  "transition entry_id target now note =
     bind_tx (query_by_id entry_id (\<lambda>w. find_row (\<lambda>d. dl_id d = entry_id) (dead_letter_entry_t (tables w)))) (\<lambda>row.
       case row of
         None \<Rightarrow> raise_tx (NoResultFound ''No row was found when one was required'')
       | Some d \<Rightarrow>
           bind_tx (lift_exc (ensure_transition (dl_status d) target)) (\<lambda>_.
           bind_tx (update_entry entry_id target now note) (\<lambda>_.
           bind_tx (get_entry entry_id) (\<lambda>entry.
             case entry of
               None \<Rightarrow> raise_tx (RuntimeError (''dead-letter entry '' @ show_int entry_id @ '' vanished under a row lock''))
             | Some r \<Rightarrow> return_tx r))))"

section \<open>Laws\<close>

lemma frame_dlq [frame_intros]:
  "frame (list_entries st limit offset)" "frame (get_entry i)" "frame (entry_for_event i)"
  "frame (update_entry i target now note)" "frame (transition i target now note)"
  unfolding list_entries_def get_entry_def entry_for_event_def update_entry_def transition_def
  by (auto intro!: frame_intros split: option.splits)

lemma moved_entry_simps [simp]:
  "dl_id (moved_entry target now note d) = dl_id d"
  "dl_event_id (moved_entry target now note d) = dl_event_id d"
  "dl_attempts_made (moved_entry target now note d) = dl_attempts_made d"
  "dl_status (moved_entry target now note d) = target"
  "dl_resolution_note (moved_entry target now note d) = note"
  by (simp_all add: moved_entry_def Let_def)

lemma ok_update_entry: "ok_keeps db_inv (update_entry i target now note)"
  unfolding update_entry_def
proof (rule ok_modify)
  fix w :: world and t
  assume I: "db_inv (tables w) (seqs w)"
  let ?rows = "dead_letter_entry_t (tables w)" and ?f = "moved_entry target now note"
  let ?rows' = "update_where (\<lambda>d. dl_id d = i) ?f ?rows"
  assume "(let hit = (\<lambda>d. dl_id d = i); f = ?f; rows = ?rows
     in if \<not> int8_ok i then Inl (db_error w ''22000'')
        else if \<not> text_opt_ok note then Inl (db_error w ''22021'')
        else if \<exists>d \<in> set rows. hit d \<and> \<not> fn_dlq_terminal_is_terminal d (f d)
        then Inl (integrity_error w ''23000'')
        else Inr ((tables w)\<lparr>dead_letter_entry_t := update_where hit f rows\<rparr>)) = Inr t"
  then have t: "t = (tables w)\<lparr>dead_letter_entry_t := ?rows'\<rparr>" by (auto simp: Let_def split: if_splits)
  have ids: "dl_event_id ` set ?rows' = dl_event_id ` set ?rows"
    unfolding set_map [symmetric] by (simp add: map_update_where del: set_map)
  have "table_ok dl_id dl_event_id (sq_dlq (seqs w)) ?rows'"
    using I by (simp add: table_ok_update db_inv_def keys_ok_def)
  moreover have "\<forall>d \<in> set ?rows'. 0 \<le> dl_attempts_made d"
    using I by (auto simp: set_update_where db_inv_def checks_ok_def)
  moreover have "dlq_covers t"
    using I ids by (simp add: t db_inv_def dlq_covers_iff)
  ultimately show "db_inv t (seqs w)"
    using I ids by (simp add: t db_inv_def keys_ok_def refs_ok_def checks_ok_def reconciled_def ledger_sum_def
        event_ids_def account_ids_def)
qed

lemma ok_transition: "ok_keeps db_inv (transition i target now note)"
  unfolding transition_def get_entry_def
  by (auto intro!: inv.ok_bind inv.ok_simple ok_query_by_id ok_update_entry split: option.splits)

text \<open>A successful transition is a move of the state machine, on exactly the entry named.\<close>

lemma transition_ok:
  assumes "transition i target now note w = (Inr r, w')"
  obtains d where "find_row (\<lambda>d. dl_id d = i) (dead_letter_entry_t (tables w)) = Some d"
    "dlq_move (dl_status d) target"
    "tables w' = (tables w)\<lparr>dead_letter_entry_t :=
        update_where (\<lambda>d. dl_id d = i) (moved_entry target now note) (dead_letter_entry_t (tables w))\<rparr>"
    "seqs w' = seqs w"
  using assms
  by (auto simp: transition_def update_entry_def get_entry_def tx_simps Let_def dlq_move_iff
      split: option.splits if_splits)

text \<open>The database's guard agrees with the application's: it never fires behind \<open>ensure_transition\<close>.\<close>

lemma guard_agrees:
  "ensure_transition (dl_status d) target = Inr () \<Longrightarrow> fn_dlq_terminal_is_terminal d (moved_entry target now note d)"
  by (cases "dl_status d") (auto simp: fn_dlq_terminal_is_terminal_def ensure_transition_ok)

end
