(* ===== verification/Query.thy ===== *)
theory Query
  imports Dlq_Adapter
begin

text \<open>
  The admin read model (\<open>adapters/query.py\<close>): the filtered, newest-first listing of events and one
  event with its attempts. A bound of a time range may arrive without a time zone; the driver refuses to bind
  such an instant.
\<close>

section \<open>Summaries\<close>

record event_summary =
  es_id :: int
  es_source :: py_str
  es_external_id :: py_str
  es_event_type :: py_str
  es_entity_type :: py_str
  es_entity_id :: py_str
  es_status :: webhook_status
  es_attempt_count :: int
  es_occurred_at :: datetime
  es_received_at :: datetime
  es_next_attempt_at :: datetime
  es_processed_at :: "datetime option"
  es_last_error :: "py_str option"

record attempt_record =
  ar_id :: int
  ar_attempt_number :: int
  ar_started_at :: datetime
  ar_finished_at :: "datetime option"
  ar_outcome :: "attempt_outcome option"
  ar_error_class :: "py_str option"
  ar_error_detail :: "py_str option"
  ar_duration_ms :: "int option"

record event_detail =
  ed_event :: event_summary
  ed_attempts :: "attempt_record list"

definition summarise :: "webhook_event \<Rightarrow> event_summary" where
  "summarise row = \<lparr>es_id = ev_id row, es_source = ev_source row, es_external_id = ev_external_id row,
     es_event_type = ev_event_type row, es_entity_type = ev_entity_type row, es_entity_id = ev_entity_id row,
     es_status = ev_status row, es_attempt_count = ev_attempt_count row, es_occurred_at = ev_occurred_at row,
     es_received_at = ev_received_at row, es_next_attempt_at = ev_next_attempt_at row,
     es_processed_at = ev_processed_at row, es_last_error = ev_last_error row\<rparr>"

definition attempt_of_row :: "processing_attempt \<Rightarrow> attempt_record" where
  "attempt_of_row a = \<lparr>ar_id = pa_id a, ar_attempt_number = pa_attempt_number a, ar_started_at = pa_started_at a,
     ar_finished_at = pa_finished_at a, ar_outcome = pa_outcome a, ar_error_class = pa_error_class a,
     ar_error_detail = pa_error_detail a, ar_duration_ms = pa_duration_ms a\<rparr>"

section \<open>Filters\<close>

datatype py_datetime = Aware datetime | Naive datetime

record event_filter =
  fl_status :: "webhook_status option"
  fl_source :: "py_str option"
  fl_event_type :: "py_str option"
  fl_entity_type :: "py_str option"
  fl_entity_id :: "py_str option"
  fl_since :: "py_datetime option"
  fl_until :: "py_datetime option"

definition where_eq :: "'a option \<Rightarrow> 'a \<Rightarrow> bool" where
  "where_eq wanted v = (case wanted of None \<Rightarrow> True | Some x \<Rightarrow> v = x)"

definition where_time :: "(datetime \<Rightarrow> datetime \<Rightarrow> bool) \<Rightarrow> py_datetime option \<Rightarrow> datetime \<Rightarrow> bool" where
  "where_time rel bound v = (case bound of Some (Aware b) \<Rightarrow> rel v b | _ \<Rightarrow> True)"

definition filtered :: "event_filter \<Rightarrow> webhook_event \<Rightarrow> bool" where
  "filtered f e \<longleftrightarrow> where_eq (fl_status f) (ev_status e) \<and> where_eq (fl_source f) (ev_source e)
     \<and> where_eq (fl_event_type f) (ev_event_type e) \<and> where_eq (fl_entity_type f) (ev_entity_type e)
     \<and> where_eq (fl_entity_id f) (ev_entity_id e)
     \<and> where_time (\<lambda>v b. b \<le> v) (fl_since f) (ev_received_at e) \<and> where_time (<) (fl_until f) (ev_received_at e)"

text \<open>What the driver can bind: text without NUL, instants with a time zone, \<open>bigint\<close> limits.\<close>

definition is_naive :: "py_datetime option \<Rightarrow> bool" where
  "is_naive d = (case d of Some (Naive _) \<Rightarrow> True | _ \<Rightarrow> False)"

definition filter_text_ok :: "event_filter \<Rightarrow> bool" where
  "filter_text_ok f \<longleftrightarrow> text_opt_ok (fl_source f) \<and> text_opt_ok (fl_event_type f)
     \<and> text_opt_ok (fl_entity_type f) \<and> text_opt_ok (fl_entity_id f)"

section \<open>Queries\<close>

text \<open>\<open>ORDER BY received_at DESC LIMIT .. OFFSET ..\<close> over a scan in the server's order.\<close>

definition page_of :: "int \<Rightarrow> int \<Rightarrow> webhook_event list \<Rightarrow> webhook_event list" where
  "page_of limit offset rows = take (nat limit) (drop (nat offset) (sort_key (\<lambda>e. - ev_received_at e) rows))"

definition list_events :: "event_filter \<Rightarrow> int \<Rightarrow> int \<Rightarrow> event_summary list prog" where
  "list_events f limit offset = stmt (\<lambda>w.
     if is_naive (fl_since f) \<or> is_naive (fl_until f) \<or> \<not> int8_ok limit \<or> \<not> int8_ok offset
     then (Inl (db_error w ''22000''), w)
     else if \<not> filter_text_ok f then (Inl (db_error w ''22021''), w)
     else (Inr (map summarise (page_of limit offset
             (scan_events (env w) (stmts w) (filter (filtered f) (webhook_event_t (tables w)))))), w))"

definition get_event :: "int \<Rightarrow> event_detail option prog" where
  "get_event event_id =
     bind_tx (query_by_id event_id (\<lambda>w. find_row (\<lambda>e. ev_id e = event_id) (webhook_event_t (tables w)))) (\<lambda>row.
       case row of
         None \<Rightarrow> return_tx None
       | Some r \<Rightarrow>
           bind_tx (query_by_id event_id (\<lambda>w. sort_key pa_attempt_number (attempts_of event_id (tables w)))) (\<lambda>attempts.
           return_tx (Some \<lparr>ed_event = summarise r, ed_attempts = map attempt_of_row attempts\<rparr>)))"

section \<open>Laws\<close>

lemma frame_admin_reads [frame_intros]: "frame (list_events f limit offset)" "frame (get_event i)"
  unfolding list_events_def get_event_def by (auto intro!: frame_intros frame_stmt split: option.splits)

lemma list_events_run:
  assumes "list_events f limit offset w = (Inr rs, w')"
  shows "rs = map summarise (page_of limit offset
      (scan_events (env w) (Suc (stmts w)) (filter (filtered f) (webhook_event_t (tables w)))))"
    and "w' = tick_stmt w"
  using assms by (auto simp: list_events_def tx_simps split: if_splits)

lemma get_event_run:
  assumes "get_event i w = (Inr d, w')"
  shows "d = map_option (\<lambda>r. \<lparr>ed_event = summarise r, ed_attempts = map attempt_of_row (sort_key pa_attempt_number (attempts_of i (tables w)))\<rparr>)
      (find_row (\<lambda>e. ev_id e = i) (webhook_event_t (tables w)))"
    and "tables w' = tables w"
  using assms by (auto simp: get_event_def tx_simps split: option.splits)

lemma page_sorted: "sorted (map (\<lambda>e. - ev_received_at e) (page_of limit offset rows))"
proof -
  have "sorted (map (\<lambda>e. - ev_received_at e) (sort_key (\<lambda>e. - ev_received_at e) rows))" by simp
  from sorted_wrt_take [OF sorted_wrt_drop [OF this, of "nat offset"], of "nat limit"]
  show ?thesis by (simp add: page_of_def take_map drop_map)
qed

lemma page_rows:
  assumes "mset scanned = mset rows"
  shows "distinct (map ev_id rows) \<Longrightarrow> distinct (map ev_id (page_of limit offset scanned))"
    and "length (page_of limit offset scanned) = min (length rows - nat offset) (nat limit)"
    and "set (page_of limit offset scanned) \<subseteq> set rows"
proof -
  let ?s = "sort_key (\<lambda>e. - ev_received_at e) scanned"
  have m: "mset ?s = mset rows" using assms by simp
  show "distinct (map ev_id rows) \<Longrightarrow> distinct (map ev_id (page_of limit offset scanned))"
  proof -
    assume "distinct (map ev_id rows)"
    then have "distinct (map ev_id ?s)"
      using m mset_eq_imp_distinct_iff [of "map ev_id ?s" "map ev_id rows"] by simp
    then show ?thesis unfolding page_of_def take_map [symmetric] drop_map [symmetric]
      by (intro distinct_take distinct_drop)
  qed
  have s: "set ?s = set rows" "length ?s = length rows" using mset_eq_setD [OF m] mset_eq_length [OF m] by simp_all
  show "length (page_of limit offset scanned) = min (length rows - nat offset) (nat limit)"
    using s(2) by (simp add: page_of_def)
  show "set (page_of limit offset scanned) \<subseteq> set rows"
    using set_take_subset [of "nat limit" "drop (nat offset) ?s"] set_drop_subset [of "nat offset" ?s] s(1)
    by (simp only: page_of_def)
qed

text \<open>A row behind the page is not newer than any row on it.\<close>

lemma page_newest:
  assumes "r \<in> set rows" "r \<notin> set (page_of limit 0 rows)" "q \<in> set (page_of limit 0 rows)"
  shows "ev_received_at r \<le> ev_received_at q"
  using order_by_limit_least [of r rows "\<lambda>e. - ev_received_at e" "nat limit" q] assms
  by (simp add: page_of_def order_by_limit_def)

text \<open>Consecutive pages of one ordering are disjoint parts of it, and together they are a longer page.\<close>

lemma pages_append:
  assumes "0 \<le> limit" "0 \<le> offset" "0 \<le> extra"
  shows "page_of limit offset rows @ page_of extra (offset + limit) rows = page_of (limit + extra) offset rows"
proof -
  have "nat (offset + limit) = nat limit + nat offset" "nat (limit + extra) = nat limit + nat extra"
    using assms by simp_all
  then show ?thesis by (simp add: page_of_def take_add)
qed

section \<open>Without payload and headers\<close>

definition blank_event :: "webhook_event \<Rightarrow> webhook_event" where
  "blank_event e = e\<lparr>ev_payload := [], ev_headers := []\<rparr>"

definition blank :: "tables \<Rightarrow> tables" where
  "blank t = t\<lparr>webhook_event_t := map blank_event (webhook_event_t t)\<rparr>"

lemma blank_event_simps [simp]:
  "ev_id (blank_event e) = ev_id e" "ev_received_at (blank_event e) = ev_received_at e"
  "filtered f (blank_event e) = filtered f e" "summarise (blank_event e) = summarise e"
  "to_record d (blank_event e) = to_record d e"
  by (simp_all add: blank_event_def filtered_def summarise_def to_record_def)

lemma blank_tables [simp]:
  "webhook_event_t (blank t) = map blank_event (webhook_event_t t)"
  "processing_attempt_t (blank t) = processing_attempt_t t"
  "dead_letter_entry_t (blank t) = dead_letter_entry_t t"
  by (simp_all add: blank_def)

lemma sort_key_map: "sort_key k (map f xs) = map f (sort_key (k \<circ> f) xs)"
proof -
  have "insort_key k (f x) (map f ys) = map f (insort_key (k \<circ> f) x ys)" for x ys by (induction ys) auto
  then show ?thesis by (induction xs) auto
qed

lemma page_of_blank: "page_of limit offset (map blank_event rows) = map blank_event (page_of limit offset rows)"
  by (simp add: page_of_def sort_key_map comp_def drop_map take_map)

lemma find_row_blank: "find_row (\<lambda>e. ev_id e = i) (map blank_event rows) = map_option blank_event (find_row (\<lambda>e. ev_id e = i) rows)"
  by (induction rows) auto

lemma base_query_blank:
  "base_query (map blank_event events) entries = map (\<lambda>(d, e). (d, blank_event e)) (base_query events entries)"
  by (simp add: base_query_def map_concat comp_def filter_map)

text \<open>A program is \<open>blind\<close> when blanking every payload and header before it runs changes nothing but the stored rows:
  neither its result nor anything else it leaves behind. The server's scan order may not depend on them either.\<close>

abbreviation blank_world :: "world \<Rightarrow> world" where
  "blank_world w \<equiv> w\<lparr>tables := blank (tables w)\<rparr>"

definition content_free_scan :: "env \<Rightarrow> bool" where
  "content_free_scan v \<longleftrightarrow> (\<forall>k rows. scan_events v k (map blank_event rows) = map blank_event (scan_events v k rows))"

definition blind :: "'a prog \<Rightarrow> bool" where
  "blind p \<longleftrightarrow> (\<forall>w. content_free_scan (env w) \<longrightarrow>
     p (blank_world w) = (fst (p w), blank_world (snd (p w))) \<and> env (snd (p w)) = env w)"

lemma blindI:
  "(\<And>w. content_free_scan (env w) \<Longrightarrow> p (blank_world w) = (fst (p w), blank_world (snd (p w))) \<and> env (snd (p w)) = env w) \<Longrightarrow> blind p"
  by (simp add: blind_def)

lemma blindD: "blind p \<Longrightarrow> content_free_scan (env w) \<Longrightarrow> p (blank_world w) = (fst (p w), blank_world (snd (p w)))"
  by (simp add: blind_def)

lemma blind_run: "blind p \<Longrightarrow> content_free_scan (env w) \<Longrightarrow> p w = (r, w') \<Longrightarrow> p (blank_world w) = (r, blank_world w') \<and> env w' = env w"
  unfolding blind_def by (metis fst_conv snd_conv)

named_theorems blind_intros "programs that do not look at payload and headers"

lemma blind_simple [blind_intros]:
  "blind (return_tx a)" "blind (raise_tx e)" "blind (lift_exc r)" "blind clock_now" "blind (inc m)"
  by (auto intro!: blindI simp: return_tx_def raise_tx_def lift_exc_def clock_now_def inc_def)

lemma blind_bind [blind_intros]:
  assumes m: "blind m" and f: "\<And>a. blind (f a)"
  shows "blind (bind_tx m f)"
proof (rule blindI)
  fix w :: world assume c: "content_free_scan (env w)"
  obtain r w1 where r: "m w = (r, w1)" by (cases "m w")
  note b = blind_run [OF m c r]
  show "bind_tx m f (blank_world w) = (fst (bind_tx m f w), blank_world (snd (bind_tx m f w))) \<and> env (snd (bind_tx m f w)) = env w"
  proof (cases r)
    case (Inl e)
    with r b show ?thesis by (simp add: bind_tx_def)
  next
    case (Inr a)
    obtain r2 w2 where r2: "f a w1 = (r2, w2)" by (cases "f a w1")
    have c1: "content_free_scan (env w1)" using b c by simp
    from blind_run [OF f c1 r2] r b r2 Inr show ?thesis by (simp add: bind_tx_def)
  qed
qed

lemma blank_commutes:
  "begin_tx (blank_world w) = blank_world (begin_tx w)" "tick_stmt (blank_world w) = blank_world (tick_stmt w)"
  by (cases w; simp)+

lemma blind_session_scope [blind_intros]:
  assumes m: "blind m"
  shows "blind (session_scope m)"
proof (rule blindI)
  fix w :: world assume c: "content_free_scan (env w)"
  obtain r w1 where r: "m (begin_tx w) = (r, w1)" by (cases "m (begin_tx w)")
  from c have c': "content_free_scan (env (begin_tx w))" by simp
  note b = blind_run [OF m c' r]
  then have "m (begin_tx (blank_world w)) = (r, blank_world w1)" "env w1 = env w"
    unfolding blank_commutes by simp_all
  with r show "session_scope m (blank_world w) = (fst (session_scope m w), blank_world (snd (session_scope m w)))
      \<and> env (snd (session_scope m w)) = env w"
    by (cases r; cases "faults (env w) (stmts w1)") (auto simp: session_scope_def Let_def split: fault.splits)
qed

lemma blind_stmt:
  assumes "\<And>w. content_free_scan (env w) \<Longrightarrow> f (blank_world w) = (fst (f w), blank_world (snd (f w))) \<and> env (snd (f w)) = env w"
  shows "blind (stmt f)"
proof (rule blindI)
  fix w :: world assume "content_free_scan (env w)"
  then have "content_free_scan (env (tick_stmt w))" by simp
  from assms [OF this] have "f (tick_stmt (blank_world w)) = (fst (f (tick_stmt w)), blank_world (snd (f (tick_stmt w))))"
    "env (snd (f (tick_stmt w))) = env w"
    unfolding blank_commutes by simp_all
  then show "stmt f (blank_world w) = (fst (stmt f w), blank_world (snd (stmt f w))) \<and> env (snd (stmt f w)) = env w"
    by (cases "faults (env w) (stmts w)") (auto simp: stmt_def Let_def)
qed

lemma db_error_env [simp]: "db_error (w\<lparr>tables := t\<rparr>) code = db_error w code" "integrity_error (w\<lparr>tables := t\<rparr>) code = integrity_error w code"
  by (simp_all add: db_error_def integrity_error_def)

lemma blind_query:
  assumes "\<And>w. content_free_scan (env w) \<Longrightarrow> f (blank_world w) = f w"
  shows "blind (query f)"
  unfolding query_def by (rule blind_stmt) (simp add: assms)

lemma blind_query_by_id:
  assumes "\<And>w. f (blank_world w) = f w"
  shows "blind (query_by_id i f)"
  unfolding query_by_id_def by (rule blind_stmt) (simp add: assms)

lemma blind_list_events [blind_intros]: "blind (list_events f limit offset)"
  unfolding list_events_def
proof (rule blind_stmt)
  fix w :: world assume "content_free_scan (env w)"
  then have s: "scan_events (env w) k (map blank_event rows) = map blank_event (scan_events (env w) k rows)" for k rows
    by (simp add: content_free_scan_def)
  have m: "map summarise (map blank_event rows) = map summarise rows" for rows by simp
  let ?F = "\<lambda>w. if is_naive (fl_since f) \<or> is_naive (fl_until f) \<or> \<not> int8_ok limit \<or> \<not> int8_ok offset
     then (Inl (db_error w ''22000''), w)
     else if \<not> filter_text_ok f then (Inl (db_error w ''22021''), w)
     else (Inr (map summarise (page_of limit offset
             (scan_events (env w) (stmts w) (filter (filtered f) (webhook_event_t (tables w)))))), w)"
  have "map summarise (page_of limit offset (scan_events (env w) (stmts w) (filter (filtered f) (map blank_event (webhook_event_t (tables w))))))
     = map summarise (page_of limit offset (scan_events (env w) (stmts w) (filter (filtered f) (webhook_event_t (tables w)))))"
    unfolding filter_map comp_def blank_event_simps s page_of_blank m ..
  then show "?F (blank_world w) = (fst (?F w), blank_world (snd (?F w))) \<and> env (snd (?F w)) = env w" by simp
qed

lemma blind_list_entries [blind_intros]: "blind (list_entries st limit offset)"
  unfolding list_entries_def
proof (rule blind_query)
  fix w :: world
  let ?b = "\<lambda>(d, e). (d, blank_event e)" and ?r = "\<lambda>(d, e). to_record d e"
  have key: "sort_key (\<lambda>(d, e). - dl_dead_lettered_at d) (map ?b ps) = map ?b (sort_key (\<lambda>(d, e). - dl_dead_lettered_at d) ps)" for ps
    by (subst sort_key_map) (simp only: comp_def case_prod_beta' fst_conv)
  have r: "map ?r (map ?b ps) = map ?r ps" for ps by (induction ps) auto
  have eq: "map ?r (take m (drop n (sort_key (\<lambda>(d, e). - dl_dead_lettered_at d) (map ?b ps))))
      = map ?r (take m (drop n (sort_key (\<lambda>(d, e). - dl_dead_lettered_at d) ps)))" for m n ps
    unfolding key drop_map take_map r ..
  let ?F = "\<lambda>w. let entries = filter (\<lambda>d. case st of None \<Rightarrow> True | Some s \<Rightarrow> dl_status d = s)
           (scan_dlq (env w) (stmts w) (dead_letter_entry_t (tables w)));
         rows = sort_key (\<lambda>(d, e). - dl_dead_lettered_at d) (base_query (webhook_event_t (tables w)) entries)
     in map (\<lambda>(d, e). to_record d e) (take (nat limit) (drop (nat offset) rows))"
  show "?F (blank_world w) = ?F w" by (simp add: Let_def base_query_blank eq)
qed

lemma first_record_blank:
  "(case base_query (map blank_event events) entries of [] \<Rightarrow> None | (d, e) # _ \<Rightarrow> Some (to_record d e))
    = (case base_query events entries of [] \<Rightarrow> None | (d, e) # _ \<Rightarrow> Some (to_record d e))"
  by (auto simp: base_query_blank split: list.splits)

lemma blind_get_entry [blind_intros]: "blind (get_entry i)"
  unfolding get_entry_def by (rule blind_query_by_id) (simp add: first_record_blank)

lemma blind_update_entry [blind_intros]: "blind (update_entry i target now note)"
  unfolding update_entry_def modify_def
  by (rule blind_stmt) (auto simp: Let_def blank_def)

lemma blind_transition [blind_intros]: "blind (transition i target now note)"
  unfolding transition_def
  by (auto intro!: blind_intros blind_query_by_id split: option.splits)

lemma blind_get_event [blind_intros]: "blind (get_event i)"
proof -
  let ?F = "query_by_id i (\<lambda>w. map_option summarise (find_row (\<lambda>e. ev_id e = i) (webhook_event_t (tables w))))"
  let ?A = "query_by_id i (\<lambda>w. sort_key pa_attempt_number (attempts_of i (tables w)))"
  have "get_event i = bind_tx ?F (\<lambda>s. case s of None \<Rightarrow> return_tx None
     | Some s \<Rightarrow> bind_tx ?A (\<lambda>as. return_tx (Some \<lparr>ed_event = s, ed_attempts = map attempt_of_row as\<rparr>)))"
    by (rule ext) (auto simp: get_event_def query_by_id_def stmt_def bind_tx_def Let_def simp del: find_row_None split: option.splits)
  moreover have "map_option summarise (map_option blank_event x) = map_option summarise x" for x by (cases x) simp_all
  then have "blind ?F" by (intro blind_query_by_id) (simp add: find_row_blank)
  moreover have "blind ?A" by (intro blind_query_by_id) (simp add: attempts_of_def)
  ultimately show ?thesis by (auto intro!: blind_intros split: option.splits)
qed

text \<open>C36. The listing an operator sees: only stored events that match every filter given, each once, newest first, as many
  as the page holds; on the first page nothing matching that was left out is newer than anything shown; and reading
  changes nothing.\<close>

theorem list_events_page:
  assumes inv: "db_inv (tables w) (seqs w)" and run: "list_events f limit offset w = (Inr rs, w')"
    and scan: "\<And>k rows. mset (scan_events (env w) k rows) = mset rows"
  shows "\<exists>page. rs = map summarise page \<and> set page \<subseteq> {e \<in> set (webhook_event_t (tables w)). filtered f e}
    \<and> distinct (map es_id rs) \<and> sorted (map (\<lambda>s. - es_received_at s) rs)
    \<and> length rs = min (length (filter (filtered f) (webhook_event_t (tables w))) - nat offset) (nat limit)
    \<and> (offset = 0 \<longrightarrow> (\<forall>e \<in> set (webhook_event_t (tables w)). filtered f e \<longrightarrow> e \<notin> set page \<longrightarrow>
          (\<forall>q \<in> set page. ev_received_at e \<le> ev_received_at q)))
    \<and> tables w' = tables w"
proof -
  let ?rows = "filter (filtered f) (webhook_event_t (tables w))" and ?scan = "scan_events (env w) (Suc (stmts w))"
  let ?page = "page_of limit offset (?scan ?rows)"
  have m: "mset (?scan ?rows) = mset ?rows" by (rule scan)
  have rs: "rs = map summarise ?page" using list_events_run(1) [OF run] .
  have "distinct (map ev_id ?rows)"
    using inv by (auto simp: db_inv_def keys_ok_def table_ok_def distinct_map intro: inj_on_subset)
  then have "distinct (map ev_id ?page)" by (rule page_rows(1) [OF m])
  moreover have "map es_id (map summarise ps) = map ev_id ps" "map (\<lambda>s. - es_received_at s) (map summarise ps) = map (\<lambda>e. - ev_received_at e) ps" for ps
    by (simp_all add: summarise_def)
  moreover have "set ?page \<subseteq> {e \<in> set (webhook_event_t (tables w)). filtered f e}" using page_rows(3) [OF m, of limit offset] by auto
  moreover have "\<forall>e \<in> set (webhook_event_t (tables w)). filtered f e \<longrightarrow> e \<notin> set ?page \<longrightarrow> (\<forall>q \<in> set ?page. ev_received_at e \<le> ev_received_at q)"
    if "offset = 0"
    using page_newest [of _ "?scan ?rows" limit] mset_eq_setD [OF m] that by auto
  moreover have "length rs = min (length ?rows - nat offset) (nat limit)" unfolding rs length_map by (rule page_rows(2) [OF m])
  ultimately show ?thesis using page_sorted [of limit offset "?scan ?rows"] list_events_run(2) [OF run]
    unfolding rs by (intro exI [of _ ?page]) (simp del: map_map)
qed

end
