(* ===== verification/FloatRepr.thy ===== *)
theory FloatRepr
  imports Floats PyStr
begin

text \<open>
  \<open>repr\<close> of a Python float, which an f-string uses: the shortest decimal that rounds back to the
  same double, in positional notation for decimal exponents from -4 to 15 and in scientific notation
  outside that range.
\<close>

definition floor_log10 :: "rat \<Rightarrow> int" where
  "floor_log10 x =
     (let k = (floor_log2 x * 30103) div 100000
      in if 10 powi (k + 1) \<le> x then k + 1 else if 10 powi k \<le> x then k else k - 1)"

text \<open>The decimal with \<open>n\<close> significant digits nearest to \<open>x\<close>, as an integer scaled by the power of
  ten of its last digit.\<close>

definition nearest_decimal :: "rat \<Rightarrow> nat \<Rightarrow> int \<times> int" where
  "nearest_decimal x n =
     (let e = floor_log10 x - int n + 1 in (round_half_even (x / 10 powi e), e))"

definition round_trips :: "rat \<Rightarrow> nat \<Rightarrow> bool" where
  "round_trips x n = (case nearest_decimal x n of (m, e) \<Rightarrow> rnd (of_int m * 10 powi e) = x)"

definition shortest_decimal :: "rat \<Rightarrow> int \<times> int" where
  "shortest_decimal x =
     nearest_decimal x (case find (round_trips x) [1..<17] of Some n \<Rightarrow> n | None \<Rightarrow> 17)"

fun rstrip_zeros :: "py_str \<Rightarrow> py_str" where
  "rstrip_zeros s = rev (dropWhile (\<lambda>c. c = CHR ''0'') (rev s))"

definition layout :: "py_str \<Rightarrow> int \<Rightarrow> py_str" where
  "layout ds point =
     (let n = int (length ds)
      in if - 4 < point \<and> point \<le> 16 then
           (if point \<le> 0 then ''0.'' @ replicate (nat (- point)) (CHR ''0'') @ ds
            else if n \<le> point then ds @ replicate (nat (point - n)) (CHR ''0'') @ ''.0''
            else take (nat point) ds @ ''.'' @ drop (nat point) ds)
         else
           let e = point - 1; m = show_nat (nat \<bar>e\<bar>)
           in take 1 ds @ (if n = 1 then [] else ''.'' @ drop 1 ds) @ ''e''
              @ (if e < 0 then ''-'' else ''+'') @ (if length m < 2 then ''0'' @ m else m))"

definition py_float_repr :: "rat \<Rightarrow> py_str" where
  "py_float_repr x =
     (if x = 0 then ''0.0''
      else let (m, e) = shortest_decimal \<bar>x\<bar>; ds = show_nat (nat m)
           in (if x < 0 then ''-'' else []) @ layout (rstrip_zeros ds) (int (length ds) + e))"

end
