(* ===== verification/Locks.thy ===== *)
theory Locks
  imports Ledger FloatRepr
begin

text \<open>
  Per-entity serialisation with a transaction-scoped advisory lock (\<open>adapters/locks.py\<close>). The hash
  is a parameter of the environment; what the program adds to it is the encoding of the entity, the
  reading of eight bytes as a signed 64-bit key, and the translation of a lock timeout into a
  retryable error.
\<close>

section \<open>Keys\<close>

definition LOCK_NOT_AVAILABLE :: py_str where
  "LOCK_NOT_AVAILABLE = ''55P03''"

text \<open>\<open>int.from_bytes(bs, byteorder="big", signed=True)\<close>.\<close>

definition from_bytes_unsigned :: "8 word list \<Rightarrow> int" where
  "from_bytes_unsigned bs = foldl (\<lambda>n b. n * 256 + uint b) 0 bs"

definition from_bytes_signed :: "8 word list \<Rightarrow> int" where
  "from_bytes_signed bs =
     (let n = from_bytes_unsigned bs; m = 2 ^ (8 * length bs)
      in if bs \<noteq> [] \<and> m \<le> 2 * n then n - m else n)"

text \<open>The text that is hashed: the two parts with a NUL between them.\<close>

definition lock_text :: "py_str \<Rightarrow> py_str \<Rightarrow> py_str" where
  "lock_text entity_type entity_id = entity_type @ CHR 0x00 # entity_id"

definition advisory_lock_key :: "(py_str \<Rightarrow> 8 word list) \<Rightarrow> py_str \<Rightarrow> py_str \<Rightarrow> int" where
  "advisory_lock_key blake2b entity_type entity_id = from_bytes_signed (blake2b (lock_text entity_type entity_id))"

definition is_lock_timeout :: "exc \<Rightarrow> bool" where
  "is_lock_timeout e = (case e of DBAPIError _ _ sqlstate _ \<Rightarrow> sqlstate = Some LOCK_NOT_AVAILABLE | _ \<Rightarrow> False)"

section \<open>Taking the lock\<close>

definition contention_message :: "rat \<Rightarrow> py_str \<Rightarrow> py_str \<Rightarrow> py_str" where
  "contention_message timeout entity_type entity_id =
     ''gave up after '' @ py_float_repr timeout @ ''s waiting for '' @ entity_type @ '':'' @ entity_id
     @ ''; another worker is holding it''"

text \<open>The server refuses a \<open>lock_timeout\<close> beyond a 32-bit number of milliseconds (22023); a product
  that is not a finite double cannot be converted to an integer at all.\<close>

definition float_overflows :: "rat \<Rightarrow> bool" where
  "float_overflows x \<longleftrightarrow> 2 ^ 1024 - 2 ^ 970 \<le> \<bar>x\<bar>"

lemma float_overflows_code [code]:
  "float_overflows x = (if \<bar>x\<bar> < 18446744073709551616 then False else 2 ^ 1024 - 2 ^ 970 \<le> \<bar>x\<bar>)"
  by (simp add: float_overflows_def)

definition set_lock_timeout :: "rat \<Rightarrow> unit prog" where
  "set_lock_timeout timeout =
     (if float_overflows (timeout * 1000)
      then raise_tx (OverflowError ''cannot convert float infinity to integer'')
      else stmt (\<lambda>w. let timeout_ms = py_trunc (fmul timeout 1000)
             in if 0 \<le> timeout_ms \<and> timeout_ms \<le> 2147483647 then (Inr (), w)
                else (Inl (db_error w ''22023''), w)))"

definition take_advisory_lock :: "int \<Rightarrow> unit prog" where
  "take_advisory_lock key = stmt (\<lambda>w.
     if int8_ok key then (Inr (), w\<lparr>advisory := key # advisory w\<rparr>) else (Inl (db_error w ''22000''), w))"

definition lock_entity :: "py_str \<Rightarrow> py_str \<Rightarrow> rat \<Rightarrow> unit prog" where
  "lock_entity entity_type entity_id timeout =
     bind_tx (set_lock_timeout timeout) (\<lambda>_ w.
       catch_exception (take_advisory_lock (advisory_lock_key (blake2b8 (env w)) entity_type entity_id))
         (\<lambda>e. if is_lock_timeout e then raise_tx (LockContentionError (contention_message timeout entity_type entity_id))
              else raise_tx e) w)"

section \<open>Laws\<close>

lemma from_bytes_unsigned_bound: "0 \<le> from_bytes_unsigned bs \<and> from_bytes_unsigned bs < 2 ^ (8 * length bs)"
proof (induction bs rule: rev_induct)
  case (snoc b bs)
  have "0 \<le> uint b \<and> uint b < 256" using uint_lt2p [of b] by simp
  with snoc show ?case by (simp add: from_bytes_unsigned_def power_add)
qed (simp add: from_bytes_unsigned_def)

lemma from_bytes_signed_bound:
  assumes "length bs = 8"
  shows "int8_ok (from_bytes_signed bs)"
  using from_bytes_unsigned_bound [of bs] assms by (auto simp: from_bytes_signed_def int8_ok_def Let_def)

lemma append_sep_inj:
  assumes "a \<notin> set xs" "a \<notin> set ys"
  shows "xs @ a # us = ys @ a # vs \<longleftrightarrow> xs = ys \<and> us = vs"
  using assms
proof (induction xs arbitrary: ys)
  case Nil then show ?case by (cases ys) auto
next
  case (Cons x xs) then show ?case by (cases ys) auto
qed

lemma lock_text_inj:
  "text_ok t \<Longrightarrow> text_ok t' \<Longrightarrow> lock_text t i = lock_text t' i' \<longleftrightarrow> t = t' \<and> i = i'"
  unfolding lock_text_def text_ok_def by (rule append_sep_inj)

lemma lock_entity_ok:
  assumes "lock_entity ty i timeout w = (Inr u, w')"
  shows "tables w' = tables w" "seqs w' = seqs w" "tx_now w' = tx_now w" "ticks w' = ticks w"
    "metrics w' = metrics w" "env w' = env w" "rng w' = rng w"
    "advisory w' = advisory_lock_key (blake2b8 (env w)) ty i # advisory w"
  using assms
  by (auto simp: lock_entity_def set_lock_timeout_def take_advisory_lock_def tx_simps catch_exception_def Let_def
      stmt_def raise_tx_def split: if_splits option.splits prod.splits sum.splits)

lemma frame_env:
  assumes "\<And>v. frame (f v)"
  shows "frame (\<lambda>w. f (env w) w)"
  unfolding frame_def
proof (intro allI)
  fix w
  show "env (snd (f (env w) w)) = env w \<and> seqs_le (seqs w) (seqs (snd (f (env w) w)))"
    using assms [of "env w"] by (simp add: frame_def)
qed

lemma frame_lock_entity [frame_intros]: "frame (lock_entity ty i timeout)"
proof -
  have 1: "frame (set_lock_timeout timeout)"
    unfolding set_lock_timeout_def by (auto simp: Let_def intro!: frame_intros frame_stmt)
  have 2: "frame (take_advisory_lock k)" for k
    unfolding take_advisory_lock_def by (auto intro!: frame_stmt)
  have 3: "frame (catch_exception (take_advisory_lock (k v)) (\<lambda>e. if is_lock_timeout e then raise_tx (m e) else raise_tx e))"
    for k :: "env \<Rightarrow> int" and m v
    by (rule frame_catch [OF 2]) (auto intro: frame_simple)
  show ?thesis unfolding lock_entity_def
    by (rule frame_bind [OF 1]) (rule frame_env, rule 3)
qed

lemma ok_lock_entity: "ok_keeps db_inv (lock_entity ty i timeout)"
  unfolding ok_keeps_def using lock_entity_ok(1,2) by metis

lemma is_lock_timeout_simps [simp]:
  "\<not> is_lock_timeout (OverflowError m)" "\<not> is_lock_timeout (LockContentionError m)"
  "is_lock_timeout (db_error w code) \<longleftrightarrow> code = LOCK_NOT_AVAILABLE"
  by (simp_all add: is_lock_timeout_def db_error_def)

lemma lock_timeout_is_exception: "\<not> is_Exception e \<Longrightarrow> \<not> is_lock_timeout e"
  by (cases e) (simp_all add: is_lock_timeout_def)

text \<open>Contention is reported as a retryable error; no other database error is turned into one.\<close>

lemma lock_entity_raises:
  assumes "lock_entity ty i timeout w = (Inl e, w')"
  shows "tables w' = tables w"
    and "e = LockContentionError (contention_message timeout ty i) \<or> \<not> is_lock_timeout e \<or>
         (\<exists>x. faults (env w) (stmts w) = Some x \<and> e = fault_exc x)"
  using assms
  by (auto simp: lock_entity_def set_lock_timeout_def take_advisory_lock_def catch_exception_def Let_def bind_tx_def
      stmt_def raise_tx_def LOCK_NOT_AVAILABLE_def dest: lock_timeout_is_exception
      split: if_splits option.splits prod.splits sum.splits)

end
