(* ===== verification/Delivery.thy ===== *)
theory Delivery
  imports Ledger
begin

text \<open>
  Streams of effects. An event may be delivered, retried and replayed any number of times and in any
  order; this theory states what the ledger then holds. The contract of an effect that is applied at
  most once is the locale \<open>idempotent_effect\<close>; the specification of \<open>apply_effect\<close> meets it.
\<close>

section \<open>Applied at most once\<close>

locale idempotent_effect =
  fixes step :: "'d \<Rightarrow> 's \<Rightarrow> effect_result \<times> 's" and eid :: "'d \<Rightarrow> int" and applied :: "'s \<Rightarrow> int set"
  assumes step_applied: "step d s = (APPLIED, s') \<Longrightarrow> eid d \<notin> applied s \<and> applied s' = insert (eid d) (applied s)"
    and step_refused: "step d s = (r, s') \<Longrightarrow> r \<noteq> APPLIED \<Longrightarrow> s' = s"
begin

fun run_all :: "'d list \<Rightarrow> 's \<Rightarrow> effect_result list \<times> 's" where
  "run_all [] s = ([], s)"
| "run_all (d # ds) s = (let (r, s1) = step d s; (rs, s2) = run_all ds s1 in (r # rs, s2))"

definition applications :: "int \<Rightarrow> 'd list \<Rightarrow> effect_result list \<Rightarrow> nat" where
  "applications e ds rs = length (filter (\<lambda>(d, r). eid d = e \<and> r = APPLIED) (zip ds rs))"

lemma applied_grows: "applied s \<subseteq> applied (snd (run_all ds s))"
proof (induction ds arbitrary: s)
  case (Cons d ds)
  obtain r s1 where 1: "step d s = (r, s1)" by (cases "step d s")
  have "applied s \<subseteq> applied s1"
    using step_applied [of d s s1] step_refused [OF 1] 1 by (cases r) auto
  with Cons.IH [of s1] 1 show ?case by (auto split: prod.splits)
qed simp

lemma never_again: "e \<in> applied s \<Longrightarrow> applications e ds (fst (run_all ds s)) = 0"
proof (induction ds arbitrary: s)
  case (Cons d ds)
  obtain r s1 where 1: "step d s = (r, s1)" by (cases "step d s")
  have "e \<in> applied s1" "\<not> (eid d = e \<and> r = APPLIED)"
    using step_applied [of d s s1] step_refused [OF 1] 1 Cons.prems by (cases r; auto)+
  with Cons.IH [of s1] 1 show ?case by (auto simp: applications_def split: prod.splits)
qed (simp add: applications_def)

lemma at_most_once: "applications e ds (fst (run_all ds s)) \<le> 1"
proof (induction ds arbitrary: s)
  case (Cons d ds)
  obtain r s1 where 1: "step d s = (r, s1)" by (cases "step d s")
  show ?case
  proof (cases "eid d = e \<and> r = APPLIED")
    case True
    with step_applied [of d s s1] 1 have "e \<in> applied s1" by auto
    from never_again [OF this, of ds] True 1 show ?thesis by (auto simp: applications_def split: prod.splits)
  next
    case False
    with Cons.IH [of s1] 1 show ?thesis by (auto simp: applications_def split: prod.splits)
  qed
qed (simp add: applications_def)

text \<open>An event whose effect stands was either applied before the run or exactly once in it.\<close>

lemma exactly_once:
  "e \<in> applied (snd (run_all ds s)) \<Longrightarrow> e \<notin> applied s \<Longrightarrow> applications e ds (fst (run_all ds s)) = 1"
proof (induction ds arbitrary: s)
  case (Cons d ds)
  obtain r s1 where 1: "step d s = (r, s1)" by (cases "step d s")
  show ?case
  proof (cases "eid d = e \<and> r = APPLIED")
    case True
    with step_applied [of d s s1] 1 have "e \<in> applied s1" by auto
    from never_again [OF this, of ds] True 1 show ?thesis by (auto simp: applications_def split: prod.splits)
  next
    case False
    with step_applied [of d s s1] step_refused [OF 1] 1 Cons.prems(2) have "e \<notin> applied s1" by (cases r) auto
    with Cons.IH [of s1] Cons.prems(1) 1 False show ?thesis by (auto simp: applications_def split: prod.splits)
  qed
qed simp

end

text \<open>A delivery is the event's id, its provider sequence and its effect.\<close>

type_synonym delivery = "int \<times> int option \<times> effect"

fun deliver :: "delivery \<Rightarrow> ledger_spec \<Rightarrow> effect_result \<times> ledger_spec" where
  "deliver (eid, sq, eff) s = spec_effect eid sq eff s"

interpretation led: idempotent_effect deliver fst sp_applied
proof
  fix d :: delivery and s s' r
  obtain e sq eff where d: "d = (e, sq, eff)" by (cases d)
  show "deliver d s = (APPLIED, s') \<Longrightarrow> fst d \<notin> sp_applied s \<and> sp_applied s' = insert (fst d) (sp_applied s)"
    unfolding d by (cases eff) (auto simp: Let_def split: prod.splits if_splits)
  show "deliver d s = (r, s') \<Longrightarrow> r \<noteq> APPLIED \<Longrightarrow> s' = s"
    unfolding d by (cases eff) (auto simp: Let_def split: prod.splits if_splits)
qed

fun deliver_all :: "delivery list \<Rightarrow> ledger_spec \<Rightarrow> ledger_spec" where
  "deliver_all [] s = s"
| "deliver_all (d # ds) s = deliver_all ds (snd (deliver d s))"

lemma deliver_all_run: "deliver_all ds s = snd (led.run_all ds s)"
  by (induction ds arbitrary: s) (auto split: prod.splits)

section \<open>Credits in any order\<close>

definition is_credit :: "delivery \<Rightarrow> bool" where
  "is_credit d = (case snd (snd d) of Credit _ _ \<Rightarrow> True | _ \<Rightarrow> False)"

text \<open>The deliveries on an account that are not yet applied.\<close>

definition fresh_on :: "py_str \<Rightarrow> delivery set \<Rightarrow> ledger_spec \<Rightarrow> delivery set" where
  "fresh_on ref D s = {d \<in> D. account_ref (snd (snd d)) = ref \<and> fst d \<notin> sp_applied s}"

lemma Max_insert_max: "finite A \<Longrightarrow> Max (insert (max v q) A) = Max (insert v (insert q A))" for v q :: int
  by (cases "A = {}") (simp_all add: max.assoc)

lemma deliver_credit:
  "e \<in> sp_applied s \<Longrightarrow> snd (deliver (e, sq, Credit r a) s) = s"
  "e \<notin> sp_applied s \<Longrightarrow> sp_applied (snd (deliver (e, sq, Credit r a) s)) = insert e (sp_applied s)"
  "e \<notin> sp_applied s \<Longrightarrow> sp_account (snd (deliver (e, sq, Credit r a) s)) ref =
     (if r = ref then (fst (sp_account s ref) + a, max (snd (sp_account s ref)) (seq_or_zero sq)) else sp_account s ref)"
  by (auto split: prod.splits)

lemma fresh_on_Cons:
  "e \<in> sp_applied s \<Longrightarrow> fresh_on ref (set ((e, sq, Credit r a) # ds)) s = fresh_on ref (set ds) s"
  by (auto simp: fresh_on_def)

lemma fresh_on_Cons_new:
  assumes "fst d \<notin> sp_applied s" "inj_on fst (set (d # ds))" "sp_applied s' = insert (fst d) (sp_applied s)"
  shows "fresh_on ref (set (d # ds)) s =
       (if account_ref (snd (snd d)) = ref then insert d (fresh_on ref (set ds) s') else fresh_on ref (set ds) s')"
    and "d \<notin> fresh_on ref (set ds) s'"
proof -
  have "x = d" if "x \<in> set ds" "fst x = fst d" for x
    using inj_onD [OF assms(2) that(2)] that(1) by simp
  then show "fresh_on ref (set (d # ds)) s =
       (if account_ref (snd (snd d)) = ref then insert d (fresh_on ref (set ds) s') else fresh_on ref (set ds) s')"
    unfolding fresh_on_def assms(3) using assms(1) by (cases "account_ref (snd (snd d)) = ref") (simp, blast)+
  show "d \<notin> fresh_on ref (set ds) s'"
    unfolding fresh_on_def assms(3) by simp
qed

lemma credits_closed_form:
  assumes "\<forall>d \<in> set ds. is_credit d" "inj_on fst (set ds)"
  shows "sp_account (deliver_all ds s) ref =
      (fst (sp_account s ref) + (\<Sum>d \<in> fresh_on ref (set ds) s. amount_minor (snd (snd d))),
       Max (insert (snd (sp_account s ref)) ((\<lambda>d. seq_or_zero (fst (snd d))) ` fresh_on ref (set ds) s)))
    \<and> sp_applied (deliver_all ds s) = sp_applied s \<union> fst ` set ds"
  using assms
proof (induction ds arbitrary: s)
  case Nil
  then show ?case by (simp add: fresh_on_def)
next
  case (Cons d ds)
  obtain e sq r a where d: "d = (e, sq, Credit r a)"
    using Cons.prems(1) by (cases d; cases "snd (snd d)") (simp_all add: is_credit_def)
  let ?s' = "snd (deliver d s)" and ?v = "snd (sp_account s ref)" and ?q = "\<lambda>d :: delivery. seq_or_zero (fst (snd d))"
  have inj: "inj_on fst (set ds)" using Cons.prems(2) by (rule inj_on_subset) auto
  note IH = Cons.IH [OF _ inj, of ?s']
  have cr: "\<forall>d \<in> set ds. is_credit d" using Cons.prems(1) by simp
  have fin: "finite (fresh_on ref (set ds) ?s')" by (simp add: fresh_on_def)
  show ?case
  proof (cases "e \<in> sp_applied s")
    case True
    have "?s' = s" using True by (simp add: d deliver_credit(1) del: deliver.simps)
    moreover have "fresh_on ref (set (d # ds)) s = fresh_on ref (set ds) s" using True unfolding d by (rule fresh_on_Cons)
    ultimately show ?thesis using IH [OF cr] True by (simp add: d insert_absorb del: deliver.simps)
  next
    case new: False
    note dc = deliver_credit(2,3) [OF new, of sq r a, folded d]
    have "fst d \<notin> sp_applied s" "sp_applied ?s' = insert (fst d) (sp_applied s)" using new dc(1) by (simp_all only: d fst_conv simp_thms not_False_eq_True)
    note F = fresh_on_Cons_new [OF this(1) Cons.prems(2) this(2), of ref]
    have m: "Max (insert (max ?v (?q d)) (?q ` fresh_on ref (set ds) ?s')) = Max (insert ?v (insert (?q d) (?q ` fresh_on ref (set ds) ?s')))"
      by (rule Max_insert_max) (use fin in simp)
    show ?thesis
    proof (cases "r = ref")
      case True
      with F(1) have "fresh_on ref (set (d # ds)) s = insert d (fresh_on ref (set ds) ?s')"
        by (simp only: d snd_conv effect.sel if_True simp_thms)
      then show ?thesis using F(2) IH [OF cr] dc True fin m by (simp add: d del: deliver.simps Max_insert)
    next
      case False
      with F(1) have "fresh_on ref (set (d # ds)) s = fresh_on ref (set ds) ?s'"
        by (simp only: d snd_conv effect.sel if_False simp_thms)
      then show ?thesis using IH [OF cr] dc False by (simp add: d del: deliver.simps)
    qed
  qed
qed

text \<open>Two streams with the same credits, in whatever order and with whatever repetitions, leave the
  same ledger.\<close>

lemma credits_same_set:
  assumes "set ds = set ds'" "\<forall>d \<in> set ds. is_credit d" "inj_on fst (set ds)"
  shows "deliver_all ds s = deliver_all ds' s"
proof (rule ledger_spec.equality)
  show "sp_account (deliver_all ds s) = sp_account (deliver_all ds' s)"
    using assms credits_closed_form [of ds s] credits_closed_form [of ds' s] by (intro ext) simp
  show "sp_applied (deliver_all ds s) = sp_applied (deliver_all ds' s)"
    using assms credits_closed_form [of ds s] credits_closed_form [of ds' s] by auto
qed simp

section \<open>Snapshots in any order\<close>

definition snapshot_on :: "py_str \<Rightarrow> delivery \<Rightarrow> bool" where
  "snapshot_on ref d = (case snd (snd d) of SetBalance r _ _ \<Rightarrow> r = ref | _ \<Rightarrow> False)"

text \<open>Whatever the other events are, an account's mark never falls below a snapshot that has been
  delivered.\<close>

lemma mark_monotone: "snd (sp_account s ref) \<le> snd (sp_account (snd (deliver d s)) ref)"
proof -
  obtain e sq eff where d: "d = (e, sq, eff)" by (cases d)
  show ?thesis unfolding d by (cases eff) (auto simp: Let_def split: prod.splits)
qed

lemma marks_monotone: "snd (sp_account s ref) \<le> snd (sp_account (deliver_all ds s) ref)"
  by (induction ds arbitrary: s) (auto intro: order_trans [OF mark_monotone])

lemma other_account: "account_ref (snd (snd d)) \<noteq> ref \<Longrightarrow> sp_account (snd (deliver d s)) ref = sp_account s ref"
  by (cases d; cases "snd (snd d)") (auto simp: Let_def split: prod.splits)

lemma stale_snapshot:
  assumes "snapshot_on ref d" "sequence (snd (snd d)) \<le> snd (sp_account s ref)"
  shows "deliver d s = (EFF_SUPERSEDED, s)"
  using assms by (cases d; cases "snd (snd d)") (auto simp: snapshot_on_def split: prod.splits)

text \<open>Once the latest snapshot stands, every further snapshot up to it leaves the account alone.\<close>

lemma latest_stays:
  assumes "\<forall>d \<in> set ds. account_ref (snd (snd d)) = ref \<longrightarrow> snapshot_on ref d \<and> sequence (snd (snd d)) \<le> snd (sp_account s ref)"
  shows "sp_account (deliver_all ds s) ref = sp_account s ref"
  using assms
proof (induction ds arbitrary: s)
  case (Cons d ds)
  have "sp_account (snd (deliver d s)) ref = sp_account s ref"
    using Cons.prems stale_snapshot [of ref d s] other_account [of d ref s]
    by (cases "account_ref (snd (snd d)) = ref") auto
  with Cons.IH [of "snd (deliver d s)"] Cons.prems show ?case by simp
qed simp

lemma latest_snapshot_wins:
  assumes "(e, sq, SetBalance ref b n) \<in> set ds"
    and "\<forall>d \<in> set ds. account_ref (snd (snd d)) = ref \<longrightarrow>
           snapshot_on ref d \<and> (d = (e, sq, SetBalance ref b n) \<or> sequence (snd (snd d)) < n)"
    and "\<forall>d \<in> set ds. fst d = e \<longrightarrow> d = (e, sq, SetBalance ref b n)"
    and "e \<notin> sp_applied s" "snd (sp_account s ref) < n"
  shows "sp_account (deliver_all ds s) ref = (b, n)"
  using assms
proof (induction ds arbitrary: s)
  case (Cons d ds)
  let ?top = "(e, sq, SetBalance ref b n)" and ?s' = "snd (deliver d s)"
  show ?case
  proof (cases "d = ?top")
    case True
    with Cons.prems(4,5) have "sp_account ?s' ref = (b, n)" by (auto split: prod.splits)
    moreover have "snapshot_on ref d' \<and> sequence (snd (snd d')) \<le> n"
      if "d' \<in> set ds" "account_ref (snd (snd d')) = ref" for d'
      using Cons.prems(2) [rule_format, of d'] that by (cases "d' = ?top") simp_all
    ultimately have "sp_account (deliver_all ds ?s') ref = sp_account ?s' ref"
      by (intro latest_stays) simp
    then show ?thesis using \<open>sp_account ?s' ref = (b, n)\<close> by simp
  next
    case False
    obtain e' sq' eff where d: "d = (e', sq', eff)" by (cases d)
    have ne: "e' \<noteq> e" using Cons.prems(3) False d by auto
    have "e \<notin> sp_applied ?s'"
      using Cons.prems(4) ne unfolding d by (cases eff) (auto simp: Let_def split: prod.splits)
    moreover have "snd (sp_account ?s' ref) < n"
    proof (cases "account_ref eff = ref")
      case True
      with Cons.prems(2) False d have "snapshot_on ref d" "sequence eff < n" by auto
      with Cons.prems(5) show ?thesis unfolding d by (cases eff) (auto simp: snapshot_on_def Let_def split: prod.splits)
    next
      case False
      with other_account [of d ref s] d Cons.prems(5) show ?thesis by simp
    qed
    moreover have "?top \<in> set ds" using Cons.prems(1) False by simp
    ultimately show ?thesis unfolding deliver_all.simps
      using Cons.prems(2,3) by (intro Cons.IH) (simp_all only: list.set ball_simps, blast+)
  qed
qed simp

end
