(* ===== verification/Failures.thy ===== *)
theory Failures
  imports Domain
begin

text \<open>
  The classification of failures (\<open>adapters/failures.py\<close>): which exceptions may be retried.
\<close>

definition RETRYABLE_SQLSTATES :: "py_str list" where
  "RETRYABLE_SQLSTATES = [''40001'', ''40P01'', ''55P03'', ''53300'', ''57P01'', ''57P02'',
     ''57P03'', ''08000'', ''08003'', ''08006'']"

definition is_retryable :: "exc \<Rightarrow> bool" where
  "is_retryable exc =
     (if is_NonRetryableError exc then False
      else if is_RetryableError exc then True
      else case exc of
        SQLAlchemyTimeoutError _ \<Rightarrow> True
      | DBAPIError _ connection_invalidated sqlstate _ \<Rightarrow>
          if connection_invalidated then True
          else (case sqlstate of None \<Rightarrow> False | Some s \<Rightarrow> s \<in> set RETRYABLE_SQLSTATES)
      | ConnectionError _ _ \<Rightarrow> True
      | TimeoutError _ \<Rightarrow> True
      | GaiError _ \<Rightarrow> True
      | _ \<Rightarrow> False)"

lemma is_retryable_simps [simp]:
  "is_NonRetryableError e \<Longrightarrow> \<not> is_retryable e"
  "is_RetryableError e \<Longrightarrow> is_retryable e"
  using taxonomy_disjoint [of e] by (auto simp: is_retryable_def)

end
