(* ===== verification/Handlers.thy ===== *)
theory Handlers
  imports Failures
begin

text \<open>
  Dispatch (\<open>domain/handlers.py\<close>) and the demo domain's three handlers
  (\<open>domain/balance.py\<close>). A handler is a pure function from a stored event to an effect or an
  exception; a registry is the dict from event types to handlers, in insertion order.
\<close>

section \<open>The registry\<close>

type_synonym handler = "stored_event \<Rightarrow> exc + effect"
type_synonym registry = "(py_str \<times> handler) list"

definition register :: "registry \<Rightarrow> py_str \<Rightarrow> handler \<Rightarrow> exc + registry" where
  "register reg event_type h =
     (if event_type \<in> fst ` set reg
      then Inl (ValueError (''a handler is already registered for event type '' @ py_repr event_type))
      else Inr (reg @ [(event_type, h)]))"

definition dispatch :: "registry \<Rightarrow> stored_event \<Rightarrow> exc + effect" where
  "dispatch reg event =
     (case map_of reg (se_event_type event) of
        None \<Rightarrow> Inl (UnknownEventTypeError
                  (''no handler registered for event type '' @ py_repr (se_event_type event)))
      | Some h \<Rightarrow> h event)"

definition event_types :: "registry \<Rightarrow> py_str set" where
  "event_types reg = set (map fst reg)"

section \<open>The balance handlers\<close>

definition ACCOUNT_ENTITY_TYPE :: py_str where "ACCOUNT_ENTITY_TYPE = ''account''"
definition CREDITED :: py_str where "CREDITED = ''balance.credited''"
definition DEBITED :: py_str where "DEBITED = ''balance.debited''"
definition SNAPSHOT :: py_str where "SNAPSHOT = ''balance.snapshot''"
definition MIN_SEQUENCE :: int where "MIN_SEQUENCE = 1"

lemmas event_type_defs = CREDITED_def DEBITED_def SNAPSHOT_def

definition account_ref_of :: "stored_event \<Rightarrow> exc + py_str" where
  "account_ref_of event =
     (if se_entity_type event \<noteq> ACCOUNT_ENTITY_TYPE then
        Inl (UnprocessableEventError (''balance handlers own '' @ py_repr ACCOUNT_ENTITY_TYPE
           @ '' entities, but this event is about '' @ py_repr (se_entity_type event)))
      else if se_entity_id event = [] then
        Inl (UnprocessableEventError
           ''event carries no entity_id, so there is no account to apply it to'')
      else Inr (se_entity_id event))"

definition minor_units :: "json_object \<Rightarrow> py_str \<Rightarrow> exc + int" where
  "minor_units payload field =
     (case json_get payload field of
        Some (JInt v) \<Rightarrow> Inr v
      | _ \<Rightarrow> Inl (UnprocessableEventError
               (''field '' @ py_repr field @ '' must be an integer number of minor units'')))"

definition non_negative :: "int \<Rightarrow> py_str \<Rightarrow> exc + int" where
  "non_negative amount field =
     (if amount < 0 then
        Inl (UnprocessableEventError (''field '' @ py_repr field
           @ '' must not be negative; the event type carries the direction''))
      else Inr amount)"

definition handle_credited :: handler where
  "handle_credited event =
     bind_exc (minor_units (se_payload event) ''amount'') (\<lambda>v.
     bind_exc (non_negative v ''amount'') (\<lambda>amount.
     bind_exc (account_ref_of event) (\<lambda>ref.
     Inr (Credit ref amount))))"

definition handle_debited :: handler where
  "handle_debited event =
     bind_exc (minor_units (se_payload event) ''amount'') (\<lambda>v.
     bind_exc (non_negative v ''amount'') (\<lambda>amount.
     bind_exc (account_ref_of event) (\<lambda>ref.
     Inr (Credit ref (- amount)))))"

definition handle_snapshot :: handler where
  "handle_snapshot event =
     (let refused = Inl (UnprocessableEventError (py_repr SNAPSHOT
            @ '' sets an absolute balance and needs a provider_sequence of at least ''
            @ show_int MIN_SEQUENCE
            @ '' to order it; without one a stale snapshot could overwrite newer state''))
      in case se_provider_sequence event of
           None \<Rightarrow> refused
         | Some sq \<Rightarrow>
             if sq < MIN_SEQUENCE then refused
             else
               bind_exc (minor_units (se_payload event) ''balance'') (\<lambda>balance.
               bind_exc (account_ref_of event) (\<lambda>ref.
               Inr (SetBalance ref balance sq))))"

text \<open>Importing \<open>domain/balance.py\<close> registers the three handlers in this order.\<close>

definition register_balance_handlers :: "exc + registry" where
  "register_balance_handlers =
     bind_exc (register [] CREDITED handle_credited) (\<lambda>r.
     bind_exc (register r DEBITED handle_debited) (\<lambda>r.
     register r SNAPSHOT handle_snapshot))"

definition balance_registry :: registry where
  "balance_registry =
     [(CREDITED, handle_credited), (DEBITED, handle_debited), (SNAPSHOT, handle_snapshot)]"

section \<open>Library\<close>

lemmas handler_defs = handle_credited_def handle_debited_def handle_snapshot_def

lemma account_ref_of_Inr:
  "account_ref_of e = Inr r \<longleftrightarrow> se_entity_type e = ACCOUNT_ENTITY_TYPE \<and> se_entity_id e \<noteq> [] \<and> r = se_entity_id e"
  by (auto simp: account_ref_of_def)

lemma minor_units_Inr: "minor_units p f = Inr v \<longleftrightarrow> json_get p f = Some (JInt v)"
  by (auto simp: minor_units_def split: option.splits json.splits)

lemma non_negative_Inr: "non_negative a f = Inr v \<longleftrightarrow> 0 \<le> a \<and> v = a"
  by (auto simp: non_negative_def)

lemmas parts_Inr = account_ref_of_Inr minor_units_Inr non_negative_Inr bind_exc_Inr

lemma handle_credited_Inr:
  "handle_credited e = Inr f \<longleftrightarrow>
     (\<exists>a. json_get (se_payload e) ''amount'' = Some (JInt a) \<and> 0 \<le> a
        \<and> se_entity_type e = ACCOUNT_ENTITY_TYPE \<and> se_entity_id e \<noteq> []
        \<and> f = Credit (se_entity_id e) a)"
  by (auto simp: handle_credited_def parts_Inr)

lemma handle_debited_Inr:
  "handle_debited e = Inr f \<longleftrightarrow>
     (\<exists>a. json_get (se_payload e) ''amount'' = Some (JInt a) \<and> 0 \<le> a
        \<and> se_entity_type e = ACCOUNT_ENTITY_TYPE \<and> se_entity_id e \<noteq> []
        \<and> f = Credit (se_entity_id e) (- a))"
  by (auto simp: handle_debited_def parts_Inr)

lemma handle_snapshot_Inr:
  "handle_snapshot e = Inr f \<longleftrightarrow>
     (\<exists>b s. json_get (se_payload e) ''balance'' = Some (JInt b)
        \<and> se_provider_sequence e = Some s \<and> 1 \<le> s
        \<and> se_entity_type e = ACCOUNT_ENTITY_TYPE \<and> se_entity_id e \<noteq> []
        \<and> f = SetBalance (se_entity_id e) b s)"
  by (auto simp: handle_snapshot_def parts_Inr MIN_SEQUENCE_def Let_def split: option.splits)

lemma map_of_balance_registry:
  "map_of balance_registry t =
     (if t = CREDITED then Some handle_credited else if t = DEBITED then Some handle_debited
      else if t = SNAPSHOT then Some handle_snapshot else None)"
  by (simp add: balance_registry_def event_type_defs)

text \<open>What a handler may raise, as a list that does not depend on the payload.\<close>

definition refusals :: "py_str \<Rightarrow> py_str \<Rightarrow> exc list" where
  "refusals event_type entity_type =
     [UnknownEventTypeError (''no handler registered for event type '' @ py_repr event_type),
      UnprocessableEventError (''balance handlers own '' @ py_repr ACCOUNT_ENTITY_TYPE
         @ '' entities, but this event is about '' @ py_repr entity_type),
      UnprocessableEventError ''event carries no entity_id, so there is no account to apply it to'',
      UnprocessableEventError (''field '' @ py_repr ''amount'' @ '' must be an integer number of minor units''),
      UnprocessableEventError (''field '' @ py_repr ''balance'' @ '' must be an integer number of minor units''),
      UnprocessableEventError (''field '' @ py_repr ''amount''
         @ '' must not be negative; the event type carries the direction''),
      UnprocessableEventError (py_repr SNAPSHOT
         @ '' sets an absolute balance and needs a provider_sequence of at least '' @ show_int MIN_SEQUENCE
         @ '' to order it; without one a stale snapshot could overwrite newer state'')]"

lemma parts_Inl:
  "account_ref_of e = Inl x \<Longrightarrow> x \<in> set (refusals t (se_entity_type e))"
  "minor_units p ''amount'' = Inl x \<Longrightarrow> x \<in> set (refusals t u)"
  "minor_units p ''balance'' = Inl x \<Longrightarrow> x \<in> set (refusals t u)"
  "non_negative a ''amount'' = Inl x \<Longrightarrow> x \<in> set (refusals t u)"
  by (auto simp: account_ref_of_def minor_units_def non_negative_def refusals_def
      split: if_splits option.splits json.splits)

lemma balance_handler_Inl:
  "handle_credited e = Inl x \<Longrightarrow> x \<in> set (refusals t (se_entity_type e))"
  "handle_debited e = Inl x \<Longrightarrow> x \<in> set (refusals t (se_entity_type e))"
  by (auto simp: handle_credited_def handle_debited_def bind_exc_Inl intro: parts_Inl)

lemma handle_snapshot_Inl:
  "handle_snapshot e = Inl x \<Longrightarrow> x \<in> set (refusals t (se_entity_type e))"
  by (auto simp: handle_snapshot_def bind_exc_Inl Let_def split: option.splits if_splits intro: parts_Inl)
     (auto simp: refusals_def)

lemma refusals_non_retryable: "x \<in> set (refusals t u) \<Longrightarrow> is_NonRetryableError x"
  by (auto simp: refusals_def)

lemma dispatch_balance_Inl:
  "dispatch balance_registry e = Inl x \<Longrightarrow> x \<in> set (refusals (se_event_type e) (se_entity_type e))"
  by (auto simp: dispatch_def map_of_balance_registry split: if_splits
      intro: balance_handler_Inl handle_snapshot_Inl) (simp add: refusals_def)

end
