(* ===== verification/Config.thy ===== *)
theory Config
  imports Floats Domain
begin

text \<open>
  Application configuration (\<open>config.py\<close>): the settings, the bounds their declaration puts on each
  field, the two validators, and the lookup of a source's signing key. Construction fails
  (\<open>None\<close>, pydantic's ValidationError) rather than yielding settings out of bounds.
\<close>

datatype environment = LOCAL | CI | PRODUCTION
datatype log_level = DEBUG | INFO | WARNING | ERROR

definition ASYNC_DRIVER :: py_str where "ASYNC_DRIVER = ''postgresql+asyncpg''"
definition DRIVERLESS_SCHEMES :: "py_str list" where
  "DRIVERLESS_SCHEMES = [''postgres'', ''postgresql'']"

record settings =
  environment :: environment
  log_level :: log_level
  database_url :: py_str
  db_pool_size :: int
  db_max_overflow :: int
  webhook_secrets :: "(py_str \<times> py_str) list"
  signature_timestamp_tolerance_seconds :: int
  max_payload_bytes :: int
  admin_api_key :: py_str
  admin_page_size :: int
  replay_max_batch :: int
  worker_metrics_port :: int
  schema_wait_timeout_seconds :: rat
  poll_batch_size :: int
  poll_interval_seconds :: rat
  advisory_lock_timeout_seconds :: rat
  max_attempts :: int
  backoff_base_seconds :: rat
  backoff_cap_seconds :: rat
  jitter_seed :: "int option"

text \<open>\<open>value.partition("://")\<close>: the scheme, whether a separator was found, the remainder.\<close>

fun partition_scheme :: "py_str \<Rightarrow> py_str \<times> bool \<times> py_str" where
  "partition_scheme [] = ([], False, [])"
| "partition_scheme (c # cs) =
     (if take 3 (c # cs) = ''://'' then ([], True, drop 3 (c # cs))
      else let (a, found, b) = partition_scheme cs in (c # a, found, b))"

definition normalise_driver :: "py_str \<Rightarrow> exc + py_str" where
  "normalise_driver v =
     (let (scheme, found, remainder) = partition_scheme v
      in if \<not> found then Inr v
         else if scheme \<in> set DRIVERLESS_SCHEMES then Inr (ASYNC_DRIVER @ ''://'' @ remainder)
         else if scheme \<noteq> ASYNC_DRIVER then
           Inl (ValueError (''database_url uses the '' @ py_repr scheme
             @ '' driver, but this process is async-only and requires '' @ py_repr ASYNC_DRIVER
             @ ''. Pass a driverless '' @ py_repr ''postgresql://''
             @ '' DSN and it will be adapted for you.''))
         else Inr v)"

text \<open>The \<open>Field\<close> bounds, in declaration order.\<close>

definition field_bounds :: "settings \<Rightarrow> bool" where
  "field_bounds s \<longleftrightarrow>
     1 \<le> db_pool_size s \<and> 0 \<le> db_max_overflow s
     \<and> 0 < signature_timestamp_tolerance_seconds s \<and> 0 < max_payload_bytes s
     \<and> 0 < admin_page_size s \<and> admin_page_size s \<le> 500 \<and> 0 < replay_max_batch s
     \<and> 0 < worker_metrics_port s \<and> worker_metrics_port s \<le> 65535
     \<and> 0 < schema_wait_timeout_seconds s
     \<and> 0 < poll_batch_size s \<and> 0 < poll_interval_seconds s \<and> 0 < advisory_lock_timeout_seconds s
     \<and> 1 \<le> max_attempts s \<and> 0 < backoff_base_seconds s \<and> 0 < backoff_cap_seconds s"

definition cap_bounds_base :: "settings \<Rightarrow> bool" where
  "cap_bounds_base s \<longleftrightarrow> \<not> backoff_cap_seconds s < backoff_base_seconds s"

text \<open>Building the settings from raw field values. \<open>dsn_ok\<close> is pydantic's \<open>PostgresDsn\<close> check of the
  normalised URL.\<close>

definition make_settings :: "(py_str \<Rightarrow> bool) \<Rightarrow> settings \<Rightarrow> settings option" where
  "make_settings dsn_ok raw =
     (case normalise_driver (database_url raw) of
        Inl _ \<Rightarrow> None
      | Inr url \<Rightarrow>
          let s = raw\<lparr>database_url := url\<rparr>
          in if dsn_ok url \<and> field_bounds s \<and> cap_bounds_base s then Some s else None)"

definition secret_for_source :: "settings \<Rightarrow> py_str \<Rightarrow> py_str option" where
  "secret_for_source s source = map_of (webhook_secrets s) source"

text \<open>What every component may assume of the settings it is handed; floats are doubles.\<close>

definition settings_ok :: "settings \<Rightarrow> bool" where
  "settings_ok s \<longleftrightarrow> field_bounds s \<and> cap_bounds_base s
     \<and> is_double (backoff_base_seconds s) \<and> is_double (backoff_cap_seconds s)"

text \<open>The declared defaults, with the three required fields supplied.\<close>

definition default_settings :: "py_str \<Rightarrow> py_str \<Rightarrow> (py_str \<times> py_str) list \<Rightarrow> settings" where
  "default_settings url key secrets = \<lparr>
     environment = LOCAL, log_level = INFO, database_url = url, db_pool_size = 10, db_max_overflow = 5,
     webhook_secrets = secrets, signature_timestamp_tolerance_seconds = 300,
     max_payload_bytes = 1048576, admin_api_key = key, admin_page_size = 50, replay_max_batch = 100,
     worker_metrics_port = 9100, schema_wait_timeout_seconds = 180, poll_batch_size = 100,
     poll_interval_seconds = 1, advisory_lock_timeout_seconds = 5, max_attempts = 5,
     backoff_base_seconds = 1, backoff_cap_seconds = 300, jitter_seed = None\<rparr>"

lemma partition_scheme_found:
  "partition_scheme v = (a, True, b) \<Longrightarrow> v = a @ ''://'' @ b"
proof (induction v arbitrary: a)
  case (Cons c cs)
  show ?case
  proof (cases "take 3 (c # cs) = ''://''")
    case True
    with Cons.prems show ?thesis using append_take_drop_id [of 3 "c # cs"] by auto
  next
    case False
    with Cons show ?thesis by (auto split: prod.splits)
  qed
qed simp

lemma partition_scheme_prefix:
  "CHR '':'' \<notin> set a \<Longrightarrow> partition_scheme (a @ ''://'' @ b) = (a, True, b)"
  by (induction a) auto

lemma make_settings_valid:
  "make_settings dsn_ok raw = Some s \<Longrightarrow> field_bounds s \<and> cap_bounds_base s"
  by (auto simp: make_settings_def Let_def split: sum.splits if_splits)

end
