(* ===== verification/Process.thy ===== *)
theory Process
  imports Queue Locks Delivery Handlers Config
begin

text \<open>
  Processing one event (\<open>services/process.py\<close>): claim, lock, dispatch, apply and record in one
  transaction; on any exception, the classification of the failure and its bookkeeping in a second,
  fresh transaction. \<open>ERROR_DETAIL_LIMIT\<close>, the redaction of error texts and the bounded metric
  label (\<open>obs/metrics.py\<close>) are modelled with it.
\<close>

section \<open>Vocabulary\<close>

definition UNKNOWN_EVENT_TYPE :: py_str where "UNKNOWN_EVENT_TYPE = ''unknown''"

definition known_event_type :: "py_str \<Rightarrow> py_str set \<Rightarrow> py_str" where
  "known_event_type event_type known = (if event_type \<in> known then event_type else UNKNOWN_EVENT_TYPE)"

definition ERROR_DETAIL_LIMIT :: nat where "ERROR_DETAIL_LIMIT = 500"

fun SUCCESS :: "effect_result \<Rightarrow> attempt_outcome" where
  "SUCCESS APPLIED = ATT_SUCCEEDED"
| "SUCCESS ALREADY_APPLIED = ATT_SUCCEEDED"
| "SUCCESS EFF_SUPERSEDED = ATT_SUPERSEDED"

record process_result =
  pr_outcome :: "attempt_outcome option"
  pr_effect :: "effect_result option"

definition claimed :: "process_result \<Rightarrow> bool" where
  "claimed r \<longleftrightarrow> pr_outcome r \<noteq> None"

definition NOT_CLAIMED :: process_result where
  "NOT_CLAIMED = \<lparr>pr_outcome = None, pr_effect = None\<rparr>"

definition redacted_detail :: "exc \<Rightarrow> py_str" where
  "redacted_detail e = take ERROR_DETAIL_LIMIT
     (if is_ProcessingError e then exc_str e else class_name e @ '': '' @ exc_str e)"

text \<open>\<open>t + timedelta(seconds=delay)\<close>, with the ranges of \<open>timedelta\<close> and \<open>datetime\<close>.\<close>

definition DATETIME_MAX :: datetime where "DATETIME_MAX = 253402300799999999"
definition DATETIME_MIN :: datetime where "DATETIME_MIN = - 62135596800000000"

definition add_seconds :: "datetime \<Rightarrow> rat \<Rightarrow> exc + datetime" where
  "add_seconds t delay =
     (let us = timedelta_seconds delay; days = us div 86400000000
      in if days < - 2147483648 \<or> 2147483647 < days then Inl (OverflowError ''Python int too large to convert to C int'')
         else if 999999999 < \<bar>days\<bar>
         then Inl (OverflowError (''days='' @ show_int days @ ''; must have magnitude <= 999999999''))
         else if t + us < DATETIME_MIN \<or> DATETIME_MAX < t + us then Inl (OverflowError ''date value out of range'')
         else Inr (t + us))"

section \<open>The happy path\<close>

definition process_apply :: "registry \<Rightarrow> settings \<Rightarrow> datetime \<Rightarrow> stored_event \<Rightarrow> process_result prog" where
  "process_apply registry settings started_at event =
     bind_tx (next_attempt_number (se_id event)) (\<lambda>attempt_number.
     let attempts_used = se_attempt_count event + 1 in
     bind_tx (lock_entity (se_entity_type event) (se_entity_id event) (advisory_lock_timeout_seconds settings)) (\<lambda>_.
     bind_tx (lift_exc (dispatch registry event)) (\<lambda>effect.
     bind_tx (apply_effect event effect) (\<lambda>result.
     let outcome = SUCCESS result in
     bind_tx clock_now (\<lambda>finished_at.
     bind_tx (record_attempt (se_id event) attempt_number started_at finished_at outcome None None) (\<lambda>_.
     bind_tx (mark_succeeded (se_id event) attempts_used finished_at) (\<lambda>_.
     let label = known_event_type (se_event_type event) (event_types registry) in
     bind_tx (inc (EventsProcessed label (attempt_outcome_value outcome))) (\<lambda>_.
     bind_tx (inc (ProcessLatency label (total_seconds (finished_at - started_at)))) (\<lambda>_.
     return_tx \<lparr>pr_outcome = Some outcome, pr_effect = Some result\<rparr>)))))))))"

definition process_body :: "int \<Rightarrow> registry \<Rightarrow> settings \<Rightarrow> datetime \<Rightarrow> process_result prog" where
  "process_body event_id registry settings started_at =
     bind_tx (claim event_id started_at) (\<lambda>event. case event of
       None \<Rightarrow> return_tx NOT_CLAIMED
     | Some e \<Rightarrow> process_apply registry settings started_at e)"

section \<open>The failure path\<close>

definition retry_or_bury ::
  "int \<Rightarrow> exc \<Rightarrow> settings \<Rightarrow> py_str \<Rightarrow> int \<Rightarrow> int \<Rightarrow> datetime \<Rightarrow> unit prog" where
  "retry_or_bury event_id exc settings label attempt_number attempts_used finished_at =
     (let retryable = is_retryable exc; detail = redacted_detail exc;
          exhausted = max_attempts settings \<le> attempts_used
      in if retryable \<and> \<not> exhausted then
           bind_tx (draw_delay attempt_number (backoff_base_seconds settings) (backoff_cap_seconds settings)) (\<lambda>delay.
           bind_tx (lift_exc (add_seconds finished_at delay)) (\<lambda>next_attempt_at.
           bind_tx (reschedule event_id attempts_used next_attempt_at detail) (\<lambda>_.
           inc (EventsRetried label (class_name exc)))))
         else
           let reason = (if retryable then ''attempts exhausted'' else ''non-retryable failure'')
           in bind_tx (inc (EventsDeadLettered label reason)) (\<lambda>_.
              dead_letter event_id attempts_used (reason @ '' ('' @ class_name exc @ ''): '' @ detail)))"

definition record_failure_body :: "int \<Rightarrow> exc \<Rightarrow> registry \<Rightarrow> settings \<Rightarrow> datetime \<Rightarrow> process_result prog" where
  "record_failure_body event_id exc registry settings started_at =
     (let retryable = is_retryable exc;
          outcome = (if retryable then RETRYABLE_ERROR else NON_RETRYABLE_ERROR);
          detail = redacted_detail exc
      in bind_tx (load_for_update event_id) (\<lambda>event. case event of
           None \<Rightarrow> return_tx NOT_CLAIMED
         | Some e \<Rightarrow>
             bind_tx (next_attempt_number event_id) (\<lambda>attempt_number.
             let attempts_used = se_attempt_count e + 1 in
             bind_tx clock_now (\<lambda>finished_at.
             let label = known_event_type (se_event_type e) (event_types registry) in
             bind_tx (record_attempt event_id attempt_number started_at finished_at outcome
                        (Some (class_name exc)) (Some detail)) (\<lambda>_.
             bind_tx (retry_or_bury event_id exc settings label attempt_number attempts_used finished_at) (\<lambda>_.
             return_tx \<lparr>pr_outcome = Some outcome, pr_effect = None\<rparr>))))))"

definition record_failure :: "int \<Rightarrow> exc \<Rightarrow> registry \<Rightarrow> settings \<Rightarrow> datetime \<Rightarrow> process_result prog" where
  "record_failure event_id exc registry settings started_at =
     session_scope (record_failure_body event_id exc registry settings started_at)"

definition process_event :: "int \<Rightarrow> registry \<Rightarrow> settings \<Rightarrow> process_result prog" where
  "process_event event_id registry settings =
     bind_tx clock_now (\<lambda>started_at.
       catch_exception (session_scope (process_body event_id registry settings started_at))
         (\<lambda>exc. record_failure event_id exc registry settings started_at))"

section \<open>Frames and the invariant\<close>

lemmas ok_intros = inv.ok_bind inv.ok_simple ok_queue ok_queue_reads ok_lock_entity ok_keeps_apply_effect

lemma frame_process_apply [frame_intros]: "frame (process_apply reg st s e)"
  unfolding process_apply_def Let_def by (intro frame_intros)

lemma frame_process_body [frame_intros]: "frame (process_body i reg st s)"
  unfolding process_body_def by (intro frame_bind frame_queue) (auto intro!: frame_intros split: option.splits)

lemma frame_retry_or_bury [frame_intros]: "frame (retry_or_bury i e st l n u f)"
  unfolding retry_or_bury_def Let_def by (auto intro!: frame_intros)

lemma frame_record_failure_body [frame_intros]: "frame (record_failure_body i e reg st s)"
  unfolding record_failure_body_def Let_def
  by (intro frame_bind frame_queue) (auto intro!: frame_intros split: option.splits)

lemma frame_process_event [frame_intros]: "frame (process_event i reg st)"
  unfolding process_event_def record_failure_def by (intro frame_intros)

lemma ok_process_apply: "ok_keeps db_inv (process_apply reg st s e)"
  unfolding process_apply_def Let_def by (intro ok_intros)

lemma ok_process_body: "ok_keeps db_inv (process_body i reg st s)"
  unfolding process_body_def
  by (intro inv.ok_bind ok_queue_reads) (auto intro!: ok_intros ok_process_apply split: option.splits)

lemma ok_record_failure_body: "ok_keeps db_inv (record_failure_body i e reg st s)"
  unfolding record_failure_body_def retry_or_bury_def Let_def
  by (intro inv.ok_bind ok_queue_reads) (auto intro!: ok_intros split: option.splits)

lemma keeps_record_failure: "keeps db_inv (record_failure i e reg st s)"
  unfolding record_failure_def
  by (intro inv.keeps_session_scope frame_record_failure_body ok_record_failure_body)

lemma keeps_process_event: "keeps db_inv (process_event i reg st)"
  unfolding process_event_def
  by (intro inv.keeps_bind inv.keeps_simple inv.keeps_catch inv.keeps_session_scope frame_process_body ok_process_body
      keeps_record_failure)

section \<open>What a pass over an event does\<close>

lemma post_entry_tables [simp]:
  "webhook_event_t (post_entry now a e m f n t) = webhook_event_t t"
  "processing_attempt_t (post_entry now a e m f n t) = processing_attempt_t t"
  "dead_letter_entry_t (post_entry now a e m f n t) = dead_letter_entry_t t"
  "replay_request_t (post_entry now a e m f n t) = replay_request_t t"
  by (simp_all add: post_entry_def)

lemma upsert_tables [simp]:
  "webhook_event_t (upsert_account ref w) = webhook_event_t (tables w)"
  "processing_attempt_t (upsert_account ref w) = processing_attempt_t (tables w)"
  "dead_letter_entry_t (upsert_account ref w) = dead_letter_entry_t (tables w)"
  "replay_request_t (upsert_account ref w) = replay_request_t (tables w)"
  by (simp_all add: upsert_account_def)

text \<open>An effect touches the accounts and the ledger only, and leaves a ledger row of the event
  behind unless it was superseded.\<close>

lemma apply_effect_other:
  assumes inv: "db_inv (tables w) (seqs w)" and run: "apply_effect ev eff w = (Inr res, w')"
  shows "webhook_event_t (tables w') = webhook_event_t (tables w)"
    and "processing_attempt_t (tables w') = processing_attempt_t (tables w)"
    and "dead_letter_entry_t (tables w') = dead_letter_entry_t (tables w)"
    and "replay_request_t (tables w') = replay_request_t (tables w)"
    and "sq_attempt (seqs w') = sq_attempt (seqs w)"
proof -
  have k: "keys_ok (tables w) (seqs w)" "seqs_ok (seqs w)" using inv by (simp_all add: db_inv_def)
  have "webhook_event_t (tables w') = webhook_event_t (tables w)
    \<and> processing_attempt_t (tables w') = processing_attempt_t (tables w)
    \<and> dead_letter_entry_t (tables w') = dead_letter_entry_t (tables w)
    \<and> replay_request_t (tables w') = replay_request_t (tables w) \<and> sq_attempt (seqs w') = sq_attempt (seqs w)"
  proof (cases eff)
    case (Credit ref amount)
    then have "apply_credit ev ref amount w = (Inr res, w')" using run by (simp add: apply_effect_def)
    then show ?thesis by (cases rule: apply_credit_ok) simp_all
  next
    case (SetBalance ref balance sq)
    then have "apply_set_balance ev ref balance sq w = (Inr res, w')" using run by (simp add: apply_effect_def)
    from this k show ?thesis by (cases rule: apply_set_balance_ok) simp_all
  qed
  then show "webhook_event_t (tables w') = webhook_event_t (tables w)"
    and "processing_attempt_t (tables w') = processing_attempt_t (tables w)"
    and "dead_letter_entry_t (tables w') = dead_letter_entry_t (tables w)"
    and "replay_request_t (tables w') = replay_request_t (tables w)"
    and "sq_attempt (seqs w') = sq_attempt (seqs w)" by blast+
qed

definition succeeded_event :: "int \<Rightarrow> datetime \<Rightarrow> webhook_event \<Rightarrow> webhook_event" where
  "succeeded_event used now e = e\<lparr>ev_status := SUCCEEDED, ev_attempt_count := used,
     ev_processed_at := Some now, ev_last_error := None\<rparr>"

lemma mark_succeeded_ok:
  assumes "mark_succeeded i n now w = (Inr u, w')"
  shows "w' = (tick_stmt w)\<lparr>tables := update_event i (succeeded_event n now) (tables w)\<rparr>"
  using assms by (auto simp: mark_succeeded_def tx_simps succeeded_event_def [abs_def] split: if_splits)

lemma claim_ok:
  assumes "claim i now w = (Inr ev, w')"
  shows "w' = tick_stmt w"
    and "ev = Some e \<Longrightarrow> \<exists>row \<in> set (webhook_event_t (tables w)). ev_id row = i \<and> is_due now row \<and> e = to_domain row"
proof -
  show "w' = tick_stmt w" using assms by (simp add: claim_def tx_simps)
  assume "ev = Some e"
  with assms obtain row where "to_domain row = e"
      "find_row (\<lambda>e. ev_id e = i \<and> is_due now e \<and> \<not> row_locked (env w) (Suc (stmts w)) i) (webhook_event_t (tables w)) = Some row"
    by (auto simp: claim_def tx_simps eq_commute [of "Some _"])
  then show "\<exists>row \<in> set (webhook_event_t (tables w)). ev_id row = i \<and> is_due now row \<and> e = to_domain row"
    by (auto dest: find_row_Some)
qed

text \<open>The successful pass: the claimed row, the effect the handler asked for, one more attempt, the
  event marked.\<close>

lemma process_body_ok:
  assumes inv: "db_inv (tables w) (seqs w)" and run: "process_body i reg st s w = (Inr r, w')"
  obtains (skipped) "r = NOT_CLAIMED" "tables w' = tables w"
  | (passed) row eff res w1 w2 n f where
      "row \<in> set (webhook_event_t (tables w))" "ev_id row = i" "is_due s row"
      "dispatch reg (to_domain row) = Inr eff"
      "tables w1 = tables w" "seqs w1 = seqs w"
      "advisory w1 = advisory_lock_key (blake2b8 (env w)) (ev_entity_type row) (ev_entity_id row) # advisory w"
      "apply_effect (to_domain row) eff w1 = (Inr res, w2)"
      "\<forall>a \<in> set (attempts_of i (tables w)). pa_attempt_number a < n"
      "r = \<lparr>pr_outcome = Some (SUCCESS res), pr_effect = Some res\<rparr>"
      "tables w' = update_event i (succeeded_event (ev_attempt_count row + 1) f)
         ((tables w2)\<lparr>processing_attempt_t := processing_attempt_t (tables w) @
            [attempt_row (sq_attempt (seqs w)) i n s f (SUCCESS res) None None]\<rparr>)"
proof -
  from run obtain ev wa where c: "claim i s w = (Inr ev, wa)" and
    rest: "(case ev of None \<Rightarrow> return_tx NOT_CLAIMED | Some e \<Rightarrow> process_apply reg st s e) wa = (Inr r, w')"
    by (auto simp: process_body_def tx_simps)
  note c' = claim_ok [OF c]
  show ?thesis
  proof (cases ev)
    case None
    then show ?thesis using rest c'(1) by (intro skipped) (simp_all add: tx_simps)
  next
    case (Some e)
    then obtain row where row: "row \<in> set (webhook_event_t (tables w))" "ev_id row = i" "is_due s row" "e = to_domain row"
      using c'(2) by blast
    have e: "se_id e = i" "se_attempt_count e = ev_attempt_count row" "se_entity_type e = ev_entity_type row"
      "se_entity_id e = ev_entity_id row" using row by (simp_all add: to_domain_def)
    from rest Some obtain n wb u1 wc eff res wd u2 we u3 wf f wm where
      b: "next_attempt_number i wa = (Inr n, wb)" and
      cc: "lock_entity (ev_entity_type row) (ev_entity_id row) (advisory_lock_timeout_seconds st) wb = (Inr u1, wc)" and
      d: "dispatch reg e = Inr eff" and
      ap: "apply_effect e eff wc = (Inr res, wd)" and
      f: "f = app_clock (env wd) (ticks wd)" "we = wd\<lparr>ticks := Suc (ticks wd)\<rparr>" and
      ra: "record_attempt i n s f (SUCCESS res) None None we = (Inr u2, wf)" and
      ms: "mark_succeeded i (ev_attempt_count row + 1) f wf = (Inr u3, wm)" and
      w': "tables w' = tables wm" and r: "r = \<lparr>pr_outcome = Some (SUCCESS res), pr_effect = Some res\<rparr>"
      by (auto simp: process_apply_def Let_def tx_simps e)
    note b' = next_attempt_number_ok [OF b] and l = lock_entity_ok [OF cc]
    have same: "tables wc = tables w" "seqs wc = seqs w" "env wb = env w" "advisory wb = advisory w"
      using l(1,2) b'(1) c'(1) by simp_all
    have inv': "db_inv (tables wc) (seqs wc)" using inv same by simp
    note o = apply_effect_other [OF inv' ap]
    show ?thesis
    proof (rule passed [of row eff wc res wd n f])
      show "row \<in> set (webhook_event_t (tables w))" "ev_id row = i" "is_due s row" by (fact row)+
      show "dispatch reg (to_domain row) = Inr eff" "apply_effect (to_domain row) eff wc = (Inr res, wd)"
        using d ap row(4) by simp_all
      show "tables wc = tables w" "seqs wc = seqs w" by (fact same)+
      show "advisory wc = advisory_lock_key (blake2b8 (env w)) (ev_entity_type row) (ev_entity_id row) # advisory w"
        using l(8) same by simp
      show "\<forall>a \<in> set (attempts_of i (tables w)). pa_attempt_number a < n" using b'(2) c'(1) by simp
      show "r = \<lparr>pr_outcome = Some (SUCCESS res), pr_effect = Some res\<rparr>" by (fact r)
      show "tables w' = update_event i (succeeded_event (ev_attempt_count row + 1) f)
         ((tables wd)\<lparr>processing_attempt_t := processing_attempt_t (tables w) @
            [attempt_row (sq_attempt (seqs w)) i n s f (SUCCESS res) None None]\<rparr>)"
        unfolding w' using mark_succeeded_ok [OF ms] record_attempt_ok(1) [OF ra] f(2) o same by simp
    qed
  qed
qed


definition rescheduled :: "int \<Rightarrow> datetime \<Rightarrow> py_str \<Rightarrow> webhook_event \<Rightarrow> webhook_event" where
  "rescheduled used nxt err e = e\<lparr>ev_status := PENDING, ev_attempt_count := used,
     ev_next_attempt_at := nxt, ev_last_error := Some err\<rparr>"

lemma reschedule_ok:
  assumes "reschedule i n nxt err w = (Inr u, w')"
  shows "w' = (tick_stmt w)\<lparr>tables := update_event i (rescheduled n nxt err) (tables w)\<rparr>"
  using assms by (auto simp: reschedule_def tx_simps rescheduled_def [abs_def] split: if_splits)

text \<open>The class of the failure, the text stored with it, and the reason of the dead-letter entry.\<close>

definition failure_outcome :: "exc \<Rightarrow> attempt_outcome" where
  "failure_outcome e = (if is_retryable e then RETRYABLE_ERROR else NON_RETRYABLE_ERROR)"

definition dlq_reason :: "exc \<Rightarrow> py_str" where
  "dlq_reason e = (if is_retryable e then ''attempts exhausted'' else ''non-retryable failure'')
     @ '' ('' @ class_name e @ ''): '' @ redacted_detail e"

definition with_attempt :: "processing_attempt \<Rightarrow> tables \<Rightarrow> tables" where
  "with_attempt a t = t\<lparr>processing_attempt_t := processing_attempt_t t @ [a]\<rparr>"

lemma with_attempt_tables [simp]:
  "webhook_event_t (with_attempt a t) = webhook_event_t t"
  "dead_letter_entry_t (with_attempt a t) = dead_letter_entry_t t"
  "replay_request_t (with_attempt a t) = replay_request_t t"
  "account_t (with_attempt a t) = account_t t"
  "ledger_entry_t (with_attempt a t) = ledger_entry_t t"
  "processing_attempt_t (with_attempt a t) = processing_attempt_t t @ [a]"
  by (simp_all add: with_attempt_def)

text \<open>What becomes of the event after a failed attempt.\<close>

lemma retry_or_bury_ok:
  assumes run: "retry_or_bury i exc st lab n used f w = (Inr u, w')"
  obtains (retried) delay nxt where "is_retryable exc" "used < max_attempts st"
      "\<exists>g g'. next_delay_seconds rng_uniform n (backoff_base_seconds st) (backoff_cap_seconds st) g = Inr (delay, g')"
      "add_seconds f delay = Inr nxt" "tables w' = update_event i (rescheduled used nxt (redacted_detail exc)) (tables w)"
  | (buried) m where "\<not> is_retryable exc \<or> max_attempts st \<le> used"
      "tables w' = update_event i (dead_lettered used (dlq_reason exc)) (with_dead_letter (tx_now w) i (dlq_reason exc) used m (tables w))"
proof (cases "is_retryable exc \<and> \<not> max_attempts st \<le> used")
  case True
  with run obtain delay wx nxt wy u3 where
    d: "draw_delay n (backoff_base_seconds st) (backoff_cap_seconds st) w = (Inr delay, wx)" and
    nx: "add_seconds f delay = Inr nxt" and
    rs: "reschedule i used nxt (redacted_detail exc) wx = (Inr u3, wy)" and w': "tables w' = tables wy"
    by (auto simp: retry_or_bury_def Let_def tx_simps)
  from draw_delay_ok [OF d] have "tables wx = tables w"
    "\<exists>g g'. next_delay_seconds rng_uniform n (backoff_base_seconds st) (backoff_cap_seconds st) g = Inr (delay, g')" by auto
  then show ?thesis using True nx reschedule_ok [OF rs] w' by (intro retried [of delay nxt]) simp_all
next
  case False
  let ?wx = "w\<lparr>metrics := metrics w @ [EventsDeadLettered lab (if is_retryable exc then ''attempts exhausted'' else ''non-retryable failure'')]\<rparr>"
  have dl: "dead_letter i used (dlq_reason exc) ?wx = (Inr u, w')"
    using run [unfolded retry_or_bury_def Let_def, folded dlq_reason_def] False by (auto simp: tx_simps simp del: append.simps)
  from False show ?thesis using dead_letter_ok(1) [OF dl] by (intro buried [of "sq_dlq (seqs w)"]) auto
qed

lemma record_failure_body_ok:
  assumes run: "record_failure_body i exc reg st s w = (Inr r, w')"
  obtains (vanished) "r = NOT_CLAIMED" "tables w' = tables w" "i \<notin> event_ids (tables w)"
  | (retried) row n f delay nxt where
      "find_row (\<lambda>e. ev_id e = i) (webhook_event_t (tables w)) = Some row"
      "is_retryable exc" "ev_attempt_count row + 1 < max_attempts st"
      "\<forall>a \<in> set (attempts_of i (tables w)). pa_attempt_number a < n" "1 \<le> n"
      "r = \<lparr>pr_outcome = Some RETRYABLE_ERROR, pr_effect = None\<rparr>"
      "\<exists>g g'. next_delay_seconds rng_uniform n (backoff_base_seconds st) (backoff_cap_seconds st) g = Inr (delay, g')"
      "add_seconds f delay = Inr nxt"
      "tables w' = update_event i (rescheduled (ev_attempt_count row + 1) nxt (redacted_detail exc))
         (with_attempt (attempt_row (sq_attempt (seqs w)) i n s f RETRYABLE_ERROR (Some (class_name exc)) (Some (redacted_detail exc))) (tables w))"
  | (buried) row n f m where
      "find_row (\<lambda>e. ev_id e = i) (webhook_event_t (tables w)) = Some row"
      "\<not> is_retryable exc \<or> max_attempts st \<le> ev_attempt_count row + 1"
      "\<forall>a \<in> set (attempts_of i (tables w)). pa_attempt_number a < n" "1 \<le> n"
      "r = \<lparr>pr_outcome = Some (failure_outcome exc), pr_effect = None\<rparr>"
      "tables w' = update_event i (dead_lettered (ev_attempt_count row + 1) (dlq_reason exc))
         (with_dead_letter (tx_now w) i (dlq_reason exc) (ev_attempt_count row + 1) m
         (with_attempt (attempt_row (sq_attempt (seqs w)) i n s f (failure_outcome exc) (Some (class_name exc)) (Some (redacted_detail exc))) (tables w)))"
proof -
  from run [unfolded record_failure_body_def Let_def, folded failure_outcome_def]
  obtain ev wa where l: "load_for_update i w = (Inr ev, wa)" and
    rest: "(case ev of None \<Rightarrow> return_tx NOT_CLAIMED | Some e \<Rightarrow>
             bind_tx (next_attempt_number i) (\<lambda>n.
             bind_tx clock_now (\<lambda>f.
             bind_tx (record_attempt i n s f (failure_outcome exc) (Some (class_name exc)) (Some (redacted_detail exc))) (\<lambda>_.
             bind_tx (retry_or_bury i exc st (known_event_type (se_event_type e) (event_types reg)) n (se_attempt_count e + 1) f) (\<lambda>_.
             return_tx \<lparr>pr_outcome = Some (failure_outcome exc), pr_effect = None\<rparr>))))) wa = (Inr r, w')"
    by (auto simp: tx_simps(4))
  from l have wa: "wa = tick_stmt w" and ev: "ev = map_option to_domain (find_row (\<lambda>e. ev_id e = i) (webhook_event_t (tables w)))"
    by (simp_all add: load_for_update_def tx_simps)
  show ?thesis
  proof (cases "find_row (\<lambda>e. ev_id e = i) (webhook_event_t (tables w))")
    case None
    have "i \<notin> event_ids (tables w)" using None by (auto simp: event_ids_def)
    moreover have "r = NOT_CLAIMED" "tables w' = tables w"
      using rest None ev wa by (simp_all add: tx_simps del: find_row_None)
    ultimately show ?thesis by (intro vanished)
  next
    case (Some row)
    then have e: "ev = Some (to_domain row)" "se_attempt_count (to_domain row) = ev_attempt_count row"
      using ev by (simp_all add: to_domain_def)
    define used where "used = ev_attempt_count row + 1"
    define lab where "lab = known_event_type (se_event_type (to_domain row)) (event_types reg)"
    from rest [unfolded e option.case, folded used_def lab_def] obtain n wb f wc u wd u2 we where
      b: "next_attempt_number i wa = (Inr n, wb)" and
      f: "wc = wb\<lparr>ticks := Suc (ticks wb)\<rparr>" and
      ra: "record_attempt i n s f (failure_outcome exc) (Some (class_name exc)) (Some (redacted_detail exc)) wc = (Inr u, wd)" and
      rb: "retry_or_bury i exc st lab n used f wd = (Inr u2, we)" and
      w': "tables w' = tables we" and r: "r = \<lparr>pr_outcome = Some (failure_outcome exc), pr_effect = None\<rparr>"
      by (auto simp: tx_simps)
    note b' = next_attempt_number_ok [OF b] and ra' = record_attempt_ok [OF ra]
    let ?row = "attempt_row (sq_attempt (seqs w)) i n s f (failure_outcome exc) (Some (class_name exc)) (Some (redacted_detail exc))"
    have wd: "tables wd = with_attempt ?row (tables w)" "tx_now wd = tx_now w"
      using ra'(1) f b'(1) wa by (simp_all add: with_attempt_def)
    have n: "\<forall>a \<in> set (attempts_of i (tables w)). pa_attempt_number a < n" "1 \<le> n" using b'(2) ra'(2) wa by simp_all
    from rb show ?thesis
    proof (cases rule: retry_or_bury_ok)
      case (retried delay nxt)
      with w' wd Some n r show ?thesis
        by (intro that(2) [of row n delay f nxt]) (simp_all add: used_def failure_outcome_def)
    next
      case (buried m)
      with w' wd Some n r show ?thesis by (intro that(3) [of row n m f]) (simp_all add: used_def)
    qed
  qed
qed

lemma add_seconds_range:
  "add_seconds t d = Inr t' \<Longrightarrow> t' = t + timedelta_seconds d"
  by (auto simp: add_seconds_def Let_def split: if_splits)

lemma update_event_mem:
  assumes "e \<in> set (webhook_event_t (update_event i f t))"
  obtains e0 where "e0 \<in> set (webhook_event_t t)" "ev_id e0 = i" "e = f e0" | "e \<in> set (webhook_event_t t)" "ev_id e \<noteq> i"
proof -
  from assms obtain e0 where "e0 \<in> set (webhook_event_t t)" "e = (if ev_id e0 = i then f e0 else e0)"
    by (auto simp: update_event_def dest!: update_where_memD)
  then show thesis using that by (cases "ev_id e0 = i") auto
qed

text \<open>The row of an event after an update of that event.\<close>

lemma find_updated_event:
  assumes "find_row (\<lambda>e. ev_id e = i) (webhook_event_t t) = Some row" "\<And>e. ev_id (f e) = ev_id e"
  shows "find_row (\<lambda>e. ev_id e = i) (webhook_event_t (update_event i f t)) = Some (f row)"
  using assms find_row_Some [OF assms(1)] by (simp add: update_event_def find_row_update_where)

lemma find_event:
  assumes "keys_ok t s" "row \<in> set (webhook_event_t t)" "ev_id row = i"
  shows "find_row (\<lambda>e. ev_id e = i) (webhook_event_t t) = Some row"
  using assms event_unique [OF assms(1)] by (intro find_row_unique) auto

lemma with_dead_letter_present:
  "\<exists>d \<in> set (dead_letter_entry_t (with_dead_letter now e why n i t)). dl_event_id d = e"
  using with_dead_letter_entries(3) [of e now why n i t] by auto

text \<open>C9. The decision after a failure. A retryable failure with budget left returns the event to the
  queue, one attempt spent, due again not before the failure and not later than the backoff cap; any other
  failure moves it to the dead-letter state with an entry of its own, in the same transaction. Either
  way the attempt is on record with the failure's class and outcome, and no ledger row or balance moved.\<close>

theorem failure_decides:
  assumes run: "record_failure i exc reg st s w = (Inr r, w')"
    and here: "find_row (\<lambda>e. ev_id e = i) (webhook_event_t (tables w)) = Some row"
    and cfg: "is_double (backoff_cap_seconds st)" "0 \<le> backoff_cap_seconds st" "0 \<le> backoff_base_seconds st"
  shows "\<exists>row' a.
      find_row (\<lambda>e. ev_id e = i) (webhook_event_t (tables w')) = Some row'
    \<and> processing_attempt_t (tables w') = processing_attempt_t (tables w) @ [a]
    \<and> pa_event_id a = i \<and> pa_outcome a = Some (failure_outcome exc) \<and> pa_error_class a = Some (class_name exc)
    \<and> ev_attempt_count row' = ev_attempt_count row + 1
    \<and> ledger_entry_t (tables w') = ledger_entry_t (tables w) \<and> account_t (tables w') = account_t (tables w)
    \<and> (if is_retryable exc \<and> ev_attempt_count row + 1 < max_attempts st
       then ev_status row' = PENDING
          \<and> (\<exists>f. pa_finished_at a = Some f \<and> f \<le> ev_next_attempt_at row'
                \<and> ev_next_attempt_at row' \<le> f + timedelta_seconds (backoff_cap_seconds st))
       else ev_status row' = DEAD_LETTERED
          \<and> (\<exists>d \<in> set (dead_letter_entry_t (tables w')). dl_event_id d = i))"
proof -
  from run obtain w1 where b: "record_failure_body i exc reg st s (begin_tx w) = (Inr r, w1)" and t: "tables w' = tables w1"
    unfolding record_failure_def by (cases rule: session_scope_cases) auto
  show ?thesis
  proof (cases rule: record_failure_body_ok [OF b])
    case 1
    with here show ?thesis by (auto simp: event_ids_def dest: find_row_Some)
  next
    case (2 row2 n f delay nxt)
    have row: "row2 = row" using 2(1) here by simp
    obtain g g' where "next_delay_seconds rng_uniform n (backoff_base_seconds st) (backoff_cap_seconds st) g = Inr (delay, g')"
      using 2(7) by blast
    with sys_rng.delay_within [OF 2(5) cfg, of g] delay_ceiling_le_cap [of n "backoff_base_seconds st" "backoff_cap_seconds st"]
    have d: "0 \<le> delay" "delay \<le> backoff_cap_seconds st" by auto
    have "f \<le> nxt" "nxt \<le> f + timedelta_seconds (backoff_cap_seconds st)"
      using add_seconds_range [OF 2(8)] timedelta_seconds_mono [OF d] by simp_all
    then show ?thesis
      unfolding t 2(9) row using 2(2,3) here
      by (subst find_updated_event) (auto simp: rescheduled_def attempt_row_def failure_outcome_def row)
  next
    case (3 row2 n f m)
    have row: "row2 = row" using 3(1) here by simp
    show ?thesis
      unfolding t 3(6) row using 3(2) here
      by (subst find_updated_event) (auto simp: dead_lettered_def attempt_row_def row with_dead_letter_present)
  qed
qed


text \<open>A pass that reports an effect is one whose processing transaction committed.\<close>

lemma process_event_reported:
  assumes run: "process_event i reg st w = (Inr r, w')" and eff: "pr_effect r = Some res"
  obtains w1 where "process_body i reg st (app_clock (env w) (ticks w)) (begin_tx (w\<lparr>ticks := Suc (ticks w)\<rparr>)) = (Inr r, w1)"
    "tables w' = tables w1"
proof -
  let ?s = "app_clock (env w) (ticks w)" and ?w = "w\<lparr>ticks := Suc (ticks w)\<rparr>"
  have c: "clock_now w = (Inr ?s, ?w)" by (simp add: clock_now_def)
  obtain x w0 where ss: "session_scope (process_body i reg st ?s) ?w = (x, w0)" by (cases "session_scope (process_body i reg st ?s) ?w")
  have x: "x = Inr r \<and> w' = w0"
  proof (cases x)
    case (Inl e)
    with run c ss have "record_failure i e reg st ?s w0 = (Inr r, w')"
      by (auto simp: process_event_def bind_tx_def catch_exception_def split: if_splits)
    then obtain w1 where "record_failure_body i e reg st ?s (begin_tx w0) = (Inr r, w1)"
      unfolding record_failure_def by (cases rule: session_scope_cases) auto
    then have "pr_effect r = None" by (cases rule: record_failure_body_ok) (simp_all add: NOT_CLAIMED_def)
    with eff show ?thesis by simp
  next
    case (Inr q)
    with run c ss show ?thesis by (auto simp: process_event_def bind_tx_def catch_exception_def)
  qed
  with ss obtain w1 where b: "process_body i reg st ?s (begin_tx ?w) = (Inr r, w1)" and t: "tables w' = tables w1"
    by (auto elim: session_scope_cases)
  then show thesis by (rule that)
qed

lemma reported_refines:
  assumes inv: "db_inv (tables w) (seqs w)"
    and run: "process_event i reg st w = (Inr r, w')" and eff: "pr_effect r = Some res"
  obtains row :: webhook_event and eff where
    "spec_effect i (ev_provider_sequence row) eff (ledger_abs (tables w)) = (res, ledger_abs (tables w'))"
proof -
  let ?w = "w\<lparr>ticks := Suc (ticks w)\<rparr>"
  from process_event_reported [OF run eff] obtain w1 where
    b: "process_body i reg st (app_clock (env w) (ticks w)) (begin_tx ?w) = (Inr r, w1)" and t: "tables w' = tables w1" .
  have inv': "db_inv (tables (begin_tx ?w)) (seqs (begin_tx ?w))" using inv by simp
  show thesis
  proof (cases rule: process_body_ok [OF inv' b])
    case 1
    with eff show ?thesis by (simp add: NOT_CLAIMED_def)
  next
    case (2 row e res2 wa wb n f)
    have ia: "db_inv (tables wa) (seqs wa)" using 2(5,6) inv by simp
    have "ledger_abs (tables w') = ledger_abs (tables wb)"
      unfolding t 2(11) by (simp add: ledger_abs_def update_event_def)
    then have "spec_effect i (ev_provider_sequence row) e (ledger_abs (tables w)) = (res, ledger_abs (tables w'))"
      using apply_effect_refines [OF ia 2(8)] 2(2,5,10) eff by (simp add: to_domain_def)
    then show ?thesis by (rule that)
  qed
qed

text \<open>C1. A pass that reports an effect. The event was due when it was claimed; the handler's effect was
  performed on the ledger exactly as the specification says, under the entity's advisory lock; the event is
  succeeded, with its budget counted and its error cleared; and one attempt was appended whose outcome is
  the one reported.\<close>

theorem process_success:
  assumes inv: "db_inv (tables w) (seqs w)"
    and run: "process_event i reg st w = (Inr r, w')" and eff: "pr_effect r = Some res"
  shows "\<exists>row eff row' a.
      find_row (\<lambda>e. ev_id e = i) (webhook_event_t (tables w)) = Some row
    \<and> is_due (app_clock (env w) (ticks w)) row
    \<and> dispatch reg (to_domain row) = Inr eff
    \<and> spec_effect i (ev_provider_sequence row) eff (ledger_abs (tables w)) = (res, ledger_abs (tables w'))
    \<and> find_row (\<lambda>e. ev_id e = i) (webhook_event_t (tables w')) = Some row'
    \<and> ev_status row' = SUCCEEDED \<and> ev_attempt_count row' = ev_attempt_count row + 1 \<and> ev_last_error row' = None
    \<and> processing_attempt_t (tables w') = processing_attempt_t (tables w) @ [a]
    \<and> pa_event_id a = i \<and> pa_outcome a = Some (SUCCESS res) \<and> pr_outcome r = Some (SUCCESS res)"
proof -
  let ?s = "app_clock (env w) (ticks w)" and ?w = "w\<lparr>ticks := Suc (ticks w)\<rparr>"
  from process_event_reported [OF run eff] obtain w1 where
    b: "process_body i reg st ?s (begin_tx ?w) = (Inr r, w1)" and t: "tables w' = tables w1" .
  have inv': "db_inv (tables (begin_tx ?w)) (seqs (begin_tx ?w))" using inv by simp
  have k: "keys_ok (tables w) (seqs w)" using inv by (simp add: db_inv_def)
  show ?thesis
  proof (cases rule: process_body_ok [OF inv' b])
    case 1
    with eff show ?thesis by (simp add: NOT_CLAIMED_def)
  next
    case (2 row e res2 wa wb n f)
    have res: "res2 = res" using 2(10) eff by simp
    have ia: "db_inv (tables wa) (seqs wa)" using 2(5,6) inv by simp
    have row: "find_row (\<lambda>e. ev_id e = i) (webhook_event_t (tables w)) = Some row"
      using find_event [OF k] 2(1,2) by simp
    have abs: "ledger_abs (tables w') = ledger_abs (tables wb)"
      unfolding t 2(11) by (simp add: ledger_abs_def update_event_def)
    have sp: "spec_effect i (ev_provider_sequence row) e (ledger_abs (tables w)) = (res, ledger_abs (tables w'))"
      using apply_effect_refines [OF ia 2(8)] 2(2,5) by (simp add: res abs to_domain_def)
    have ev: "webhook_event_t (tables wb) = webhook_event_t (tables w)"
      using apply_effect_other(1) [OF ia 2(8)] 2(5) by simp
    have row': "find_row (\<lambda>e. ev_id e = i) (webhook_event_t (tables w')) = Some (succeeded_event (ev_attempt_count row + 1) f row)"
      unfolding t 2(11) by (rule find_updated_event) (simp_all add: ev row succeeded_event_def)
    have att: "processing_attempt_t (tables w') = processing_attempt_t (tables w)
        @ [attempt_row (sq_attempt (seqs w)) i n ?s f (SUCCESS res) None None]"
      unfolding t 2(11) by (simp add: res)
    show ?thesis
    proof (intro exI conjI)
      show "is_due ?s row" "dispatch reg (to_domain row) = Inr e" by (fact 2(3,4))+
      show "pr_outcome r = Some (SUCCESS res)" by (simp add: 2(10) res)
    qed (rule row sp row' att | simp add: succeeded_event_def attempt_row_def)+
  qed
qed


lemma record_failure_ledger:
  assumes "record_failure i exc reg st s w = (x, w')"
  shows "ledger_entry_t (tables w') = ledger_entry_t (tables w)" "account_t (tables w') = account_t (tables w)"
    "\<exists>xs. processing_attempt_t (tables w') = processing_attempt_t (tables w) @ xs"
proof -
  have "ledger_entry_t (tables w') = ledger_entry_t (tables w) \<and> account_t (tables w') = account_t (tables w)
     \<and> (\<exists>xs. processing_attempt_t (tables w') = processing_attempt_t (tables w) @ xs)"
    using assms unfolding record_failure_def
  proof (cases rule: session_scope_cases)
    case (committed a w1)
    show ?thesis
      by (cases rule: record_failure_body_ok [OF committed(1)]) (simp_all add: committed(2))
  qed simp
  then show "ledger_entry_t (tables w') = ledger_entry_t (tables w)" "account_t (tables w') = account_t (tables w)"
    "\<exists>xs. processing_attempt_t (tables w') = processing_attempt_t (tables w) @ xs" by blast+
qed

lemma spec_effect_changes:
  assumes "spec_effect e sq eff s = (res, s')" "s' \<noteq> s"
  shows "res = APPLIED" "e \<notin> sp_applied s" "sp_applied s' = insert e (sp_applied s)"
  using assms led.step_applied [of "(e, sq, eff)" s s'] led.step_refused [of "(e, sq, eff)" s res s'] by auto

text \<open>The processing transaction, however it ends: nothing happened, or the whole pass did.\<close>

lemma process_scope_cases:
  assumes inv: "db_inv (tables w) (seqs w)"
    and run: "session_scope (process_body i reg st s) w = (x, w')"
  obtains (nothing) "tables w' = tables w"
  | (whole) row eff res a where "row \<in> set (webhook_event_t (tables w))" "ev_id row = i"
      "spec_effect i (ev_provider_sequence row) eff (ledger_abs (tables w)) = (res, ledger_abs (tables w'))"
      "processing_attempt_t (tables w') = processing_attempt_t (tables w) @ [a]" "pa_event_id a = i"
      "pa_outcome a = Some (SUCCESS res)" "\<forall>b \<in> set (processing_attempt_t (tables w)). pa_key b \<noteq> pa_key a"
      "\<forall>e \<in> set (webhook_event_t (tables w')). ev_id e = i \<longrightarrow> ev_status e = SUCCEEDED"
  using run
proof (cases rule: session_scope_cases)
  case (committed q w1)
  have inv': "db_inv (tables (begin_tx w)) (seqs (begin_tx w))" using inv by simp
  have t: "tables w' = tables w1" using committed(2) by simp
  show ?thesis
  proof (cases rule: process_body_ok [OF inv' committed(1)])
    case 1
    then have "tables w' = tables w" using t by simp
    then show ?thesis by (rule nothing)
  next
    case (2 row e res wa wb n f)
    have ia: "db_inv (tables wa) (seqs wa)" using 2(5,6) inv by simp
    have "ledger_abs (tables w') = ledger_abs (tables wb)" by (simp add: t 2(11) ledger_abs_def update_event_def)
    then have sp: "spec_effect i (ev_provider_sequence row) e (ledger_abs (tables w)) = (res, ledger_abs (tables w'))"
      using apply_effect_refines [OF ia 2(8)] 2(2,5) by (simp add: to_domain_def)
    show ?thesis
    proof (rule whole [OF _ 2(2) sp])
      show "row \<in> set (webhook_event_t (tables w))" using 2(1) by simp
      show "processing_attempt_t (tables w') = processing_attempt_t (tables w) @ [attempt_row (sq_attempt (seqs w)) i n s f (SUCCESS res) None None]"
        by (simp add: t 2(11))
      show "\<forall>b \<in> set (processing_attempt_t (tables w)). pa_key b \<noteq> pa_key (attempt_row (sq_attempt (seqs w)) i n s f (SUCCESS res) None None)"
        using 2(9) by (auto simp: attempts_of_def pa_key_def attempt_row_def)
      show "\<forall>e \<in> set (webhook_event_t (tables w')). ev_id e = i \<longrightarrow> ev_status e = SUCCEEDED"
      proof (intro ballI impI)
        fix e assume "e \<in> set (webhook_event_t (tables w'))" "ev_id e = i"
        from this(1) [unfolded t 2(11)] show "ev_status e = SUCCEEDED"
          by (rule update_event_mem) (use \<open>ev_id e = i\<close> in \<open>simp_all add: succeeded_event_def\<close>)
      qed
    qed (simp_all add: attempt_row_def)
  qed
next
  case rolled_back
  from rolled_back(3) show ?thesis by (rule nothing)
qed

text \<open>C3. Money moves only with its record. However a pass ends -- reported, refused, failed at any
  statement, killed, or with its commit's acknowledgement lost -- if the ledger or a balance
  changed at all, then this event's effect was applied for the first time and a succeeded attempt of this
  event, not there before, is on record.\<close>

theorem effect_has_record:
  assumes inv: "db_inv (tables w) (seqs w)"
    and run: "process_event i reg st w = (x, w')"
    and moved: "ledger_abs (tables w') \<noteq> ledger_abs (tables w)"
  shows "i \<notin> le_event_id ` set (ledger_entry_t (tables w))
    \<and> le_event_id ` set (ledger_entry_t (tables w')) = insert i (le_event_id ` set (ledger_entry_t (tables w)))
    \<and> (\<exists>a \<in> set (processing_attempt_t (tables w')) - set (processing_attempt_t (tables w)).
         pa_event_id a = i \<and> pa_outcome a = Some ATT_SUCCEEDED)"
proof -
  let ?s = "app_clock (env w) (ticks w)" and ?w = "w\<lparr>ticks := Suc (ticks w)\<rparr>"
  obtain y w0 where ss: "session_scope (process_body i reg st ?s) ?w = (y, w0)" by (cases "session_scope (process_body i reg st ?s) ?w")
  have tail: "ledger_entry_t (tables w') = ledger_entry_t (tables w0) \<and> account_t (tables w') = account_t (tables w0)
      \<and> (\<exists>xs. processing_attempt_t (tables w') = processing_attempt_t (tables w0) @ xs)"
    using run ss record_failure_ledger
    by (cases y) (auto simp: process_event_def bind_tx_def clock_now_def catch_exception_def split: if_splits)
  then have abs: "ledger_abs (tables w') = ledger_abs (tables w0)" by (simp add: ledger_abs_def)
  have inv': "db_inv (tables ?w) (seqs ?w)" using inv by simp
  show ?thesis
  proof (cases rule: process_scope_cases [OF inv' ss])
    case 1
    with abs moved show ?thesis by simp
  next
    case (2 row eff res a)
    from 2(3) abs moved have ne: "ledger_abs (tables w0) \<noteq> ledger_abs (tables w)" by simp
    note c = spec_effect_changes [OF 2(3) [simplified] ne]
    have "a \<in> set (processing_attempt_t (tables w'))" "a \<notin> set (processing_attempt_t (tables w))"
      using tail 2(4,7) by auto
    with c 2(5,6) tail show ?thesis by (auto simp: ledger_abs_def)
  qed
qed

end
