(* ===== verification/Replay.thy ===== *)
theory Replay
  imports Process Dlq_Adapter
begin

text \<open>
  Re-processing an event on purpose (\<open>services/replay.py\<close>): requeue, the worker's own
  \<open>process_event\<close>, and the audit of what it achieved, with the dead-letter entry moved along.
\<close>

record replay_result =
  rp_event_id :: int
  rp_outcome :: replay_outcome
  rp_detail :: "py_str option"

definition outcome_of :: "process_result \<Rightarrow> replay_outcome \<times> py_str option" where
  "outcome_of result =
     (if \<not> claimed result then (SKIPPED_ALREADY_PROCESSED, Some ''claimed by a worker first'')
      else case pr_effect result of
        Some APPLIED \<Rightarrow> (REP_SUCCEEDED, None)
      | Some ALREADY_APPLIED \<Rightarrow> (SKIPPED_ALREADY_PROCESSED, Some ''effect already existed'')
      | Some EFF_SUPERSEDED \<Rightarrow> (SKIPPED_ALREADY_PROCESSED, Some ''superseded by newer state'')
      | None \<Rightarrow> (REP_FAILED, Some ''processing failed; see the attempt history''))"

definition mark_dlq_replaying :: "int \<Rightarrow> datetime \<Rightarrow> unit prog" where
  "mark_dlq_replaying event_id now =
     bind_tx (entry_for_event event_id) (\<lambda>entry. case entry of
       None \<Rightarrow> return_tx ()
     | Some r \<Rightarrow>
         if dr_status r \<noteq> NEEDS_REVIEW then return_tx ()
         else bind_tx (transition (dr_id r) REPLAYING now (Some ''replay requested'')) (\<lambda>_. return_tx ()))"

definition settle_dlq :: "int \<Rightarrow> replay_outcome \<Rightarrow> datetime \<Rightarrow> unit prog" where
  "settle_dlq event_id outcome now =
     bind_tx (entry_for_event event_id) (\<lambda>entry. case entry of
       None \<Rightarrow> return_tx ()
     | Some r \<Rightarrow>
         if dr_status r \<noteq> REPLAYING then return_tx ()
         else if outcome = REP_FAILED
         then bind_tx (transition (dr_id r) NEEDS_REVIEW now (Some ''replay failed'')) (\<lambda>_. return_tx ())
         else bind_tx (transition (dr_id r) RESOLVED now (Some (''replay '' @ replay_outcome_value outcome)))
                (\<lambda>_. return_tx ()))"

definition replay_open :: "int \<Rightarrow> datetime \<Rightarrow> unit prog" where
  "replay_open event_id now =
     bind_tx (load_for_update event_id) (\<lambda>event. case event of
       None \<Rightarrow> raise_tx (EventNotFoundError (''event '' @ show_int event_id @ '' does not exist''))
     | Some _ \<Rightarrow>
         bind_tx (requeue event_id now) (\<lambda>_. mark_dlq_replaying event_id now))"

definition replay_close ::
  "int \<Rightarrow> py_str \<Rightarrow> py_str option \<Rightarrow> replay_outcome \<Rightarrow> datetime \<Rightarrow> unit prog" where
  "replay_close event_id requested_by reason outcome now =
     bind_tx (latest_attempt_id event_id) (\<lambda>attempt_id.
     bind_tx (record_replay_request event_id requested_by reason outcome now attempt_id) (\<lambda>_.
     bind_tx clock_now (\<lambda>later. settle_dlq event_id outcome later)))"

definition replay_event ::
  "int \<Rightarrow> py_str \<Rightarrow> py_str option \<Rightarrow> registry \<Rightarrow> settings \<Rightarrow> replay_result prog" where
  "replay_event event_id requested_by reason registry settings =
     bind_tx clock_now (\<lambda>now.
     bind_tx (session_scope (replay_open event_id now)) (\<lambda>_.
     bind_tx (process_event event_id registry settings) (\<lambda>result.
     let (outcome, detail) = outcome_of result in
     bind_tx (session_scope (replay_close event_id requested_by reason outcome now)) (\<lambda>_.
     bind_tx (inc (EventsReplayed (replay_outcome_value outcome))) (\<lambda>_.
     return_tx \<lparr>rp_event_id = event_id, rp_outcome = outcome, rp_detail = detail\<rparr>)))))"

fun replay_events ::
  "int list \<Rightarrow> py_str \<Rightarrow> py_str option \<Rightarrow> registry \<Rightarrow> settings \<Rightarrow> replay_result list prog" where
  "replay_events [] requested_by reason registry settings = return_tx []"
| "replay_events (event_id # ids) requested_by reason registry settings =
     bind_tx (replay_event event_id requested_by reason registry settings) (\<lambda>r.
     bind_tx (replay_events ids requested_by reason registry settings) (\<lambda>rs.
     return_tx (r # rs)))"

section \<open>Frames and the invariant\<close>

lemma frame_replay_parts [frame_intros]:
  "frame (mark_dlq_replaying i now)" "frame (settle_dlq i out now)"
  unfolding mark_dlq_replaying_def settle_dlq_def
  by (auto intro!: frame_intros split: option.splits)

lemma frame_replay_open [frame_intros]: "frame (replay_open i now)"
  unfolding replay_open_def by (auto intro!: frame_intros split: option.splits)

lemma frame_replay_close [frame_intros]: "frame (replay_close i by' why out now)"
  unfolding replay_close_def by (auto intro!: frame_intros)

lemma ok_replay_parts:
  "ok_keeps db_inv (mark_dlq_replaying i now)" "ok_keeps db_inv (settle_dlq i out now)"
  unfolding mark_dlq_replaying_def settle_dlq_def entry_for_event_def
  by (auto intro!: inv.ok_bind inv.ok_simple ok_query_by_id ok_transition split: option.splits)

lemma ok_replay_open: "ok_keeps db_inv (replay_open i now)"
  unfolding replay_open_def
  by (auto intro!: inv.ok_bind inv.ok_simple ok_queue_reads ok_requeue ok_replay_parts split: option.splits)

lemma ok_replay_close: "ok_keeps db_inv (replay_close i by' why out now)"
  unfolding replay_close_def
  by (auto intro!: inv.ok_bind inv.ok_simple ok_queue_reads ok_record_replay_request ok_replay_parts)

lemma keeps_replay_event: "keeps db_inv (replay_event i by' why reg st)"
  unfolding replay_event_def
  by (auto intro!: inv.keeps_bind inv.keeps_simple inv.keeps_session_scope frame_replay_open frame_replay_close
      ok_replay_open ok_replay_close keeps_process_event split: prod.splits)

lemma keeps_replay_events: "keeps db_inv (replay_events is by' why reg st)"
  by (induction "is") (auto intro!: inv.keeps_bind inv.keeps_simple keeps_replay_event)

section \<open>Replay and the money\<close>

interpretation money: tx_invariant "\<lambda>t s. account_t t = A \<and> ledger_entry_t t = L" for A L
  by unfold_locales simp

lemma ok_money:
  "ok_keeps (\<lambda>t s. account_t t = A \<and> ledger_entry_t t = L) (requeue i now)"
  "ok_keeps (\<lambda>t s. account_t t = A \<and> ledger_entry_t t = L) (update_entry j target now note)"
  unfolding requeue_def update_entry_def
  by (rule money.ok_write; auto simp: Let_def split: if_splits)+

lemma ok_money_audit:
  "ok_keeps (\<lambda>t s. account_t t = A \<and> ledger_entry_t t = L) (record_replay_request i who why out now att)"
  unfolding ok_keeps_def by (auto dest: record_replay_request_ok(1))

lemma ok_money_transition:
  "ok_keeps (\<lambda>t s. account_t t = A \<and> ledger_entry_t t = L) (transition i target now note)"
  unfolding transition_def get_entry_def
  by (auto intro!: money.ok_bind money.ok_simple money.ok_by_id ok_money split: option.splits)

lemma keeps_money_replay_open: "keeps (\<lambda>t s. account_t t = A \<and> ledger_entry_t t = L) (session_scope (replay_open i now))"
  unfolding replay_open_def mark_dlq_replaying_def entry_for_event_def
  by (intro money.keeps_session_scope)
     (auto intro!: frame_intros money.ok_bind money.ok_simple money.ok_by_id money.ok_reads ok_money ok_money_transition
        split: option.splits)

lemma keeps_money_replay_close:
  "keeps (\<lambda>t s. account_t t = A \<and> ledger_entry_t t = L) (session_scope (replay_close i who why out now))"
  unfolding replay_close_def settle_dlq_def entry_for_event_def
  by (intro money.keeps_session_scope)
     (auto intro!: frame_intros money.ok_bind money.ok_simple money.ok_by_id money.ok_reads ok_money_audit ok_money_transition
        split: option.splits)

lemma keepsD: "keeps I m \<Longrightarrow> m w = (x, w') \<Longrightarrow> I (tables w) (seqs w) \<Longrightarrow> I (tables w') (seqs w')"
  unfolding keeps_def by (metis snd_conv)

lemma replay_open_money:
  "session_scope (replay_open i now) w = (x, w') \<Longrightarrow> ledger_abs (tables w') = ledger_abs (tables w)
     \<and> le_event_id ` set (ledger_entry_t (tables w')) = le_event_id ` set (ledger_entry_t (tables w))"
  using keepsD [OF keeps_money_replay_open, of i now w x w' "account_t (tables w)" "ledger_entry_t (tables w)"]
  by (simp add: ledger_abs_def)

lemma replay_close_money:
  "session_scope (replay_close i who why out now) w = (x, w') \<Longrightarrow> ledger_abs (tables w') = ledger_abs (tables w)"
  using keepsD [OF keeps_money_replay_close, of i who why out now w x w' "account_t (tables w)" "ledger_entry_t (tables w)"]
  by (simp add: ledger_abs_def)

lemma applied_once_more:
  assumes "db_inv (tables w) (seqs w)" "process_event i reg st w = (x, w')" "i \<in> sp_applied (ledger_abs (tables w))"
  shows "ledger_abs (tables w') = ledger_abs (tables w)"
proof (rule ccontr)
  let ?s = "app_clock (env w) (ticks w)" and ?w = "w\<lparr>ticks := Suc (ticks w)\<rparr>"
  assume moved: "ledger_abs (tables w') \<noteq> ledger_abs (tables w)"
  obtain y w0 where ss: "session_scope (process_body i reg st ?s) ?w = (y, w0)" by (cases "session_scope (process_body i reg st ?s) ?w")
  have "ledger_abs (tables w') = ledger_abs (tables w0)"
    using assms(2) ss record_failure_ledger(1,2)
    by (cases y) (auto simp: process_event_def bind_tx_def clock_now_def catch_exception_def ledger_abs_def split: if_splits)
  with moved have ne: "ledger_abs (tables w0) \<noteq> ledger_abs (tables w)" by simp
  have inv': "db_inv (tables ?w) (seqs ?w)" using assms(1) by simp
  show False
    by (cases rule: process_scope_cases [OF inv' ss])
       (use ne assms(3) spec_effect_changes(2) in auto)
qed

text \<open>C4. Replaying an event whose effect already stands moves no money: however the replay ends, every
  account and the set of applied events are as they were.\<close>

theorem replay_no_second_effect:
  assumes inv: "db_inv (tables w) (seqs w)"
    and run: "replay_event i who why reg st w = (x, w')"
    and there: "i \<in> le_event_id ` set (ledger_entry_t (tables w))"
  shows "ledger_abs (tables w') = ledger_abs (tables w)"
proof -
  let ?now = "app_clock (env w) (ticks w)" and ?w = "w\<lparr>ticks := Suc (ticks w)\<rparr>"
  obtain a w1 where o: "session_scope (replay_open i ?now) ?w = (a, w1)" by (cases "session_scope (replay_open i ?now) ?w")
  note m1 = replay_open_money [OF o]
  show ?thesis
  proof (cases a)
    case (Inl e)
    with run o m1 show ?thesis by (auto simp: replay_event_def bind_tx_def clock_now_def)
  next
    case (Inr u)
    obtain b w2 where p: "process_event i reg st w1 = (b, w2)" by (cases "process_event i reg st w1")
    have i1: "db_inv (tables w1) (seqs w1)"
      using keepsD [OF inv.keeps_session_scope [OF frame_replay_open ok_replay_open] o] inv by simp
    have m2: "ledger_abs (tables w2) = ledger_abs (tables w)"
      using applied_once_more [OF i1 p] m1 there by (simp add: ledger_abs_def)
    show ?thesis
    proof (cases b)
      case (Inl e)
      with run o p Inr m2 show ?thesis by (auto simp: replay_event_def bind_tx_def clock_now_def)
    next
      case res: (Inr r)
      obtain out det where od: "outcome_of r = (out, det)" by (cases "outcome_of r")
      obtain c w3 where q: "session_scope (replay_close i who why out ?now) w2 = (c, w3)"
        by (cases "session_scope (replay_close i who why out ?now) w2")
      have "tables w' = tables w3"
        using run o p q od Inr res by (cases c) (auto simp: replay_event_def bind_tx_def clock_now_def inc_def return_tx_def)
      with replay_close_money [OF q] m2 show ?thesis by simp
    qed
  qed
qed

section \<open>The audit of a replay\<close>

context tx_invariant
begin

lemma ok_statement:
  assumes "\<And>w a w'. I (tables w) (seqs w) \<Longrightarrow> f w = (Inr a, w') \<Longrightarrow> I (tables w') (seqs w')"
  shows "ok_keeps I (stmt f)"
  unfolding ok_keeps_def
proof (intro allI impI)
  fix w a w'
  assume "I (tables w) (seqs w)" "stmt f w = (Inr a, w')"
  then show "I (tables w') (seqs w')" using assms [of "tick_stmt w" a w'] by (simp add: tx_simps)
qed

lemma ok_lock: "ok_keeps I (lock_entity ty i timeout)"
  unfolding ok_keeps_def using lock_entity_ok(1,2) by metis

end

interpretation requests: tx_invariant "\<lambda>t s. replay_request_t t = R" for R
  by unfold_locales simp

lemma ok_requests_effect: "ok_keeps (\<lambda>t s. replay_request_t t = R) (apply_effect ev eff)"
proof -
  have 1: "ok_keeps (\<lambda>t s. replay_request_t t = R) (insert_account ref)" for ref
    unfolding insert_account_def by (rule requests.ok_statement) (auto simp: Let_def split: if_splits prod.splits)
  have 2: "ok_keeps (\<lambda>t s. replay_request_t t = R) (claim_ledger_row a e m)" for a e m
    unfolding claim_ledger_row_def
    by (rule requests.ok_statement) (auto simp: Let_def split: if_splits prod.splits option.splits)
  have 3: "ok_keeps (\<lambda>t s. replay_request_t t = R) (add_to_balance a m sq)" "ok_keeps (\<lambda>t s. replay_request_t t = R) (set_balance a m sq)" for a m sq
    unfolding add_to_balance_def set_balance_def by (rule requests.ok_write; auto simp: Let_def split: if_splits)+
  show ?thesis
    unfolding apply_effect_def apply_credit_def apply_set_balance_def account_id_def Let_def
    by (auto intro!: requests.ok_bind requests.ok_simple 1 2 3 split: effect.splits option.splits)
qed

lemma ok_requests_writes:
  "ok_keeps (\<lambda>t s. replay_request_t t = R) (record_attempt i n s f out c d)"
  "ok_keeps (\<lambda>t s. replay_request_t t = R) (mark_succeeded i n now)"
  "ok_keeps (\<lambda>t s. replay_request_t t = R) (reschedule i n now err)"
  "ok_keeps (\<lambda>t s. replay_request_t t = R) (dead_letter i n err)"
  "ok_keeps (\<lambda>t s. replay_request_t t = R) (requeue i now)"
  "ok_keeps (\<lambda>t s. replay_request_t t = R) (update_entry j target now note)"
  unfolding ok_keeps_def
  by (auto dest: record_attempt_ok(1) mark_succeeded_ok reschedule_ok dead_letter_ok(1)
      simp: requeue_def update_entry_def tx_simps Let_def split: if_splits)

lemma keeps_requests_process: "keeps (\<lambda>t s. replay_request_t t = R) (process_event i reg st)"
proof -
  have 1: "ok_keeps (\<lambda>t s. replay_request_t t = R) (process_body i reg st s)" for s
    unfolding process_body_def process_apply_def Let_def
    by (auto intro!: requests.ok_bind requests.ok_simple requests.ok_reads requests.ok_lock ok_requests_effect
        ok_requests_writes split: option.splits)
  have 2: "ok_keeps (\<lambda>t s. replay_request_t t = R) (record_failure_body i e reg st s)" for e s
    unfolding record_failure_body_def retry_or_bury_def Let_def
    by (auto intro!: requests.ok_bind requests.ok_simple requests.ok_reads ok_requests_writes split: option.splits)
  show ?thesis unfolding process_event_def record_failure_def
    by (intro requests.keeps_bind requests.keeps_simple requests.keeps_catch requests.keeps_session_scope
        frame_process_body frame_record_failure_body 1 2)
qed

lemma ok_requests_transition: "ok_keeps (\<lambda>t s. replay_request_t t = R) (transition j target now note)"
  unfolding transition_def get_entry_def
  by (auto intro!: requests.ok_bind requests.ok_simple requests.ok_by_id ok_requests_writes split: option.splits)

lemma ok_requests_parts:
  "ok_keeps (\<lambda>t s. replay_request_t t = R) (mark_dlq_replaying i now)"
  "ok_keeps (\<lambda>t s. replay_request_t t = R) (settle_dlq i out now)"
  unfolding mark_dlq_replaying_def settle_dlq_def entry_for_event_def
  by (auto intro!: requests.ok_bind requests.ok_simple requests.ok_by_id ok_requests_transition split: option.splits)

lemma keeps_requests_open: "keeps (\<lambda>t s. replay_request_t t = R) (session_scope (replay_open i now))"
  unfolding replay_open_def
  by (intro requests.keeps_session_scope)
     (auto intro!: frame_intros requests.ok_bind requests.ok_simple requests.ok_reads ok_requests_writes ok_requests_parts
        split: option.splits)

lemma replay_close_ok:
  assumes "replay_close i who why out now w = (Inr u, w')"
  shows "\<exists>n att. replay_request_t (tables w') = replay_request_t (tables w) @
      [\<lparr>rr_id = n, rr_event_id = i, rr_requested_by = who, rr_requested_at = now, rr_reason = why,
        rr_outcome = Some out, rr_resulting_attempt_id = att\<rparr>]"
proof -
  from assms obtain att wa u1 wb later wc where
    a: "latest_attempt_id i w = (Inr att, wa)" and
    b: "record_replay_request i who why out now att wa = (Inr u1, wb)" and
    c: "wc = wb\<lparr>ticks := Suc (ticks wb)\<rparr>" and d: "settle_dlq i out later wc = (Inr u, w')"
    by (auto simp: replay_close_def tx_simps)
  have "tables wa = tables w" using a by (simp add: latest_attempt_id_def tx_simps)
  moreover have "replay_request_t (tables w') = replay_request_t (tables wc)"
    using ok_requests_parts(2) [of "replay_request_t (tables wc)" i out later] d unfolding ok_keeps_def by blast
  ultimately show ?thesis using record_replay_request_ok(1) [OF b] c by simp
qed

text \<open>C11. Every completed replay is on record, with who asked, why and the outcome reported; and the
  outcome is honest: a replay that reports success applied this event's effect, which was not there before.\<close>

theorem replay_audited:
  assumes inv: "db_inv (tables w) (seqs w)" and run: "replay_event i who why reg st w = (Inr r, w')"
  shows "rp_event_id r = i
    \<and> (\<exists>q. replay_request_t (tables w') = replay_request_t (tables w) @ [q] \<and> rr_event_id q = i
         \<and> rr_requested_by q = who \<and> rr_reason q = why \<and> rr_outcome q = Some (rp_outcome r))
    \<and> (rp_outcome r = REP_SUCCEEDED \<longrightarrow>
         i \<notin> sp_applied (ledger_abs (tables w)) \<and> i \<in> sp_applied (ledger_abs (tables w')))"
proof -
  let ?now = "app_clock (env w) (ticks w)" and ?w = "w\<lparr>ticks := Suc (ticks w)\<rparr>"
  from run obtain u w1 res w2 out det u3 w3 where
    o: "session_scope (replay_open i ?now) ?w = (Inr u, w1)" and
    p: "process_event i reg st w1 = (Inr res, w2)" and od: "out = fst (outcome_of res)" "det = snd (outcome_of res)" and
    q: "session_scope (replay_close i who why out ?now) w2 = (Inr u3, w3)" and
    r: "r = \<lparr>rp_event_id = i, rp_outcome = out, rp_detail = det\<rparr>" and t: "tables w' = tables w3"
    by (auto simp: replay_event_def tx_simps Let_def case_prod_beta)
  have i1: "db_inv (tables w1) (seqs w1)"
    using keepsD [OF inv.keeps_session_scope [OF frame_replay_open ok_replay_open] o] inv by simp
  have "replay_request_t (tables w2) = replay_request_t (tables w)"
    using keepsD [OF keeps_requests_open o, of "replay_request_t (tables w)"]
      keepsD [OF keeps_requests_process p, of "replay_request_t (tables w)"] by simp
  moreover obtain w4 where "replay_close i who why out ?now (begin_tx w2) = (Inr u3, w4)" "tables w3 = tables w4"
    using q by (auto elim: session_scope_cases)
  ultimately have rec: "\<exists>q. replay_request_t (tables w') = replay_request_t (tables w) @ [q] \<and> rr_event_id q = i
         \<and> rr_requested_by q = who \<and> rr_reason q = why \<and> rr_outcome q = Some out"
    using replay_close_ok t by fastforce
  have "i \<notin> sp_applied (ledger_abs (tables w)) \<and> i \<in> sp_applied (ledger_abs (tables w'))" if "out = REP_SUCCEEDED"
  proof -
    have "pr_effect res = Some APPLIED"
      using od that by (auto simp: outcome_of_def split: if_splits option.splits effect_result.splits)
    from reported_refines [OF i1 p this] obtain row :: webhook_event and eff where
      "spec_effect i (ev_provider_sequence row) eff (ledger_abs (tables w1)) = (APPLIED, ledger_abs (tables w2))" .
    then have "i \<notin> sp_applied (ledger_abs (tables w1)) \<and> i \<in> sp_applied (ledger_abs (tables w2))"
      using led.step_applied [of "(i, ev_provider_sequence row, eff)" "ledger_abs (tables w1)"] by auto
    then show ?thesis using replay_open_money [OF o] replay_close_money [OF q] t by simp
  qed
  with rec r show ?thesis by simp
qed

end
