(* ===== verification/Signature.thy ===== *)
theory Signature
  imports Floats Domain
begin

text \<open>
  Authentication of a delivery (\<open>api/signature.py\<close>): the header's grammar, the tolerance on the
  signed timestamp, and the comparison with every offered signature. HMAC-SHA256 is a parameter: it takes
  the key and the message and returns the hexadecimal digest.
\<close>

type_synonym bytes = "8 word list"
type_synonym hmac = "bytes \<Rightarrow> bytes \<Rightarrow> py_str"

section \<open>Encoding\<close>

text \<open>\<open>str.encode("ascii")\<close> of an ASCII string and \<open>str.encode("utf-8")\<close>.\<close>

definition encode_ascii :: "py_str \<Rightarrow> bytes" where
  "encode_ascii s = map (\<lambda>c. of_char c) s"

definition encode_utf8 :: "py_str \<Rightarrow> bytes" where
  "encode_utf8 s = concat (map (\<lambda>c. let n = (of_char c :: nat)
     in if n < 128 then [of_nat n] else [of_nat (192 + n div 64), of_nat (128 + n mod 64)]) s)"

definition signed_payload :: "int \<Rightarrow> bytes \<Rightarrow> bytes" where
  "signed_payload timestamp raw_body = encode_ascii (show_int timestamp) @ encode_ascii ''.'' @ raw_body"

definition expected_signature :: "hmac \<Rightarrow> py_str \<Rightarrow> int \<Rightarrow> bytes \<Rightarrow> py_str" where
  "expected_signature hmac secret timestamp raw_body = hmac (encode_utf8 secret) (signed_payload timestamp raw_body)"

section \<open>The header\<close>

definition SIGNATURE_HEADER :: py_str where "SIGNATURE_HEADER = ''X-Webhook-Signature''"
definition TIMESTAMP_FIELD :: py_str where "TIMESTAMP_FIELD = ''t''"
definition SIGNATURE_FIELD :: py_str where "SIGNATURE_FIELD = ''v1''"
definition MAX_HEADER_BYTES :: nat where "MAX_HEADER_BYTES = 1024"

text \<open>The loop over the comma-separated parts, with the timestamp and the signatures collected so far.\<close>

fun parse_parts :: "py_str list \<Rightarrow> int option \<Rightarrow> py_str list \<Rightarrow> exc + (int option \<times> py_str list)" where
  "parse_parts [] timestamp signatures = Inr (timestamp, signatures)"
| "parse_parts (part # parts) timestamp signatures =
     (let (key, separator, value) = py_partition (CHR ''='') (py_strip part)
      in if \<not> separator
         then Inl (MalformedSignatureHeaderError (''malformed segment in signature header: '' @ py_repr part))
         else if key = TIMESTAMP_FIELD then
           (case py_int value of
              None \<Rightarrow> Inl (MalformedSignatureHeaderError (''signature timestamp is not an integer: '' @ py_repr value))
            | Some n \<Rightarrow> parse_parts parts (Some n) signatures)
         else if key = SIGNATURE_FIELD then parse_parts parts timestamp (signatures @ [value])
         else parse_parts parts timestamp signatures)"

definition parse_header :: "py_str \<Rightarrow> exc + (int \<times> py_str list)" where
  "parse_header raw_header =
     (if MAX_HEADER_BYTES < utf8_len raw_header
      then Inl (MalformedSignatureHeaderError ''signature header too large'')
      else bind_exc (parse_parts (py_split (CHR '','') raw_header) None []) (\<lambda>(timestamp, signatures).
        case timestamp of
          None \<Rightarrow> Inl (MalformedSignatureHeaderError ''signature header has no `t` field'')
        | Some t \<Rightarrow>
            if signatures = [] then Inl (MalformedSignatureHeaderError ''signature header has no `v1` field'')
            else Inr (t, signatures)))"

section \<open>Verification\<close>

text \<open>\<open>now.timestamp()\<close> is a float; subtracting an int converts the int to a float first.\<close>

definition skew_of :: "int \<Rightarrow> datetime \<Rightarrow> exc + rat" where
  "skew_of timestamp now =
     (case float_of_int timestamp of
        None \<Rightarrow> Inl (OverflowError ''int too large to convert to float'')
      | Some f \<Rightarrow> Inr \<bar>fsub (total_seconds now) f\<bar>)"

definition check_timestamp :: "int \<Rightarrow> datetime \<Rightarrow> int \<Rightarrow> exc + unit" where
  "check_timestamp timestamp now tolerance_seconds =
     bind_exc (skew_of timestamp now) (\<lambda>skew.
       if of_int tolerance_seconds < skew
       then Inl (TimestampOutsideToleranceError (''signed timestamp is '' @ show_int (round_half_even skew)
              @ ''s away, tolerance is '' @ show_int tolerance_seconds @ ''s''))
       else Inr ())"

text \<open>\<open>hmac.compare_digest\<close> on two strings accepts ASCII only.\<close>

definition compare_digest :: "py_str \<Rightarrow> py_str \<Rightarrow> exc + bool" where
  "compare_digest a b =
     (if is_ascii a \<and> is_ascii b then Inr (a = b)
      else Inl (TypeError ''comparing strings with non-ASCII characters is not supported''))"

fun count_matches :: "py_str \<Rightarrow> py_str list \<Rightarrow> exc + nat" where
  "count_matches expected [] = Inr 0"
| "count_matches expected (candidate # candidates) =
     bind_exc (compare_digest expected candidate) (\<lambda>b.
     bind_exc (count_matches expected candidates) (\<lambda>n. Inr ((if b then 1 else 0) + n)))"

definition verify_signature :: "hmac \<Rightarrow> py_str \<Rightarrow> bytes \<Rightarrow> py_str option \<Rightarrow> datetime \<Rightarrow> int \<Rightarrow> exc + unit" where
  "verify_signature hmac secret raw_body raw_header now tolerance_seconds =
     (case raw_header of
        None \<Rightarrow> Inl (MalformedSignatureHeaderError (''missing '' @ SIGNATURE_HEADER @ '' header''))
      | Some header \<Rightarrow>
          bind_exc (parse_header header) (\<lambda>(timestamp, offered).
          bind_exc (check_timestamp timestamp now tolerance_seconds) (\<lambda>_.
          bind_exc (count_matches (expected_signature hmac secret timestamp raw_body) offered) (\<lambda>matches.
            if matches = 0 then Inl (SignatureMismatchError ''no offered signature matches'') else Inr ()))))"

text \<open>The header a correct sender builds (\<open>scripts/send_webhook.py\<close>).\<close>

definition signed_header :: "hmac \<Rightarrow> py_str \<Rightarrow> int \<Rightarrow> bytes \<Rightarrow> py_str" where
  "signed_header hmac secret timestamp body =
     ''t='' @ show_int timestamp @ '',v1='' @ expected_signature hmac secret timestamp body"

section \<open>Laws\<close>

lemma count_matches_Inr:
  "count_matches e cs = Inr n \<longleftrightarrow> (cs = [] \<or> is_ascii e) \<and> list_all is_ascii cs \<and> n = count_list cs e"
  by (induction cs arbitrary: n) (auto simp: bind_exc_Inr compare_digest_def split: if_splits)

lemma count_matches_Inl:
  "count_matches e cs = Inl x \<Longrightarrow>
     x = TypeError ''comparing strings with non-ASCII characters is not supported'' \<and> (\<not> is_ascii e \<or> (\<exists>c \<in> set cs. \<not> is_ascii c))"
  by (induction cs) (auto simp: bind_exc_Inl compare_digest_def split: if_splits)

lemma parse_parts_Inl: "parse_parts ps t ss = Inl x \<Longrightarrow> \<exists>m. x = MalformedSignatureHeaderError m"
  by (induction ps t ss rule: parse_parts.induct)
     (auto simp: Let_def split: prod.splits if_splits option.splits)

lemma parse_header_Inl: "parse_header h = Inl x \<Longrightarrow> \<exists>m. x = MalformedSignatureHeaderError m"
  by (auto simp: parse_header_def bind_exc_Inl split: if_splits option.splits prod.splits dest: parse_parts_Inl)

lemma check_timestamp_Inr:
  "check_timestamp t now tol = Inr () \<longleftrightarrow> (\<exists>f. float_of_int t = Some f \<and> \<bar>fsub (total_seconds now) f\<bar> \<le> of_int tol)"
  by (auto simp: check_timestamp_def skew_of_def bind_exc_Inr not_less split: option.splits if_splits)

lemma check_timestamp_Inl:
  "check_timestamp t now tol = Inl x \<Longrightarrow>
     (\<exists>m. x = TimestampOutsideToleranceError m) \<or> x = OverflowError ''int too large to convert to float'' \<and> float_of_int t = None"
  by (auto simp: check_timestamp_def skew_of_def bind_exc_Inl split: option.splits if_splits)


text \<open>C17. The verifier's refusals. Whatever it raises is one of the signature errors the endpoint answers with 401,
  except in two cases: a signature that is not ASCII (TypeError) and a timestamp too large for a float
  (OverflowError).\<close>

theorem verify_signature_errors:
  assumes "verify_signature hmac secret body header now tol = Inl e"
  shows "is_SignatureError e
    \<or> (\<exists>h t offered. header = Some h \<and> parse_header h = Inr (t, offered)
         \<and> (e = TypeError ''comparing strings with non-ASCII characters is not supported''
              \<and> (\<not> is_ascii (expected_signature hmac secret t body) \<or> \<not> list_all is_ascii offered)
            \<or> e = OverflowError ''int too large to convert to float'' \<and> float_of_int t = None))"
  using assms
  by (auto simp: verify_signature_def bind_exc_Inl list_all_iff split: option.splits if_splits
      dest!: parse_header_Inl check_timestamp_Inl count_matches_Inl)

section \<open>Signing and verifying\<close>

definition is_hexdigest :: "py_str \<Rightarrow> bool" where
  "is_hexdigest s \<longleftrightarrow> length s = 64 \<and> set s \<subseteq> set ''0123456789abcdef''"

lemma py_strip_id: "\<forall>c \<in> set s. \<not> is_space c \<Longrightarrow> py_strip s = s"
proof -
  assume a: "\<forall>c \<in> set s. \<not> is_space c"
  have d: "dropWhile is_space xs = xs" if "\<forall>c \<in> set xs. \<not> is_space c" for xs
    using that by (cases xs) auto
  from a show ?thesis by (simp add: py_strip_def d)
qed

definition plain :: "char \<Rightarrow> bool" where
  "plain c \<longleftrightarrow> \<not> is_space c \<and> c \<noteq> CHR '','' \<and> c \<noteq> CHR ''='' \<and> (of_char c :: nat) < 128"

lemma plain_digit: "is_digit c \<Longrightarrow> plain c"
  by (auto simp: plain_def is_digit_def is_space_def Let_def)

lemma plain_hex: "is_hexdigest s \<Longrightarrow> c \<in> set s \<Longrightarrow> plain c"
  by (auto simp: is_hexdigest_def plain_def is_space_def Let_def)

lemma plain_show_int: "c \<in> set (show_int t) \<Longrightarrow> plain c"
  by (auto simp: show_int_def plain_digit show_nat_digits split: if_splits) (auto simp: plain_def is_space_def Let_def)

lemma show_nat_nonempty: "show_nat n \<noteq> []"
  by (subst show_nat.simps) simp

lemma py_int_show_int: "py_int (show_int t) = Some t"
proof -
  have s: "py_strip (show_int t) = show_int t" using plain_show_int by (intro py_strip_id) (auto simp: plain_def)
  have u: "parse_unsigned (show_nat n) = Some (int n)" for n
    using show_nat_nonempty [of n] show_nat_digits [of _ n] parse_digits_show_nat [of n]
    by (cases "show_nat n") (auto simp: parse_unsigned_def)
  show ?thesis
  proof (cases "t < 0")
    case True
    then show ?thesis using s u [of "nat (- t)"] by (simp add: py_int_def show_int_def)
  next
    case False
    have "\<exists>c cs. show_nat (nat t) = c # cs \<and> is_digit c"
      using show_nat_nonempty [of "nat t"] show_nat_digits [of _ "nat t"] by (cases "show_nat (nat t)") auto
    then obtain c cs where c: "show_nat (nat t) = c # cs" "is_digit c" by blast
    have "c \<noteq> CHR ''-''" "c \<noteq> CHR ''+''" using c(2) by (auto simp: is_digit_def Let_def)
    then show ?thesis using s u [of "nat t"] False c by (simp add: py_int_def show_int_def)
  qed
qed

lemma length_show_nat: "n < 10 ^ Suc k \<Longrightarrow> length (show_nat n) \<le> Suc k"
proof (induction k arbitrary: n)
  case (Suc k)
  show ?case
  proof (cases "n < 10")
    case False
    have "n div 10 < 10 ^ Suc k" using Suc.prems by (simp add: less_mult_imp_div_less)
    from Suc.IH [OF this] False show ?thesis by (subst show_nat.simps) simp
  qed (subst show_nat.simps, simp)
qed (subst show_nat.simps, simp)

lemma length_show_int:
  assumes "float_of_int t = Some f"
  shows "length (show_int t) \<le> 310"
proof -
  have "\<bar>t\<bar> < 10 ^ Suc 308" using assms by (simp add: float_of_int_def split: if_splits)
  then have "nat \<bar>t\<bar> < nat (10 ^ Suc 308)" by (simp only: nat_less_eq_zless abs_ge_zero)
  then have "nat \<bar>t\<bar> < 10 ^ Suc 308" by (simp only: nat_power_eq nat_numeral zero_le_numeral)
  from length_show_nat [OF this] show ?thesis by (cases "t < 0") (simp_all add: show_int_def)
qed

lemma utf8_len_plain: "\<forall>c \<in> set s. plain c \<Longrightarrow> utf8_len s = length s"
  by (induction s) (auto simp: utf8_len_def plain_def)

lemma utf8_len_append: "utf8_len (xs @ ys) = utf8_len xs + utf8_len ys"
  by (simp add: utf8_len_def)

lemma parse_signed_header:
  assumes t: "float_of_int t = Some f" and s: "is_hexdigest sig"
  shows "parse_header (''t='' @ show_int t @ '',v1='' @ sig) = Inr (t, [sig])"
proof -
  let ?a = "''t='' @ show_int t" and ?b = "''v1='' @ sig"
  have pt: "\<forall>c \<in> set (show_int t). plain c" and ps: "\<forall>c \<in> set sig. plain c"
    using plain_show_int plain_hex [OF s] by auto
  have nc: "CHR '','' \<notin> set ?a" "CHR '','' \<notin> set ?b" using pt ps by (auto simp: plain_def)
  have split: "py_split (CHR '','') (?a @ CHR '','' # ?b) = [?a, ?b]"
    using py_split_append [OF nc(1), of ?b] py_split_single [OF nc(2)] by (simp only:)
  have strip: "py_strip ?a = ?a" "py_strip ?b = ?b"
    using pt ps by (intro py_strip_id; auto simp: plain_def is_space_def Let_def)+
  have part: "py_partition (CHR ''='') ?a = (''t'', True, show_int t)" "py_partition (CHR ''='') ?b = (''v1'', True, sig)"
    using py_partition_append [of "CHR ''=''" "''t''"] py_partition_append [of "CHR ''=''" "''v1''"] by simp_all
  have len: "utf8_len (?a @ CHR '','' # ?b) \<le> MAX_HEADER_BYTES"
    using utf8_len_plain [OF pt] utf8_len_plain [OF ps] length_show_int [OF t] s
    by (simp add: utf8_len_append utf8_len_def [of "_ # _"] MAX_HEADER_BYTES_def is_hexdigest_def) (simp add: utf8_len_def)
  show ?thesis
    using split len strip part by (simp add: parse_header_def TIMESTAMP_FIELD_def SIGNATURE_FIELD_def py_int_show_int Let_def)
qed

text \<open>Signing and verifying round-trip: a header built by a correct sender for a timestamp within the tolerance is
  accepted, for every secret, body and timestamp; all that is asked of HMAC is that it returns a hexadecimal digest.\<close>

theorem signed_header_verifies:
  assumes "is_hexdigest (expected_signature hmac secret t body)" and "check_timestamp t now tol = Inr ()"
  shows "verify_signature hmac secret body (Some (signed_header hmac secret t body)) now tol = Inr ()"
proof -
  obtain f where "float_of_int t = Some f" using assms(2) by (auto simp: check_timestamp_Inr)
  note p = parse_signed_header [OF this assms(1)]
  have "is_ascii (expected_signature hmac secret t body)"
    using plain_hex [OF assms(1)] by (auto simp: is_ascii_def list_all_iff plain_def)
  then show ?thesis using p assms(2)
    by (simp add: verify_signature_def signed_header_def compare_digest_def)
qed

end
