(* ===== verification/Wire.thy ===== *)
theory Wire
  imports Signature
begin

text \<open>
  The wire format (\<open>api/schemas.py\<close>): the envelope's fields with their bounds, the dedup key, the
  header allowlist and the crossing into the domain. \<open>json.loads\<close> and pydantic's reading of one JSON
  value as a string, an instant or an integer are parameters (\<open>codecs\<close>); which fields are required, their
  defaults and bounds, and the order in which problems are reported are the model's.
\<close>

section \<open>Parameters\<close>

record codecs =
  json_loads :: "bytes \<Rightarrow> exc + json"
  as_str :: "json \<Rightarrow> py_str option"
  as_datetime :: "json \<Rightarrow> datetime option"
  as_int :: "json \<Rightarrow> int option"

text \<open>\<open>json.JSONDecodeError\<close> and \<open>UnicodeDecodeError\<close>.\<close>

definition is_decode_error :: "exc \<Rightarrow> bool" where
  "is_decode_error e \<longleftrightarrow> class_name e = ''JSONDecodeError'' \<or> class_name e = ''UnicodeDecodeError''"

section \<open>The envelope\<close>

record envelope =
  en_id :: py_str
  en_type :: py_str
  en_occurred_at :: datetime
  en_entity_type :: py_str
  en_entity_id :: py_str
  en_data :: json_object
  en_sequence :: "int option"

text \<open>A field is read as a value, or reported by its location. \<open>Field(min_length=.., max_length=..)\<close>.\<close>

type_synonym 'a field = "py_str list + 'a"

definition str_field :: "codecs \<Rightarrow> py_str list \<Rightarrow> nat \<Rightarrow> nat \<Rightarrow> json option \<Rightarrow> py_str field" where
  "str_field c loc lo hi v =
     (case v of
        None \<Rightarrow> Inl loc
      | Some j \<Rightarrow> (case as_str c j of
            None \<Rightarrow> Inl loc
          | Some s \<Rightarrow> if lo \<le> length s \<and> length s \<le> hi then Inr s else Inl loc))"

definition datetime_field :: "codecs \<Rightarrow> py_str list \<Rightarrow> json option \<Rightarrow> datetime field" where
  "datetime_field c loc v =
     (case v of None \<Rightarrow> Inl loc | Some j \<Rightarrow> (case as_datetime c j of None \<Rightarrow> Inl loc | Some d \<Rightarrow> Inr d))"

definition data_field :: "py_str list \<Rightarrow> json option \<Rightarrow> json_object field" where
  "data_field loc v = (case v of None \<Rightarrow> Inr [] | Some (JObj obj) \<Rightarrow> Inr obj | Some _ \<Rightarrow> Inl loc)"

definition sequence_field :: "codecs \<Rightarrow> py_str list \<Rightarrow> json option \<Rightarrow> int option field" where
  "sequence_field c loc v =
     (case v of
        None \<Rightarrow> Inr None
      | Some JNull \<Rightarrow> Inr None
      | Some j \<Rightarrow> (case as_int c j of None \<Rightarrow> Inl loc | Some n \<Rightarrow> if 0 \<le> n then Inr (Some n) else Inl loc))"

text \<open>\<open>EventEntity\<close>: both locations are reported when both parts are unusable.\<close>

definition entity_field :: "codecs \<Rightarrow> json option \<Rightarrow> py_str list list + (py_str \<times> py_str)" where
  "entity_field c v =
     (case v of
        Some (JObj obj) \<Rightarrow>
          (case (str_field c [''entity'', ''type''] 1 64 (json_get obj ''type''),
                 str_field c [''entity'', ''id''] 1 255 (json_get obj ''id'')) of
             (Inr t, Inr i) \<Rightarrow> Inr (t, i)
           | (Inl l, Inl m) \<Rightarrow> Inl [l, m]
           | (Inl l, _) \<Rightarrow> Inl [l]
           | (_, Inl m) \<Rightarrow> Inl [m])
      | _ \<Rightarrow> Inl [[''entity'']])"

definition problem :: "'a field \<Rightarrow> py_str list list" where
  "problem f = (case f of Inl loc \<Rightarrow> [loc] | Inr _ \<Rightarrow> [])"

definition validate_envelope :: "codecs \<Rightarrow> json_object \<Rightarrow> py_str list list + envelope" where
  "validate_envelope c obj =
     (let f_id = str_field c [''id''] 1 255 (json_get obj ''id'');
          f_type = str_field c [''type''] 1 128 (json_get obj ''type'');
          f_at = datetime_field c [''occurred_at''] (json_get obj ''occurred_at'');
          f_entity = entity_field c (json_get obj ''entity'');
          f_data = data_field [''data''] (json_get obj ''data'');
          f_seq = sequence_field c [''sequence''] (json_get obj ''sequence'')
      in case (f_id, f_type, f_at, f_entity, f_data, f_seq) of
           (Inr i, Inr t, Inr d, Inr (et, ei), Inr obj', Inr n) \<Rightarrow>
             Inr \<lparr>en_id = i, en_type = t, en_occurred_at = d, en_entity_type = et, en_entity_id = ei,
                  en_data = obj', en_sequence = n\<rparr>
         | _ \<Rightarrow> Inl (problem f_id @ problem f_type @ problem f_at
                    @ (case f_entity of Inl locs \<Rightarrow> locs | Inr _ \<Rightarrow> []) @ problem f_data @ problem f_seq))"

fun join_with :: "py_str \<Rightarrow> py_str list \<Rightarrow> py_str" where
  "join_with sep [] = []"
| "join_with sep [s] = s"
| "join_with sep (s # ss) = s @ sep @ join_with sep ss"

definition parse_envelope :: "codecs \<Rightarrow> bytes \<Rightarrow> exc + envelope" where
  "parse_envelope c raw_body =
     (case json_loads c raw_body of
        Inl e \<Rightarrow> if is_decode_error e then Inl (MalformedPayloadError (''body is not valid JSON: '' @ exc_str e)) else Inl e
      | Inr (JObj obj) \<Rightarrow>
          (case validate_envelope c obj of
             Inr env \<Rightarrow> Inr env
           | Inl locs \<Rightarrow> Inl (MalformedPayloadError (''envelope failed validation on: ''
                          @ join_with '', '' (map (join_with ''.'') locs))))
      | Inr _ \<Rightarrow> Inl (MalformedPayloadError ''body must be a JSON object''))"

section \<open>The dedup key and the stored headers\<close>

definition IDEMPOTENCY_KEY_HEADER :: py_str where "IDEMPOTENCY_KEY_HEADER = ''Idempotency-Key''"
definition MAX_IDEMPOTENCY_KEY_LENGTH :: nat where "MAX_IDEMPOTENCY_KEY_LENGTH = 255"

definition resolve_idempotency_key :: "envelope \<Rightarrow> py_str option \<Rightarrow> exc + py_str" where
  "resolve_idempotency_key envelope header_value =
     (case header_value of
        None \<Rightarrow> Inr (en_id envelope)
      | Some v \<Rightarrow>
          let key = py_strip v
          in if key = [] \<or> MAX_IDEMPOTENCY_KEY_LENGTH < length key
             then Inl (MalformedPayloadError (IDEMPOTENCY_KEY_HEADER @ '' must be 1..''
                    @ show_nat MAX_IDEMPOTENCY_KEY_LENGTH @ '' characters''))
             else Inr key)"

definition HEADER_ALLOWLIST :: "py_str list" where
  "HEADER_ALLOWLIST = [''content-type'', ''content-length'', ''user-agent'', ''idempotency-key'',
     ''x-request-id'', ''x-correlation-id'']"

text \<open>Assignment to a key of a dict: an existing key keeps its place.\<close>

fun dict_set :: "('k \<times> 'v) list \<Rightarrow> 'k \<Rightarrow> 'v \<Rightarrow> ('k \<times> 'v) list" where
  "dict_set [] k v = [(k, v)]"
| "dict_set ((k', v') # d) k v = (if k' = k then (k, v) # d else (k', v') # dict_set d k v)"

definition redact_headers :: "(py_str \<times> py_str) list \<Rightarrow> json_object" where
  "redact_headers headers =
     foldl (\<lambda>d (name, value). if py_lower name \<in> set HEADER_ALLOWLIST then dict_set d (py_lower name) (JStr value) else d)
       [] headers"

definition to_incoming_event ::
  "py_str \<Rightarrow> envelope \<Rightarrow> json_object \<Rightarrow> json_object \<Rightarrow> py_str \<Rightarrow> bool \<Rightarrow> incoming_event" where
  "to_incoming_event source envelope payload headers idempotency_key signature_verified =
     \<lparr>ie_source = source, ie_external_id = en_id envelope, ie_idempotency_key = idempotency_key,
      ie_event_type = en_type envelope, ie_entity_type = en_entity_type envelope,
      ie_entity_id = en_entity_id envelope, ie_payload = payload, ie_headers = headers,
      ie_signature_verified = signature_verified, ie_occurred_at = en_occurred_at envelope,
      ie_provider_sequence = en_sequence envelope\<rparr>"

section \<open>Laws\<close>

definition envelope_ok :: "envelope \<Rightarrow> bool" where
  "envelope_ok e \<longleftrightarrow> 1 \<le> length (en_id e) \<and> length (en_id e) \<le> 255 \<and> 1 \<le> length (en_type e) \<and> length (en_type e) \<le> 128
     \<and> 1 \<le> length (en_entity_type e) \<and> length (en_entity_type e) \<le> 64
     \<and> 1 \<le> length (en_entity_id e) \<and> length (en_entity_id e) \<le> 255
     \<and> (case en_sequence e of None \<Rightarrow> True | Some n \<Rightarrow> 0 \<le> n)"

lemma str_field_Inr: "str_field c loc lo hi v = Inr s \<Longrightarrow> lo \<le> length s \<and> length s \<le> hi"
  by (auto simp: str_field_def split: option.splits if_splits)

lemma sequence_field_Inr: "sequence_field c loc v = Inr (Some n) \<Longrightarrow> 0 \<le> n"
  by (auto simp: sequence_field_def split: option.splits if_splits json.splits)

lemma entity_field_Inr:
  "entity_field c v = Inr (t, i) \<Longrightarrow> 1 \<le> length t \<and> length t \<le> 64 \<and> 1 \<le> length i \<and> length i \<le> 255"
  by (auto simp: entity_field_def split: option.splits json.splits sum.splits dest!: str_field_Inr)

lemma validate_envelope_Inr:
  assumes "validate_envelope c obj = Inr e"
  shows "str_field c [''id''] 1 255 (json_get obj ''id'') = Inr (en_id e)"
    "str_field c [''type''] 1 128 (json_get obj ''type'') = Inr (en_type e)"
    "entity_field c (json_get obj ''entity'') = Inr (en_entity_type e, en_entity_id e)"
    "sequence_field c [''sequence''] (json_get obj ''sequence'') = Inr (en_sequence e)"
  using assms by (auto simp: validate_envelope_def Let_def split: sum.splits prod.splits)

lemma validate_envelope_ok:
  assumes "validate_envelope c obj = Inr e"
  shows "envelope_ok e"
  using str_field_Inr [OF validate_envelope_Inr(1) [OF assms]] str_field_Inr [OF validate_envelope_Inr(2) [OF assms]]
    entity_field_Inr [OF validate_envelope_Inr(3) [OF assms]] sequence_field_Inr [of c "[''sequence'']"]
    validate_envelope_Inr(4) [OF assms]
  by (auto simp: envelope_ok_def split: option.splits)

lemma validate_envelope_reports:
  assumes "validate_envelope c obj = Inl locs"
  shows "locs \<noteq> [] \<and> set locs \<subseteq> {[''id''], [''type''], [''occurred_at''], [''entity''], [''entity'', ''type''],
    [''entity'', ''id''], [''data''], [''sequence'']}"
proof -
  let ?i = "str_field c [''id''] 1 255 (json_get obj ''id'')" and ?t = "str_field c [''type''] 1 128 (json_get obj ''type'')"
  let ?d = "datetime_field c [''occurred_at''] (json_get obj ''occurred_at'')" and ?e = "entity_field c (json_get obj ''entity'')"
  let ?o = "data_field [''data''] (json_get obj ''data'')" and ?q = "sequence_field c [''sequence''] (json_get obj ''sequence'')"
  let ?ls = "case ?e of Inl locs \<Rightarrow> locs | Inr _ \<Rightarrow> []"
  have eq: "locs = problem ?i @ problem ?t @ problem ?d @ ?ls @ problem ?o @ problem ?q"
    using assms by (auto simp: validate_envelope_def Let_def split: sum.splits prod.splits)
  have bad: "(\<exists>l. ?i = Inl l) \<or> (\<exists>l. ?t = Inl l) \<or> (\<exists>l. ?d = Inl l) \<or> (\<exists>l. ?e = Inl l) \<or> (\<exists>l. ?o = Inl l) \<or> (\<exists>l. ?q = Inl l)"
    using assms by (auto simp: validate_envelope_def Let_def split: sum.splits prod.splits)
  have s: "set (problem (str_field c loc lo hi v)) \<subseteq> {loc}" for loc lo hi v
    by (auto simp: problem_def str_field_def split: option.splits if_splits)
  have d: "set (problem (datetime_field c loc v)) \<subseteq> {loc}" for loc v
    by (auto simp: problem_def datetime_field_def split: option.splits)
  have o': "set (problem (data_field loc v)) \<subseteq> {loc}" for loc v
    by (auto simp: problem_def data_field_def split: option.splits json.splits)
  have q: "set (problem (sequence_field c loc v)) \<subseteq> {loc}" for loc v
    by (auto simp: problem_def sequence_field_def split: option.splits json.splits if_splits)
  have e: "?e = Inl ls \<Longrightarrow> ls \<noteq> [] \<and> set ls \<subseteq> {[''entity''], [''entity'', ''type''], [''entity'', ''id'']}" for ls
    using s [of "[''entity'', ''type'']"] s [of "[''entity'', ''id'']"]
    by (auto simp: entity_field_def problem_def str_field_def split: option.splits json.splits sum.splits if_splits)
  have els: "set ?ls \<subseteq> {[''entity''], [''entity'', ''type''], [''entity'', ''id'']}"
    using e by (cases ?e) auto
  have "locs \<noteq> []" using bad e unfolding eq by (auto simp: problem_def)
  moreover have "set locs \<subseteq> {[''id''], [''type''], [''occurred_at''], [''entity''], [''entity'', ''type''],
      [''entity'', ''id''], [''data''], [''sequence'']}"
    unfolding eq set_append using els
    by (intro Un_least order_trans [OF s] order_trans [OF d] order_trans [OF o'] order_trans [OF q] order_trans [OF els]) auto
  ultimately show ?thesis ..
qed

lemma parse_envelope_Inl:
  "parse_envelope c body = Inl e \<Longrightarrow> (\<exists>m. e = MalformedPayloadError m) \<or> json_loads c body = Inl e \<and> \<not> is_decode_error e"
  by (auto simp: parse_envelope_def split: sum.splits json.splits if_splits)

lemma parse_envelope_Inr:
  "parse_envelope c body = Inr env \<longleftrightarrow> (\<exists>obj. json_loads c body = Inr (JObj obj) \<and> validate_envelope c obj = Inr env)"
  by (auto simp: parse_envelope_def split: sum.splits json.splits if_splits)

lemma set_dict_set: "set (dict_set d k v) \<subseteq> insert (k, v) (set d)"
  by (induction d k v rule: dict_set.induct) auto

lemma fst_dict_set: "fst ` set (dict_set d k v) = insert k (fst ` set d)"
  by (induction d k v rule: dict_set.induct) auto

lemma distinct_dict_set: "distinct (map fst d) \<Longrightarrow> distinct (map fst (dict_set d k v))"
  by (induction d k v rule: dict_set.induct) (auto simp: fst_dict_set image_iff)

lemma redact_headers_step:
  assumes "\<forall>(k, v) \<in> set d. k \<in> set HEADER_ALLOWLIST" "distinct (map fst d)"
  shows "let r = foldl (\<lambda>d (name, value). if py_lower name \<in> set HEADER_ALLOWLIST
            then dict_set d (py_lower name) (JStr value) else d) d headers
     in (\<forall>(k, v) \<in> set r. k \<in> set HEADER_ALLOWLIST) \<and> distinct (map fst r)"
  using assms
proof (induction headers arbitrary: d)
  case (Cons h headers)
  obtain n v where h: "h = (n, v)" by (cases h)
  show ?case
  proof (cases "py_lower n \<in> set HEADER_ALLOWLIST")
    case True
    have "\<forall>(k, v) \<in> set (dict_set d (py_lower n) (JStr v)). k \<in> set HEADER_ALLOWLIST"
      using set_dict_set [of d "py_lower n" "JStr v"] Cons.prems(1) True by auto
    from Cons.IH [OF this distinct_dict_set [OF Cons.prems(2)]] True h show ?thesis by simp
  next
    case False
    with Cons.IH [OF Cons.prems] h show ?thesis by simp
  qed
qed (simp add: Let_def)

text \<open>Nothing but the allowlist is stored: whatever headers arrive, the stored ones carry allowlisted
  lower-case names only, each at most once; a credential header is never among them.\<close>

theorem redact_headers_safe:
  "fst ` set (redact_headers headers) \<subseteq> set HEADER_ALLOWLIST \<and> distinct (map fst (redact_headers headers))
   \<and> ''authorization'' \<notin> fst ` set (redact_headers headers) \<and> ''x-webhook-signature'' \<notin> fst ` set (redact_headers headers)"
proof -
  have "(\<forall>(k, v) \<in> set (redact_headers headers). k \<in> set HEADER_ALLOWLIST) \<and> distinct (map fst (redact_headers headers))"
    using redact_headers_step [of "[]" headers] by (simp add: redact_headers_def Let_def)
  then show ?thesis by (auto simp: HEADER_ALLOWLIST_def)
qed

end
