(* ===== verification/Ingest.thy ===== *)
theory Ingest
  imports Queue
begin

text \<open>
  Idempotent persistence of an accepted delivery (\<open>services/ingest.py\<close>): one insert that
  lets the unique constraint on source and idempotency key decide whether the delivery is new, and a read of the
  existing row's id when it is not.
\<close>

record ingest_result =
  ir_event_id :: int
  ir_duplicate :: bool

definition delivery_key :: "incoming_event \<Rightarrow> py_str \<times> py_str" where
  "delivery_key e = (ie_source e, ie_idempotency_key e)"

text \<open>What the driver and the server accept of a delivery's columns.\<close>

definition delivery_text_ok :: "incoming_event \<Rightarrow> bool" where
  "delivery_text_ok e \<longleftrightarrow>
     text_ok (ie_source e) \<and> text_ok (ie_external_id e) \<and> text_ok (ie_idempotency_key e)
   \<and> text_ok (ie_event_type e) \<and> text_ok (ie_entity_type e) \<and> text_ok (ie_entity_id e)
   \<and> json_object_ok (ie_payload e) \<and> json_object_ok (ie_headers e)"

definition delivery_range_ok :: "incoming_event \<Rightarrow> bool" where
  "delivery_range_ok e = (case ie_provider_sequence e of None \<Rightarrow> True | Some n \<Rightarrow> int8_ok n)"

definition insert_event :: "incoming_event \<Rightarrow> int option prog" where
  "insert_event e = stmt (\<lambda>w.
     if \<not> delivery_range_ok e then (Inl (db_error w ''22000''), w)
     else if \<not> delivery_text_ok e then (Inl (db_error w ''22021''), w)
     else
       let n = sq_event (seqs w);
           (r, rows) = on_conflict_do_nothing ev_key (new_webhook_event (tx_now w) e) n (webhook_event_t (tables w))
       in (Inr r, w\<lparr>tables := (tables w)\<lparr>webhook_event_t := rows\<rparr>, seqs := (seqs w)\<lparr>sq_event := n + 1\<rparr>\<rparr>))"

definition ingest_event :: "incoming_event \<Rightarrow> ingest_result prog" where
  "ingest_event e =
     bind_tx (insert_event e) (\<lambda>inserted. case inserted of
       Some i \<Rightarrow> return_tx \<lparr>ir_event_id = i, ir_duplicate = False\<rparr>
     | None \<Rightarrow>
         bind_tx (query (\<lambda>w. find_row (\<lambda>r. ev_key r = delivery_key e) (webhook_event_t (tables w)))) (\<lambda>row.
           case row of
             Some r \<Rightarrow> return_tx \<lparr>ir_event_id = ev_id r, ir_duplicate = True\<rparr>
           | None \<Rightarrow> raise_tx (NoResultFound ''No row was found when one was required'')))"

section \<open>Laws\<close>

lemma frame_ingest_event [frame_intros]: "frame (ingest_event e)"
proof -
  have "frame (insert_event e)"
    unfolding insert_event_def by (rule frame_stmt) (auto simp: Let_def seqs_le_def split: prod.splits)
  then show ?thesis unfolding ingest_event_def by (auto intro!: frame_intros split: option.splits)
qed

definition with_event :: "datetime \<Rightarrow> incoming_event \<Rightarrow> int \<Rightarrow> tables \<Rightarrow> tables" where
  "with_event now e n t = t\<lparr>webhook_event_t := snd (on_conflict_do_nothing ev_key (new_webhook_event now e) n (webhook_event_t t))\<rparr>"

lemma ev_key_new [simp]: "ev_key (new_webhook_event now e n) = delivery_key e"
  by (simp add: ev_key_def new_webhook_event_def delivery_key_def)

lemma with_event_tables [simp]:
  "processing_attempt_t (with_event now e n t) = processing_attempt_t t"
  "dead_letter_entry_t (with_event now e n t) = dead_letter_entry_t t"
  "replay_request_t (with_event now e n t) = replay_request_t t"
  "account_t (with_event now e n t) = account_t t"
  "ledger_entry_t (with_event now e n t) = ledger_entry_t t"
  "attempt_links (with_event now e n t) = attempt_links t"
  by (simp_all add: with_event_def)

lemma ingest_event_ok:
  assumes "ingest_event e w = (Inr r, w')"
  obtains (new) "\<forall>row \<in> set (webhook_event_t (tables w)). ev_key row \<noteq> delivery_key e"
      "r = \<lparr>ir_event_id = sq_event (seqs w), ir_duplicate = False\<rparr>"
      "tables w' = with_event (tx_now w) e (sq_event (seqs w)) (tables w)"
      "webhook_event_t (tables w') = webhook_event_t (tables w) @ [new_webhook_event (tx_now w) e (sq_event (seqs w))]"
      "seqs w' = (seqs w)\<lparr>sq_event := sq_event (seqs w) + 1\<rparr>"
  | (duplicate) row where "find_row (\<lambda>r. ev_key r = delivery_key e) (webhook_event_t (tables w)) = Some row"
      "r = \<lparr>ir_event_id = ev_id row, ir_duplicate = True\<rparr>" "tables w' = tables w"
      "tables w' = with_event (tx_now w) e (sq_event (seqs w)) (tables w)"
      "seqs w' = (seqs w)\<lparr>sq_event := sq_event (seqs w) + 1\<rparr>"
proof (cases "delivery_key e \<in> ev_key ` set (webhook_event_t (tables w))")
  case True
  with assms show ?thesis
    by (auto simp: ingest_event_def insert_event_def tx_simps Let_def on_conflict_do_nothing_def with_event_def
        split: if_splits option.splits intro: duplicate)
next
  case False
  then have "\<forall>row \<in> set (webhook_event_t (tables w)). ev_key row \<noteq> delivery_key e" by (metis imageI)
  with False assms show ?thesis
    by (intro new) (auto simp: ingest_event_def insert_event_def tx_simps Let_def on_conflict_do_nothing_def with_event_def
        split: if_splits option.splits)
qed

lemma db_inv_with_event:
  assumes I: "db_inv t s"
  shows "db_inv (with_event now e (sq_event s) t) (s\<lparr>sq_event := sq_event s + 1\<rparr>)"
proof -
  let ?t = "with_event now e (sq_event s) t"
  have "table_ok ev_id ev_key (sq_event s + 1) (webhook_event_t ?t)"
    using I by (simp add: with_event_def db_inv_def keys_ok_def seqs_ok_def event_table.insert_ok)
  moreover have sub: "set (webhook_event_t t) \<subseteq> set (webhook_event_t ?t)"
    by (simp add: with_event_def event_table.insert_keeps)
  moreover have new: "0 \<le> ev_attempt_count x \<and> (ev_status x = DEAD_LETTERED \<longrightarrow> x \<in> set (webhook_event_t t))"
    if "x \<in> set (webhook_event_t ?t)" for x
  proof -
    from that have "x \<in> set (webhook_event_t t) \<or> x = new_webhook_event now e (sq_event s)"
      by (auto simp: with_event_def on_conflict_do_nothing_def split: if_splits)
    then show ?thesis using I by (elim disjE) (simp_all add: db_inv_def checks_ok_def new_webhook_event_def)
  qed
  have "refs_ok ?t"
    using I image_mono [OF sub, of ev_id] by (simp add: db_inv_def refs_ok_def event_ids_def account_ids_def) (meson order_trans)
  moreover have "checks_ok ?t"
    using I new by (simp add: db_inv_def checks_ok_def)
  moreover have "dlq_covers ?t"
    using I new by (simp add: db_inv_def dlq_covers_def)
  ultimately show ?thesis
    using I by (simp add: db_inv_def keys_ok_def seqs_ok_def reconciled_def ledger_sum_def)
qed

lemma ok_ingest_event: "ok_keeps db_inv (ingest_event e)"
  unfolding ok_keeps_def
proof (intro allI impI)
  fix w r w'
  assume I: "db_inv (tables w) (seqs w)" and run: "ingest_event e w = (Inr r, w')"
  have "tables w' = with_event (tx_now w) e (sq_event (seqs w)) (tables w) \<and> seqs w' = (seqs w)\<lparr>sq_event := sq_event (seqs w) + 1\<rparr>"
    using run by (cases rule: ingest_event_ok) simp_all
  then show "db_inv (tables w') (seqs w')" using db_inv_with_event [OF I] by simp
qed

section \<open>Properties\<close>

text \<open>Recognition of redeliveries. When a delivery is accepted, the id reported is the id of the one row
  with its source and idempotency key; it is reported as new exactly when no such row existed, the row is
  then pending, due at once, with a full budget; and as a duplicate nothing stored changes.\<close>

theorem ingest_accepts:
  assumes inv: "db_inv (tables w) (seqs w)" and run: "ingest_event e w = (Inr r, w')"
  shows "(\<exists>!row. row \<in> set (webhook_event_t (tables w')) \<and> ev_key row = delivery_key e)
    \<and> (\<exists>row \<in> set (webhook_event_t (tables w')). ev_key row = delivery_key e \<and> ev_id row = ir_event_id r
         \<and> (\<not> ir_duplicate r \<longrightarrow> ev_status row = PENDING \<and> ev_attempt_count row = 0 \<and> ev_next_attempt_at row = tx_now w
              \<and> ev_payload row = ie_payload e))
    \<and> (ir_duplicate r \<longleftrightarrow> (\<exists>row \<in> set (webhook_event_t (tables w)). ev_key row = delivery_key e))
    \<and> (ir_duplicate r \<longrightarrow> tables w' = tables w)"
proof -
  have "db_inv (tables w') (seqs w')" using ok_ingest_event inv run unfolding ok_keeps_def by blast
  then have inj: "a = b" if "a \<in> set (webhook_event_t (tables w'))" "b \<in> set (webhook_event_t (tables w'))" "ev_key a = ev_key b" for a b
    using that table_ok_key_inj by (fastforce simp: db_inv_def keys_ok_def)
  from run show ?thesis
  proof (cases rule: ingest_event_ok)
    case new
    let ?row = "new_webhook_event (tx_now w) e (sq_event (seqs w))"
    have "?row \<in> set (webhook_event_t (tables w'))" using new(4) by simp
    moreover have "ev_id ?row = ir_event_id r" "ev_status ?row = PENDING" "ev_attempt_count ?row = 0"
      "ev_next_attempt_at ?row = tx_now w" "ev_payload ?row = ie_payload e"
      by (simp_all add: new(2) new_webhook_event_def)
    ultimately show ?thesis using inj new(1,2) by (auto intro!: bexI [of _ ?row])
  next
    case (duplicate row)
    from find_row_Some [OF duplicate(1)] inj duplicate(2,3) show ?thesis by (auto intro!: bexI [of _ row])
  qed
qed

end
