(* ===== verification/Webhooks.thy ===== *)
theory Webhooks
  imports Wire Ingest Config
begin

text \<open>
  The ingestion endpoint (\<open>api/webhooks.py\<close>): size limit, secret of the source, signature, envelope, dedup key,
  and the insert, with the response and the metrics of every way out. An exception that leaves the
  handler is the raised value of the program (the framework answers 500).
\<close>

section \<open>Requests and responses\<close>

text \<open>Header names arrive in lower case; a repeated header is looked up by its first value.\<close>

record http_request =
  rq_source :: py_str
  rq_body :: bytes
  rq_headers :: "(py_str \<times> py_str) list"

record http_response =
  rs_status :: int
  rs_body :: "json option"

definition get_header :: "(py_str \<times> py_str) list \<Rightarrow> py_str \<Rightarrow> py_str option" where
  "get_header headers name = map_of headers (py_lower name)"

text \<open>\<open>dict(request.headers)\<close>.\<close>

definition headers_dict :: "(py_str \<times> py_str) list \<Rightarrow> (py_str \<times> py_str) list" where
  "headers_dict headers = foldl (\<lambda>d (k, v). dict_set d k (case map_of headers k of None \<Rightarrow> v | Some v' \<Rightarrow> v')) [] headers"

definition UNAUTHORIZED :: http_response where
  "UNAUTHORIZED = \<lparr>rs_status = 401, rs_body = Some (JObj [(''detail'', JStr ''signature verification failed'')])\<rparr>"

definition PAYLOAD_TOO_LARGE :: http_response where
  "PAYLOAD_TOO_LARGE = \<lparr>rs_status = 413, rs_body = None\<rparr>"

definition malformed :: "exc \<Rightarrow> http_response" where
  "malformed e = \<lparr>rs_status = 400, rs_body = Some (JObj [(''detail'', JStr (exc_str e))])\<rparr>"

definition accepted :: "ingest_result \<Rightarrow> http_response" where
  "accepted r = \<lparr>rs_status = 200, rs_body = Some (JObj [(''status'', JStr ''accepted''),
     (''event_id'', JInt (ir_event_id r)), (''duplicate'', JBool (ir_duplicate r))])\<rparr>"

text \<open>\<open>with histogram.time()\<close> observes on every way out of the block.\<close>

definition timed :: "metric \<Rightarrow> 'a prog \<Rightarrow> 'a prog" where
  "timed m p w = (case p w of (r, w') \<Rightarrow> (r, w'\<lparr>metrics := metrics w' @ [m]\<rparr>))"

section \<open>The handler\<close>

definition is_MalformedPayload :: "exc \<Rightarrow> bool" where
  "is_MalformedPayload e = (case e of MalformedPayloadError _ \<Rightarrow> True | _ \<Rightarrow> False)"

definition reject :: "py_str \<Rightarrow> py_str \<Rightarrow> http_response \<Rightarrow> (http_response + ingest_result) prog" where
  "reject source reason response = bind_tx (inc (EventsRejected source reason)) (\<lambda>_. return_tx (Inl response))"

definition read_delivery :: "codecs \<Rightarrow> http_request \<Rightarrow> exc + incoming_event" where
  "read_delivery c request =
     bind_exc (parse_envelope c (rq_body request)) (\<lambda>envelope.
     bind_exc (resolve_idempotency_key envelope (get_header (rq_headers request) IDEMPOTENCY_KEY_HEADER)) (\<lambda>key.
     Inr (to_incoming_event (rq_source request) envelope (en_data envelope)
            (redact_headers (headers_dict (rq_headers request))) key True)))"

definition ingest_block :: "hmac \<Rightarrow> codecs \<Rightarrow> settings \<Rightarrow> http_request \<Rightarrow> (http_response + ingest_result) prog" where
  "ingest_block hmac c settings request =
     (let source = rq_source request in
      if max_payload_bytes settings < int (length (rq_body request))
      then reject source ''payload_too_large'' PAYLOAD_TOO_LARGE
      else case secret_for_source settings source of
        None \<Rightarrow> reject source ''unauthorized'' UNAUTHORIZED
      | Some secret \<Rightarrow>
          bind_tx clock_now (\<lambda>now.
            case verify_signature hmac secret (rq_body request) (get_header (rq_headers request) SIGNATURE_HEADER) now
                   (signature_timestamp_tolerance_seconds settings) of
              Inl e \<Rightarrow> if is_SignatureError e then reject source ''unauthorized'' UNAUTHORIZED else raise_tx e
            | Inr _ \<Rightarrow>
                (case read_delivery c request of
                   Inl e \<Rightarrow> if is_MalformedPayload e then reject source ''malformed'' (malformed e) else raise_tx e
                 | Inr event \<Rightarrow> bind_tx (session_scope (ingest_event event)) (\<lambda>r. return_tx (Inr r)))))"

definition ingest :: "hmac \<Rightarrow> codecs \<Rightarrow> settings \<Rightarrow> http_request \<Rightarrow> http_response prog" where
  "ingest hmac c settings request =
     bind_tx (timed (IngestLatency (rq_source request)) (ingest_block hmac c settings request)) (\<lambda>out.
       case out of
         Inl response \<Rightarrow> return_tx response
       | Inr r \<Rightarrow> bind_tx (inc (EventsIngested (rq_source request) (ir_duplicate r))) (\<lambda>_. return_tx (accepted r)))"

section \<open>Laws\<close>

lemma reject_run: "reject s why resp w = (Inr (Inl resp), w\<lparr>metrics := metrics w @ [EventsRejected s why]\<rparr>)"
  by (simp add: reject_def bind_tx_def inc_def return_tx_def)

lemma rejection_status: "rs_status UNAUTHORIZED = 401" "rs_status PAYLOAD_TOO_LARGE = 413" "rs_status (malformed e) = 400"
  by (simp_all add: UNAUTHORIZED_def PAYLOAD_TOO_LARGE_def malformed_def)

text \<open>The three checks in the order of the code: size, source, signature. What they let through is read and stored.\<close>

definition store_delivery :: "codecs \<Rightarrow> http_request \<Rightarrow> (http_response + ingest_result) prog" where
  "store_delivery c rq =
     (case read_delivery c rq of
        Inl e \<Rightarrow> if is_MalformedPayload e then reject (rq_source rq) ''malformed'' (malformed e) else raise_tx e
      | Inr ev \<Rightarrow> bind_tx (session_scope (ingest_event ev)) (\<lambda>r. return_tx (Inr r)))"

lemma ingest_block_checks:
  assumes run: "ingest_block hmac c st rq w = (x, w')"
  obtains (rejected) resp where "tables w' = tables w" "x = Inr (Inl resp)" "rs_status resp \<in> {401, 413}"
      "rs_status resp = 401 \<longrightarrow> resp = UNAUTHORIZED"
  | (raised) e where "tables w' = tables w" "x = Inl e"
  | (passed) secret where
      "int (length (rq_body rq)) \<le> max_payload_bytes st" "secret_for_source st (rq_source rq) = Some secret"
      "verify_signature hmac secret (rq_body rq) (get_header (rq_headers rq) SIGNATURE_HEADER) (app_clock (env w) (ticks w))
         (signature_timestamp_tolerance_seconds st) = Inr ()"
      "store_delivery c rq (w\<lparr>ticks := Suc (ticks w)\<rparr>) = (x, w')"
proof -
  note defs = ingest_block_def Let_def bind_tx_def clock_now_def raise_tx_def reject_run rejection_status
  show thesis
  proof (cases "max_payload_bytes st < int (length (rq_body rq))")
    case True
    with run show ?thesis by (intro rejected) (auto simp: defs)
  next
    case small: False
    show ?thesis
    proof (cases "secret_for_source st (rq_source rq)")
      case None
      with run small show ?thesis by (intro rejected) (auto simp: defs)
    next
      case (Some secret)
      let ?v = "verify_signature hmac secret (rq_body rq) (get_header (rq_headers rq) SIGNATURE_HEADER) (app_clock (env w) (ticks w))
         (signature_timestamp_tolerance_seconds st)"
      consider (bad) e where "?v = Inl e" "is_SignatureError e" | (crash) e where "?v = Inl e" "\<not> is_SignatureError e" | (good) "?v = Inr ()"
        by (cases ?v) auto
      then show ?thesis
      proof cases
        case bad
        with run small Some show ?thesis by (intro rejected) (auto simp: defs)
      next
        case (crash e)
        with run small Some show ?thesis by (intro raised [of e]) (auto simp: defs)
      next
        case good
        with run small Some show ?thesis
          by (intro passed [of secret]) (simp_all add: ingest_block_def Let_def bind_tx_def [of clock_now] clock_now_def store_delivery_def)
      qed
    qed
  qed
qed

text \<open>Every run of the handler is one of these.\<close>

lemma ingest_block_cases:
  assumes "ingest_block hmac c st rq w = (x, w')"
  obtains (early) resp where "tables w' = tables w" "x = Inr (Inl resp)" "rs_status resp \<in> {400, 401, 413}"
      "rs_status resp = 401 \<longrightarrow> resp = UNAUTHORIZED"
  | (raised) e where "tables w' = tables w" "x = Inl e"
  | (stored) secret ev y now w1 where
      "int (length (rq_body rq)) \<le> max_payload_bytes st" "secret_for_source st (rq_source rq) = Some secret"
      "verify_signature hmac secret (rq_body rq) (get_header (rq_headers rq) SIGNATURE_HEADER) now
         (signature_timestamp_tolerance_seconds st) = Inr ()"
      "read_delivery c rq = Inr ev" "w1 = w\<lparr>ticks := Suc (ticks w)\<rparr>" "session_scope (ingest_event ev) w1 = (y, w')"
      "x = (case y of Inl e \<Rightarrow> Inl e | Inr r \<Rightarrow> Inr (Inr r))"
  using assms
proof (cases rule: ingest_block_checks)
  case (rejected resp)
  then show ?thesis by (intro early [of resp]) auto
next
  case (raised e)
  then show ?thesis by (intro that(2))
next
  case (passed secret)
  consider (bad) e where "read_delivery c rq = Inl e" "is_MalformedPayload e" | (crash) e where "read_delivery c rq = Inl e" "\<not> is_MalformedPayload e"
    | (good) ev where "read_delivery c rq = Inr ev" by (cases "read_delivery c rq") auto
  then show ?thesis
  proof cases
    case (bad e)
    with passed(4) show ?thesis by (intro early [of "malformed e"]) (auto simp: store_delivery_def reject_run rejection_status)
  next
    case (crash e)
    with passed(4) show ?thesis by (intro that(2) [of e]) (auto simp: store_delivery_def raise_tx_def)
  next
    case (good ev)
    obtain y w2 where s: "session_scope (ingest_event ev) (w\<lparr>ticks := Suc (ticks w)\<rparr>) = (y, w2)" by fastforce
    with passed(4) good have "w2 = w'" "x = (case y of Inl e \<Rightarrow> Inl e | Inr r \<Rightarrow> Inr (Inr r))"
      by (auto simp: store_delivery_def bind_tx_def return_tx_def split: sum.splits)
    with s passed(1,2,3) good show ?thesis by (intro stored [of secret _ ev _ y]) simp_all
  qed
qed

lemma timed_run: "timed m p w = (x, w') \<longleftrightarrow> (\<exists>w1. p w = (x, w1) \<and> w' = w1\<lparr>metrics := metrics w1 @ [m]\<rparr>)"
  by (auto simp: timed_def split: prod.splits)

lemma ingest_cases:
  assumes "ingest hmac c st rq w = (x, w')"
  obtains (early) resp where "tables w' = tables w" "x = Inr resp" "rs_status resp \<in> {400, 401, 413}"
      "rs_status resp = 401 \<longrightarrow> resp = UNAUTHORIZED"
  | (raised) e where "tables w' = tables w" "x = Inl e"
  | (stored) secret ev y now w1 w2 where
      "int (length (rq_body rq)) \<le> max_payload_bytes st" "secret_for_source st (rq_source rq) = Some secret"
      "verify_signature hmac secret (rq_body rq) (get_header (rq_headers rq) SIGNATURE_HEADER) now
         (signature_timestamp_tolerance_seconds st) = Inr ()"
      "read_delivery c rq = Inr ev" "w1 = w\<lparr>ticks := Suc (ticks w)\<rparr>" "session_scope (ingest_event ev) w1 = (y, w2)"
      "tables w' = tables w2" "seqs w' = seqs w2" "env w' = env w2" "x = (case y of Inl e \<Rightarrow> Inl e | Inr r \<Rightarrow> Inr (accepted r))"
proof -
  let ?m = "IngestLatency (rq_source rq)"
  obtain z w2 where b: "ingest_block hmac c st rq w = (z, w2)" by (cases "ingest_block hmac c st rq w")
  then have t: "timed ?m (ingest_block hmac c st rq) w = (z, w2\<lparr>metrics := metrics w2 @ [?m]\<rparr>)" by (simp add: timed_run)
  from b show thesis
  proof (cases rule: ingest_block_cases)
    case (early resp)
    with assms t show ?thesis
      by (intro that(1) [of resp]) (auto simp: ingest_def bind_tx_def return_tx_def)
  next
    case (raised e)
    with assms t show ?thesis by (intro that(2) [of e]) (auto simp: ingest_def bind_tx_def)
  next
    case (stored secret ev y now w1)
    with assms t show ?thesis
      by (intro that(3) [of secret now ev w1 y w2])
         (auto simp: ingest_def bind_tx_def inc_def return_tx_def split: sum.splits)
  qed
qed

section \<open>Properties\<close>

text \<open>Nothing unauthenticated is stored: if a request changed anything in the database, its body was within the
  limit, its source has a secret, and its signature verified under that secret.\<close>

theorem stored_only_if_authentic:
  assumes run: "ingest hmac c st rq w = (x, w')" and changed: "tables w' \<noteq> tables w"
  shows "int (length (rq_body rq)) \<le> max_payload_bytes st
    \<and> (\<exists>secret now. secret_for_source st (rq_source rq) = Some secret
        \<and> verify_signature hmac secret (rq_body rq) (get_header (rq_headers rq) SIGNATURE_HEADER) now
            (signature_timestamp_tolerance_seconds st) = Inr ())"
  using run changed by (cases rule: ingest_cases) auto


text \<open>C20. A redelivery is recognised: when a row with the delivery's source and dedup key is stored -- by an earlier
  request, another process, or a race lost inside the database -- an answer of 200 names that row, says duplicate, and
  changed nothing.\<close>

theorem redelivery_recognised:
  assumes inv: "db_inv (tables w) (seqs w)"
    and run: "ingest hmac c st rq w = (Inr resp, w')" and ok: "rs_status resp = 200"
    and ev: "read_delivery c rq = Inr ev"
    and row: "row \<in> set (webhook_event_t (tables w))" "ev_key row = delivery_key ev"
  shows "resp = accepted \<lparr>ir_event_id = ev_id row, ir_duplicate = True\<rparr> \<and> tables w' = tables w"
  using run
proof (cases rule: ingest_cases)
  case (early r)
  with ok show ?thesis by auto
next
  case (stored secret ev2 y now w1 w2)
  have ev2: "ev2 = ev" using stored(4) ev by simp
  from stored(10) obtain r where y: "y = Inr r" "resp = accepted r" by (cases y) auto
  from stored(6) [unfolded y ev2] obtain w3 where b: "ingest_event ev (begin_tx w1) = (Inr r, w3)" and t: "tables w2 = tables w3"
    by (cases rule: session_scope_cases) auto
  have w1: "tables (begin_tx w1) = tables w" by (simp add: stored(5))
  from b show ?thesis
  proof (cases rule: ingest_event_ok)
    case new
    with row w1 show ?thesis by auto
  next
    case (duplicate row2)
    have "row2 = row"
      using find_row_Some [OF duplicate(1)] row inv table_ok_key_inj [of ev_id ev_key "sq_event (seqs w)" "webhook_event_t (tables w)" row2 row] w1
      by (simp add: db_inv_def keys_ok_def)
    with duplicate(2,3) y t stored(7) w1 show ?thesis by simp
  qed
qed simp

end
