(* ===== verification/Http_Misc.thy ===== *)
theory Http_Misc
  imports Webhooks
begin

text \<open>
  The edges of the HTTP application: the admin guard (\<open>api/auth.py\<close>), the correlation id
  (\<open>api/middleware.py\<close>) and the probes (\<open>api/health.py\<close>).
\<close>

section \<open>The admin guard\<close>

definition ADMIN_KEY_HEADER :: py_str where "ADMIN_KEY_HEADER = ''X-Admin-Key''"

datatype 'a outcome = Returned 'a | HttpError int py_str | Raised exc

text \<open>\<open>require_admin\<close>: the operator's identity, the one 401 for a missing and for a wrong key, or the exception of
  comparing a key that is not ASCII.\<close>

definition require_admin :: "settings \<Rightarrow> py_str option \<Rightarrow> py_str outcome" where
  "require_admin settings x_admin_key =
     (case x_admin_key of
        None \<Rightarrow> HttpError 401 ''admin authentication failed''
      | Some key \<Rightarrow>
          (case compare_digest key (admin_api_key settings) of
             Inl e \<Rightarrow> Raised e
           | Inr matches \<Rightarrow> if matches then Returned ''api-key'' else HttpError 401 ''admin authentication failed''))"

text \<open>The guard opens for the configured key and for nothing else, and a refusal does not say why: a missing key and
  a wrong ASCII key get the same answer.\<close>

theorem require_admin_guards:
  "(require_admin st key = Returned op \<longleftrightarrow> op = ''api-key'' \<and> key = Some (admin_api_key st) \<and> is_ascii (admin_api_key st))
   \<and> (is_ascii (admin_api_key st) \<and> key \<noteq> Some (admin_api_key st) \<and> (\<forall>k. key = Some k \<longrightarrow> is_ascii k)
        \<longrightarrow> require_admin st key = HttpError 401 ''admin authentication failed'')"
  by (auto simp: require_admin_def compare_digest_def split: option.splits)

section \<open>The correlation id\<close>

definition CORRELATION_ID_HEADER :: py_str where "CORRELATION_ID_HEADER = ''X-Request-Id''"

text \<open>\<open>str.isprintable()\<close> and the first matching header of the scope; names and values decoded as Latin-1.\<close>

definition isprintable :: "py_str \<Rightarrow> bool" where
  "isprintable s = list_all printable s"

fun inbound_id :: "(py_str \<times> py_str) list \<Rightarrow> py_str option" where
  "inbound_id [] = None"
| "inbound_id ((name, value) # headers) =
     (if name = py_lower CORRELATION_ID_HEADER then
        let candidate = py_strip value
        in if candidate \<noteq> [] \<and> length candidate \<le> 128 \<and> isprintable candidate then Some candidate else None
      else inbound_id headers)"

text \<open>\<open>_inbound_id(scope) or uuid4().hex\<close>, and the header appended to the response.\<close>

definition correlation_id :: "(py_str \<times> py_str) list \<Rightarrow> py_str \<Rightarrow> py_str" where
  "correlation_id headers fresh = (case inbound_id headers of None \<Rightarrow> fresh | Some c \<Rightarrow> c)"

definition response_headers :: "(py_str \<times> py_str) list \<Rightarrow> py_str \<Rightarrow> (py_str \<times> py_str) list \<Rightarrow> (py_str \<times> py_str) list" where
  "response_headers request_headers fresh headers =
     headers @ [(py_lower CORRELATION_ID_HEADER, correlation_id request_headers fresh)]"

lemma inbound_id_Some:
  "inbound_id headers = Some c \<Longrightarrow> c \<noteq> [] \<and> length c \<le> 128 \<and> isprintable c"
  by (induction headers rule: inbound_id.induct) (auto simp: Let_def split: if_splits)

text \<open>No log injection through the correlation id: whatever the caller sends, the id bound to the logs and echoed in
  the response is non-empty, at most 128 characters and free of control characters, line breaks in particular --
  provided the generated ids are.\<close>

theorem correlation_id_harmless:
  assumes "fresh \<noteq> []" "length fresh \<le> 128" "isprintable fresh"
  shows "correlation_id headers fresh \<noteq> [] \<and> length (correlation_id headers fresh) \<le> 128
    \<and> CHR 0x0A \<notin> set (correlation_id headers fresh) \<and> CHR 0x0D \<notin> set (correlation_id headers fresh)
    \<and> isprintable (correlation_id headers fresh)"
proof -
  let ?c = "correlation_id headers fresh"
  have "?c \<noteq> [] \<and> length ?c \<le> 128 \<and> isprintable ?c"
    using assms inbound_id_Some [of headers] by (auto simp: correlation_id_def split: option.splits)
  moreover from this have "CHR 0x0A \<notin> set ?c" "CHR 0x0D \<notin> set ?c"
    by (auto simp: isprintable_def list_all_iff printable_def Let_def)
  ultimately show ?thesis by blast
qed

section \<open>Probes\<close>

text \<open>The exceptions \<open>_database_reachable\<close> recognises: SQLAlchemy's, and \<open>OSError\<close> (which the built-in
  TimeoutError, ConnectionError and gaierror are).\<close>

fun is_unreachable :: "exc \<Rightarrow> bool" where
  "is_unreachable (SQLAlchemyTimeoutError _) = True"
| "is_unreachable (DBAPIError _ _ _ _) = True"
| "is_unreachable (NoResultFound _) = True"
| "is_unreachable (ConnectionError _ _) = True"
| "is_unreachable (TimeoutError _) = True"
| "is_unreachable (GaiError _) = True"
| "is_unreachable _ = False"

definition database_reachable :: "bool prog" where
  "database_reachable w =
     (case query (\<lambda>_. ()) w of
        (Inr _, w') \<Rightarrow> (Inr True, w')
      | (Inl e, w') \<Rightarrow> if is_unreachable e then (Inr False, w') else (Inl e, w'))"

definition healthz :: http_response where
  "healthz = \<lparr>rs_status = 200, rs_body = Some (JObj [(''status'', JStr ''alive'')])\<rparr>"

definition readyz :: "http_response prog" where
  "readyz = bind_tx database_reachable (\<lambda>ok. return_tx
     (if \<not> ok then \<lparr>rs_status = 503, rs_body = Some (JObj [(''status'', JStr ''not_ready''), (''database'', JStr ''unreachable'')])\<rparr>
      else \<lparr>rs_status = 200, rs_body = Some (JObj [(''status'', JStr ''ready''), (''database'', JStr ''ok'')])\<rparr>))"

text \<open>The readiness probe reports and touches nothing: it says ready exactly when the probing statement went through,
  and every failure it does not recognise is raised.\<close>

theorem readyz_reports:
  "tables (snd (readyz w)) = tables w \<and>
   (case faults (env w) (stmts w) of
      None \<Rightarrow> \<exists>r. fst (readyz w) = Inr r \<and> rs_status r = 200
    | Some x \<Rightarrow> if is_unreachable (fault_exc x) then \<exists>r. fst (readyz w) = Inr r \<and> rs_status r = 503
                else fst (readyz w) = Inl (fault_exc x))"
  by (auto simp: readyz_def database_reachable_def query_def stmt_def bind_tx_def return_tx_def Let_def split: option.splits)

end
