(* ===== verification/Admin.thy ===== *)
theory Admin
  imports Query Replay Http_Misc
begin

text \<open>
  The operator's API (\<open>api/admin.py\<close>): listing, triage and replay behind the admin guard. A route is a
  program; \<open>HTTPException\<close> is an exception of that program, which the framework turns into a refusal
  outside of it, so a refusal raised inside a transaction rolls it back. The rendering of an instant as text is a
  parameter.
\<close>

section \<open>Answers\<close>

datatype 'a answer = Answer 'a | Refused int py_str | Invalid

definition respond :: "'a prog \<Rightarrow> 'a answer prog" where
  "respond p w =
     (case p w of
        (Inr a, w') \<Rightarrow> (Inr (Answer a), w')
      | (Inl e, w') \<Rightarrow> (case e of HTTPException code detail \<Rightarrow> (Inr (Refused code detail), w') | _ \<Rightarrow> (Inl e, w')))"

text \<open>The admin dependency runs first, then the validation of the request, then the handler.\<close>

definition guarded :: "settings \<Rightarrow> py_str option \<Rightarrow> exc + unit \<Rightarrow> (py_str \<Rightarrow> 'a prog) \<Rightarrow> 'a answer prog" where
  "guarded settings key valid handler =
     (case require_admin settings key of
        Raised e \<Rightarrow> raise_tx e
      | HttpError code detail \<Rightarrow> return_tx (Refused code detail)
      | Returned operator \<Rightarrow>
          (case valid of
             Inl (ValueError _) \<Rightarrow> return_tx Invalid
           | Inl e \<Rightarrow> raise_tx e
           | Inr _ \<Rightarrow> respond (handler operator)))"

definition map_exc :: "(exc \<Rightarrow> exc) \<Rightarrow> 'a prog \<Rightarrow> 'a prog" where
  "map_exc f p w = (case p w of (Inl e, w') \<Rightarrow> (Inl (f e), w') | (Inr a, w') \<Rightarrow> (Inr a, w'))"

section \<open>Wire models\<close>

text \<open>\<open>EventOut\<close>, \<open>AttemptOut\<close>, \<open>DlqOut\<close>, \<open>ReplayResultOut\<close> and \<open>ReplayOut\<close> as JSON objects.\<close>

definition json_opt :: "('a \<Rightarrow> json) \<Rightarrow> 'a option \<Rightarrow> json" where
  "json_opt f v = (case v of None \<Rightarrow> JNull | Some x \<Rightarrow> f x)"

definition event_out :: "(datetime \<Rightarrow> py_str) \<Rightarrow> event_summary \<Rightarrow> json_object" where
  "event_out fmt e = [(''id'', JInt (es_id e)), (''source'', JStr (es_source e)),
     (''external_id'', JStr (es_external_id e)), (''event_type'', JStr (es_event_type e)),
     (''entity_type'', JStr (es_entity_type e)), (''entity_id'', JStr (es_entity_id e)),
     (''status'', JStr (webhook_status_value (es_status e))), (''attempt_count'', JInt (es_attempt_count e)),
     (''occurred_at'', JStr (fmt (es_occurred_at e))), (''received_at'', JStr (fmt (es_received_at e))),
     (''next_attempt_at'', JStr (fmt (es_next_attempt_at e))),
     (''processed_at'', json_opt (JStr \<circ> fmt) (es_processed_at e)), (''last_error'', json_opt JStr (es_last_error e))]"

definition attempt_out :: "(datetime \<Rightarrow> py_str) \<Rightarrow> attempt_record \<Rightarrow> json_object" where
  "attempt_out fmt a = [(''id'', JInt (ar_id a)), (''attempt_number'', JInt (ar_attempt_number a)),
     (''started_at'', JStr (fmt (ar_started_at a))), (''finished_at'', json_opt (JStr \<circ> fmt) (ar_finished_at a)),
     (''outcome'', json_opt (JStr \<circ> attempt_outcome_value) (ar_outcome a)),
     (''error_class'', json_opt JStr (ar_error_class a)), (''error_detail'', json_opt JStr (ar_error_detail a)),
     (''duration_ms'', json_opt JInt (ar_duration_ms a))]"

definition event_detail_out :: "(datetime \<Rightarrow> py_str) \<Rightarrow> event_detail \<Rightarrow> json_object" where
  "event_detail_out fmt d = event_out fmt (ed_event d)
     @ [(''attempts'', JArr (map (\<lambda>a. JObj (attempt_out fmt a)) (ed_attempts d)))]"

definition dlq_out :: "(datetime \<Rightarrow> py_str) \<Rightarrow> dlq_record \<Rightarrow> json_object" where
  "dlq_out fmt r = [(''id'', JInt (dr_id r)), (''event_id'', JInt (dr_event_id r)), (''source'', JStr (dr_source r)),
     (''event_type'', JStr (dr_event_type r)), (''entity_type'', JStr (dr_entity_type r)),
     (''entity_id'', JStr (dr_entity_id r)), (''external_id'', JStr (dr_external_id r)),
     (''reason'', JStr (dr_reason r)), (''attempts_made'', JInt (dr_attempts_made r)),
     (''dead_lettered_at'', JStr (fmt (dr_dead_lettered_at r))), (''status'', JStr (dlq_status_value (dr_status r))),
     (''resolved_at'', json_opt (JStr \<circ> fmt) (dr_resolved_at r)),
     (''resolution_note'', json_opt JStr (dr_resolution_note r))]"

definition replay_result_out :: "replay_result \<Rightarrow> json_object" where
  "replay_result_out r = [(''event_id'', JInt (rp_event_id r)), (''outcome'', JStr (replay_outcome_value (rp_outcome r))),
     (''detail'', json_opt JStr (rp_detail r))]"

definition replay_out :: "int list \<Rightarrow> replay_result list \<Rightarrow> json_object" where
  "replay_out ids results = [(''requested'', JInt (int (length ids))),
     (''results'', JArr (map (\<lambda>r. JObj (replay_result_out r)) results))]"

section \<open>Validation\<close>

definition MAX_NOTE_LENGTH :: nat where "MAX_NOTE_LENGTH = 1000"

definition note_valid :: "py_str option \<Rightarrow> exc + unit" where
  "note_valid note = (case note of None \<Rightarrow> Inr () | Some n \<Rightarrow>
     if length n \<le> MAX_NOTE_LENGTH then Inr () else Inl (ValueError ''string_too_long''))"

text \<open>\<open>Query(gt=0, le=500)\<close> on the limit and \<open>Query(ge=0)\<close> on the offset.\<close>

definition page_valid :: "int option \<Rightarrow> int \<Rightarrow> exc + unit" where
  "page_valid limit offset =
     (if (case limit of None \<Rightarrow> True | Some n \<Rightarrow> 0 < n \<and> n \<le> 500) \<and> 0 \<le> offset then Inr ()
      else Inl (ValueError ''out of range''))"

definition page_limit :: "settings \<Rightarrow> int option \<Rightarrow> int" where
  "page_limit settings limit =
     (case limit of None \<Rightarrow> admin_page_size settings | Some n \<Rightarrow> if n = 0 then admin_page_size settings else n)"

record replay_in =
  ri_event_ids :: "int list option"
  ri_dead_lettered :: bool
  ri_since :: "py_datetime option"
  ri_until :: "py_datetime option"
  ri_reason :: "py_str option"

fun datetime_ge :: "py_datetime \<Rightarrow> py_datetime \<Rightarrow> exc + bool" where
  "datetime_ge (Aware a) (Aware b) = Inr (b \<le> a)"
| "datetime_ge (Naive a) (Naive b) = Inr (b \<le> a)"
| "datetime_ge _ _ = Inl (TypeError ''can't compare offset-naive and offset-aware datetimes'')"

definition exactly_one_selector :: "replay_in \<Rightarrow> exc + unit" where
  "exactly_one_selector body =
     (let selectors = [ri_event_ids body \<noteq> None, ri_dead_lettered body, ri_since body \<noteq> None \<or> ri_until body \<noteq> None]
      in if length (filter id selectors) \<noteq> 1
         then Inl (ValueError ''choose exactly one of: event_ids, dead_lettered, or a since/until range'')
         else if (ri_since body = None) \<noteq> (ri_until body = None)
         then Inl (ValueError ''a time range needs both since and until'')
         else case (ri_since body, ri_until body) of
           (Some since, Some until) \<Rightarrow>
             bind_exc (datetime_ge since until) (\<lambda>ge.
               if ge then Inl (ValueError ''since must be before until'') else Inr ())
         | _ \<Rightarrow> Inr ())"

definition replay_valid :: "replay_in \<Rightarrow> exc + unit" where
  "replay_valid body = bind_exc (note_valid (ri_reason body)) (\<lambda>_. exactly_one_selector body)"

section \<open>Routes\<close>

definition list_events_route ::
  "(datetime \<Rightarrow> py_str) \<Rightarrow> settings \<Rightarrow> py_str option \<Rightarrow> event_filter \<Rightarrow> int option \<Rightarrow> int \<Rightarrow> json_object list answer prog" where
  "list_events_route fmt settings key f limit offset = guarded settings key (page_valid limit offset) (\<lambda>_.
     bind_tx (session_scope (list_events f (page_limit settings limit) offset)) (\<lambda>events.
     return_tx (map (event_out fmt) events)))"

definition get_event_route :: "(datetime \<Rightarrow> py_str) \<Rightarrow> settings \<Rightarrow> py_str option \<Rightarrow> int \<Rightarrow> json_object answer prog" where
  "get_event_route fmt settings key event_id = guarded settings key (Inr ()) (\<lambda>_.
     bind_tx (session_scope (get_event event_id)) (\<lambda>detail. case detail of
       None \<Rightarrow> raise_tx (HTTPException 404 ''no such event'')
     | Some d \<Rightarrow> return_tx (event_detail_out fmt d)))"

definition list_dlq_route ::
  "(datetime \<Rightarrow> py_str) \<Rightarrow> settings \<Rightarrow> py_str option \<Rightarrow> dlq_status option \<Rightarrow> int option \<Rightarrow> int \<Rightarrow> json_object list answer prog" where
  "list_dlq_route fmt settings key status limit offset = guarded settings key (page_valid limit offset) (\<lambda>_.
     bind_tx (session_scope (list_entries status (page_limit settings limit) offset)) (\<lambda>entries.
     return_tx (map (dlq_out fmt) entries)))"

datatype triage_action = Resolve | Discard

definition triage_target :: "triage_action \<Rightarrow> dlq_status" where
  "triage_target action = (if action = Resolve then RESOLVED else DISCARDED)"

definition as_conflict :: "exc \<Rightarrow> exc" where
  "as_conflict e = (case e of InvalidDlqTransitionError m \<Rightarrow> HTTPException 409 m | _ \<Rightarrow> e)"

definition triage_body :: "int \<Rightarrow> dlq_status \<Rightarrow> py_str option \<Rightarrow> dlq_record prog" where
  "triage_body entry_id target note =
     bind_tx (get_entry entry_id) (\<lambda>entry. case entry of
       None \<Rightarrow> raise_tx (HTTPException 404 ''no such dead-letter entry'')
     | Some _ \<Rightarrow> map_exc as_conflict (bind_tx clock_now (\<lambda>now. transition entry_id target now note)))"

definition triage_route ::
  "(datetime \<Rightarrow> py_str) \<Rightarrow> settings \<Rightarrow> py_str option \<Rightarrow> int \<Rightarrow> triage_action \<Rightarrow> py_str option \<Rightarrow> json_object answer prog" where
  "triage_route fmt settings key entry_id action note = guarded settings key (note_valid note) (\<lambda>_.
     bind_tx (session_scope (triage_body entry_id (triage_target action) note)) (\<lambda>entry.
     return_tx (dlq_out fmt entry)))"

text \<open>Binding an instant without a time zone fails in the driver.\<close>

definition select_events :: "int \<Rightarrow> replay_in \<Rightarrow> int list prog" where
  "select_events limit body =
     (case ri_event_ids body of
        Some ids \<Rightarrow>
          if limit < int (length ids)
          then raise_tx (HTTPException 400 (''asked to replay '' @ show_int (int (length ids))
                 @ '' events; the limit is '' @ show_int limit))
          else return_tx ids
      | None \<Rightarrow>
          if ri_dead_lettered body then dead_lettered_event_ids limit NEEDS_REVIEW
          else (case (ri_since body, ri_until body) of
                  (Some (Aware since), Some (Aware until)) \<Rightarrow> event_ids_in_range since until limit
                | (Some _, Some _) \<Rightarrow> stmt (\<lambda>w. (Inl (db_error w ''22000''), w))
                | _ \<Rightarrow> raise_tx (OtherError ''AssertionError'' [])))"

definition as_not_found :: "exc \<Rightarrow> exc" where
  "as_not_found e = (case e of EventNotFoundError m \<Rightarrow> HTTPException 404 m | _ \<Rightarrow> e)"

text \<open>A generator of its own for the batch.\<close>

definition with_rng :: "rng \<Rightarrow> 'a prog \<Rightarrow> 'a prog" where
  "with_rng r p w = (case p (w\<lparr>rng := r\<rparr>) of (x, w') \<Rightarrow> (x, w'\<lparr>rng := rng w\<rparr>))"

definition replay_route ::
  "(int \<Rightarrow> nat \<Rightarrow> 53 word) \<Rightarrow> (nat \<Rightarrow> 53 word) \<Rightarrow> settings \<Rightarrow> py_str option \<Rightarrow> replay_in \<Rightarrow> json_object answer prog" where
  "replay_route mt entropy settings key body = guarded settings key (replay_valid body) (\<lambda>operator.
     bind_tx (session_scope (select_events (replay_max_batch settings) body)) (\<lambda>ids.
     bind_tx (map_exc as_not_found (with_rng (create_rng mt entropy (jitter_seed settings))
         (replay_events ids operator (ri_reason body) balance_registry settings))) (\<lambda>results.
     return_tx (replay_out ids results))))"

section \<open>Laws\<close>

lemma map_exc_run:
  "map_exc f p w = (Inr a, w') \<longleftrightarrow> p w = (Inr a, w')"
  "map_exc f p w = (Inl e, w') \<longleftrightarrow> (\<exists>x. p w = (Inl x, w') \<and> e = f x)"
  by (auto simp: map_exc_def split: prod.splits sum.splits)

lemma with_rng_run: "with_rng r p w = (x, w') \<longleftrightarrow> (\<exists>w1. p (w\<lparr>rng := r\<rparr>) = (x, w1) \<and> w' = w1\<lparr>rng := rng w\<rparr>)"
  by (auto simp: with_rng_def split: prod.splits)

lemma with_rng_state:
  "tables (snd (with_rng r p w)) = tables (snd (p (w\<lparr>rng := r\<rparr>)))"
  "seqs (snd (with_rng r p w)) = seqs (snd (p (w\<lparr>rng := r\<rparr>)))"
  "env (snd (with_rng r p w)) = env (snd (p (w\<lparr>rng := r\<rparr>)))"
  by (simp_all add: with_rng_def split: prod.splits)

lemma frame_wrappers [frame_intros]:
  "frame p \<Longrightarrow> frame (map_exc f p)" "frame p \<Longrightarrow> frame (with_rng r p)"
proof -
  assume p: "frame p"
  have "snd (map_exc f p w) = snd (p w)" for w
    by (auto simp: map_exc_def split: prod.splits sum.splits)
  then show "frame (map_exc f p)" using p by (simp add: frame_def)
  have "env (snd (p (w\<lparr>rng := r\<rparr>))) = env w \<and> seqs_le (seqs w) (seqs (snd (p (w\<lparr>rng := r\<rparr>))))" for w
    using p [unfolded frame_def, rule_format, of "w\<lparr>rng := r\<rparr>"] by simp
  then show "frame (with_rng r p)" unfolding frame_def with_rng_state by blast
qed

context tx_invariant
begin

lemma ok_map_exc: "ok_keeps I p \<Longrightarrow> ok_keeps I (map_exc f p)"
  by (auto simp: ok_keeps_def map_exc_run)

lemma keeps_map_exc: "keeps I p \<Longrightarrow> keeps I (map_exc f p)"
  unfolding keeps_def map_exc_def by (auto split: prod.splits sum.splits)

lemma keeps_with_rng:
  assumes "keeps I p" shows "keeps I (with_rng r p)"
proof -
  have "I (tables w) (seqs w) \<Longrightarrow> I (tables (snd (p (w\<lparr>rng := r\<rparr>)))) (seqs (snd (p (w\<lparr>rng := r\<rparr>))))" for w
    using assms [unfolded keeps_def, rule_format, of "w\<lparr>rng := r\<rparr>"] by simp
  then show ?thesis unfolding keeps_def with_rng_state by blast
qed

lemma keeps_respond: "keeps I p \<Longrightarrow> keeps I (respond p)"
  unfolding keeps_def respond_def by (auto split: prod.splits sum.splits exc.splits)

lemma keeps_guarded: "(\<And>op. keeps I (h op)) \<Longrightarrow> keeps I (guarded st key v h)"
  unfolding guarded_def by (auto intro!: keeps_simple keeps_respond split: outcome.splits sum.splits exc.splits)

end

lemma guarded_refuses: "require_admin st key = HttpError c d \<Longrightarrow> guarded st key v h w = (Inr (Refused c d), w)"
  by (simp add: guarded_def return_tx_def)

text \<open>Every run of a guarded route.\<close>

lemma guarded_cases:
  assumes "guarded st key v h w = (x, w')"
  obtains (refused) code d where "require_admin st key = HttpError code d" "x = Inr (Refused code d)" "w' = w"
  | (raised) e where "x = Inl e" "w' = w"
  | (invalid) m where "v = Inl (ValueError m)" "x = Inr Invalid" "w' = w"
  | (handled) op y where "key = Some (admin_api_key st)" "v = Inr ()" "h op w = (y, w')"
      "x = (case y of Inr a \<Rightarrow> Inr (Answer a) | Inl e \<Rightarrow> (case e of HTTPException c d \<Rightarrow> Inr (Refused c d) | _ \<Rightarrow> Inl e))"
proof (cases "require_admin st key")
  case (HttpError code d)
  with assms show ?thesis by (intro refused) (auto simp: guarded_def return_tx_def)
next
  case (Raised e)
  with assms show ?thesis by (intro raised) (auto simp: guarded_def raise_tx_def)
next
  case (Returned op)
  have key: "key = Some (admin_api_key st)" using Returned by (auto simp: require_admin_def compare_digest_def split: option.splits if_splits)
  show ?thesis
  proof (cases v)
    case (Inl e)
    show ?thesis
    proof (cases "\<exists>m. e = ValueError m")
      case True
      with assms Returned Inl show ?thesis by (auto simp: guarded_def return_tx_def intro: invalid)
    next
      case False
      with assms Returned Inl show ?thesis by (intro raised [of e]) (auto simp: guarded_def raise_tx_def split: exc.splits)
    qed
  next
    case (Inr u)
    obtain y w1 where y: "h op w = (y, w1)" by (cases "h op w")
    have "w1 = w'" "x = (case y of Inr a \<Rightarrow> Inr (Answer a) | Inl e \<Rightarrow> (case e of HTTPException c d \<Rightarrow> Inr (Refused c d) | _ \<Rightarrow> Inl e))"
      using assms Returned Inr y by (auto simp: guarded_def respond_def split: sum.splits exc.splits)
    with y key Inr show ?thesis by (intro handled [of op y]) simp_all
  qed
qed

lemma blind_respond [blind_intros]:
  assumes p: "blind p" shows "blind (respond p)"
proof (rule blindI)
  fix w :: world assume c: "content_free_scan (env w)"
  obtain r w1 where r: "p w = (r, w1)" by (cases "p w")
  note b = blind_run [OF p c r]
  with r show "respond p (blank_world w) = (fst (respond p w), blank_world (snd (respond p w))) \<and> env (snd (respond p w)) = env w"
    by (cases r) (auto simp: respond_def split: exc.splits)
qed

lemma blind_map_exc [blind_intros]:
  assumes p: "blind p" shows "blind (map_exc f p)"
proof (rule blindI)
  fix w :: world assume c: "content_free_scan (env w)"
  obtain r w1 where r: "p w = (r, w1)" by (cases "p w")
  note b = blind_run [OF p c r]
  with r show "map_exc f p (blank_world w) = (fst (map_exc f p w), blank_world (snd (map_exc f p w))) \<and> env (snd (map_exc f p w)) = env w"
    by (cases r) (auto simp: map_exc_def)
qed

lemma blind_guarded [blind_intros]: "(\<And>op. blind (h op)) \<Longrightarrow> blind (guarded st key v h)"
  unfolding guarded_def by (auto intro!: blind_intros split: outcome.splits sum.splits exc.splits)

lemma keeps_triage: "keeps db_inv (session_scope (triage_body i target note))"
proof (rule inv.keeps_session_scope)
  show "frame (triage_body i target note)"
    unfolding triage_body_def by (auto intro!: frame_intros split: option.splits)
  show "ok_keeps db_inv (triage_body i target note)"
    unfolding triage_body_def get_entry_def
    by (auto intro!: inv.ok_bind inv.ok_simple ok_query_by_id inv.ok_map_exc ok_transition split: option.splits)
qed

text \<open>The database driver raises none of the application's own exceptions.\<close>

definition driver_exc :: "exc \<Rightarrow> bool" where
  "driver_exc e \<longleftrightarrow> (case e of HTTPException _ _ \<Rightarrow> False | InvalidDlqTransitionError _ \<Rightarrow> False | EventNotFoundError _ \<Rightarrow> False | _ \<Rightarrow> True)"

definition driver_faults :: "env \<Rightarrow> bool" where
  "driver_faults v \<longleftrightarrow> (\<forall>k x. faults v k = Some x \<longrightarrow> driver_exc (fault_exc x))"

lemma driver_faultsD: "driver_faults v \<Longrightarrow> faults v k = Some x \<Longrightarrow> driver_exc (fault_exc x)"
  by (simp add: driver_faults_def)

lemma driver_exc_simps [simp]:
  "driver_exc (db_error w c)" "driver_exc (integrity_error w c)" "driver_exc (RuntimeError m)" "driver_exc (NoResultFound m)"
  "\<not> driver_exc (InvalidDlqTransitionError m)" "\<not> driver_exc (HTTPException k d)" "\<not> driver_exc (EventNotFoundError m)"
  by (simp_all add: driver_exc_def db_error_def integrity_error_def)

definition raises :: "(exc \<Rightarrow> bool) \<Rightarrow> 'a prog \<Rightarrow> bool" where
  "raises P p \<longleftrightarrow> (\<forall>w e w'. driver_faults (env w) \<longrightarrow> p w = (Inl e, w') \<longrightarrow> P e)"

lemma raisesD: "raises P p \<Longrightarrow> driver_faults (env w) \<Longrightarrow> p w = (Inl e, w') \<Longrightarrow> P e"
  by (simp add: raises_def)

named_theorems raises_intros "which exceptions a program raises"

lemma raises_simple [raises_intros]:
  "raises P (return_tx a)" "P e \<Longrightarrow> raises P (raise_tx e)" "raises P clock_now" "(\<And>e. r = Inl e \<Longrightarrow> P e) \<Longrightarrow> raises P (lift_exc r)"
  by (auto simp: raises_def return_tx_def raise_tx_def clock_now_def lift_exc_def)

lemma raises_bind [raises_intros]:
  assumes "raises P m" "frame m" "\<And>a. raises P (f a)"
  shows "raises P (bind_tx m f)"
  unfolding raises_def
proof (intro allI impI)
  fix w e w' assume d: "driver_faults (env w)" and run: "bind_tx m f w = (Inl e, w')"
  obtain r w1 where r: "m w = (r, w1)" by (cases "m w")
  have env: "env w1 = env w" using frameD [OF assms(2) r] by simp
  show "P e"
  proof (cases r)
    case (Inl e1)
    with run r have "m w = (Inl e, w')" by (simp add: bind_tx_def)
    with assms(1) d show ?thesis by (rule raisesD)
  next
    case (Inr a)
    with run r have "f a w1 = (Inl e, w')" by (simp add: bind_tx_def)
    with assms(3) [of a] d env show ?thesis using raisesD [of P "f a" w1] by simp
  qed
qed

lemma raises_stmt:
  assumes "\<And>w e w'. f w = (Inl e, w') \<Longrightarrow> driver_exc e"
  shows "raises driver_exc (stmt f)"
  unfolding raises_def
proof (intro allI impI)
  fix w e w' assume "driver_faults (env w)" "stmt f w = (Inl e, w')"
  then show "driver_exc e"
    using driver_faultsD [of "env w" "stmts w"] assms [of "tick_stmt w" e w'] by (auto simp: stmt_def Let_def split: option.splits)
qed

lemma raises_statements [raises_intros]:
  "raises driver_exc (query_by_id i f)" "raises driver_exc (update_entry i target now note)"
  unfolding query_by_id_def update_entry_def modify_def
  by (rule raises_stmt; auto simp: Let_def split: if_splits sum.splits)+

lemma raises_get_entry [raises_intros]: "raises driver_exc (get_entry i)"
  unfolding get_entry_def by (rule raises_statements)

definition finish_transition :: "int \<Rightarrow> dlq_status \<Rightarrow> datetime \<Rightarrow> py_str option \<Rightarrow> dlq_record prog" where
  "finish_transition i target now nt = bind_tx (update_entry i target now nt) (\<lambda>_. bind_tx (get_entry i) (\<lambda>entry.
     case entry of
       None \<Rightarrow> raise_tx (RuntimeError (''dead-letter entry '' @ show_int i @ '' vanished under a row lock''))
     | Some r \<Rightarrow> return_tx r))"

lemma transition_eq:
  "transition i target now nt =
     bind_tx (query_by_id i (\<lambda>w. find_row (\<lambda>d. dl_id d = i) (dead_letter_entry_t (tables w)))) (\<lambda>row.
       case row of
         None \<Rightarrow> raise_tx (NoResultFound ''No row was found when one was required'')
       | Some d \<Rightarrow> bind_tx (lift_exc (ensure_transition (dl_status d) target)) (\<lambda>_. finish_transition i target now nt))"
  by (simp only: transition_def finish_transition_def)

lemma bind_tx_Inl:
  "bind_tx m f w = (Inl e, w') \<longleftrightarrow> m w = (Inl e, w') \<or> (\<exists>a w1. m w = (Inr a, w1) \<and> f a w1 = (Inl e, w'))"
  by (auto simp: bind_tx_def split: prod.splits sum.splits)

text \<open>A transition that fails for a reason of the application's was an illegal move.\<close>

lemma transition_raises:
  assumes run: "transition i target now note w = (Inl e, w')" and d: "driver_faults (env w)"
  shows "driver_exc e \<or> (\<exists>d m. find_row (\<lambda>d. dl_id d = i) (dead_letter_entry_t (tables w)) = Some d
      \<and> target \<notin> set (ALLOWED (dl_status d)) \<and> e = InvalidDlqTransitionError m)"
proof -
  let ?q = "query_by_id i (\<lambda>w. find_row (\<lambda>d. dl_id d = i) (dead_letter_entry_t (tables w)))"
  obtain r w1 where r: "?q w = (r, w1)" by (cases "?q w")
  show ?thesis
  proof (cases r)
    case (Inl x)
    with run r have "?q w = (Inl e, w')" by (simp add: transition_eq bind_tx_def)
    with d show ?thesis using raisesD [OF raises_statements(1)] by blast
  next
    case (Inr row)
    have row: "row = find_row (\<lambda>d. dl_id d = i) (dead_letter_entry_t (tables w))" and env: "env w1 = env w"
      using r Inr by (auto simp: tx_simps)
    show ?thesis
    proof (cases row)
      case None
      with run r Inr show ?thesis by (auto simp: transition_eq bind_tx_def raise_tx_def)
    next
      case (Some d0)
      let ?rest = "finish_transition i target now note"
      have rest: "raises driver_exc ?rest"
        unfolding finish_transition_def by (auto intro!: raises_intros frame_intros split: option.splits)
      have run1: "bind_tx (lift_exc (ensure_transition (dl_status d0) target)) (\<lambda>_. ?rest) w1 = (Inl e, w')"
        using run r Inr Some by (simp add: transition_eq bind_tx_def)
      show ?thesis
      proof (cases "ensure_transition (dl_status d0) target = Inr ()")
        case True
        with run1 have "?rest w1 = (Inl e, w')" by (simp add: bind_tx_def [of "lift_exc _"] lift_exc_def)
        with rest d env show ?thesis using raisesD [of driver_exc ?rest w1] by simp
      next
        case False
        then have t: "target \<notin> set (ALLOWED (dl_status d0))" by (simp add: ensure_transition_ok)
        from False ensure_transition_cases [of "dl_status d0" target] obtain m
          where "ensure_transition (dl_status d0) target = Inl (InvalidDlqTransitionError m)" by blast
        with run1 have "e = InvalidDlqTransitionError m" by (simp add: bind_tx_def lift_exc_def)
        with t row [symmetric] Some show ?thesis by auto
      qed
    qed
  qed
qed

lemma session_scope_raises:
  assumes "session_scope body w = (Inl e, w')" "frame body" "driver_faults (env w)"
  shows "driver_exc e \<or> (\<exists>w1. body (begin_tx w) = (Inl e, w1)) \<and> tables w' = tables w"
proof -
  obtain r w1 where r: "body (begin_tx w) = (r, w1)" by (cases "body (begin_tx w)")
  have "env w1 = env w" using frameD [OF assms(2) r] by simp
  with r assms(1,3) driver_faultsD [of "env w" "stmts w1"] show ?thesis
    by (cases r) (auto simp: session_scope_def Let_def split: option.splits fault.splits)
qed

lemma get_entry_Inr:
  assumes "get_entry i w = (Inr r, w')"
  shows "tables w' = tables w" "env w' = env w"
    and "r = None \<Longrightarrow> refs_ok (tables w) \<Longrightarrow> \<forall>d \<in> set (dead_letter_entry_t (tables w)). dl_id d \<noteq> i"
    and "r = Some x \<Longrightarrow> \<exists>d e. d \<in> set (dead_letter_entry_t (tables w)) \<and> dl_id d = i \<and> x = to_record d e"
proof -
  let ?es = "webhook_event_t (tables w)" and ?ds = "filter (\<lambda>d. dl_id d = i) (dead_letter_entry_t (tables w))"
  have r: "r = (case base_query ?es ?ds of [] \<Rightarrow> None | (d, e) # _ \<Rightarrow> Some (to_record d e))"
    and "tables w' = tables w" "env w' = env w"
    using assms by (auto simp: get_entry_def tx_simps)
  then show "tables w' = tables w" "env w' = env w" by simp_all
  have mem: "d \<in> set ?ds" if "base_query ?es ?ds = (d, e) # ps" for d e ps
  proof -
    have "(d, e) \<in> set (base_query ?es ?ds)" by (simp add: that)
    then show ?thesis by (auto simp: base_query_def)
  qed
  show "\<exists>d e. d \<in> set (dead_letter_entry_t (tables w)) \<and> dl_id d = i \<and> x = to_record d e" if "r = Some x"
  proof (cases "base_query ?es ?ds")
    case Nil
    with that show ?thesis by (simp add: r)
  next
    case (Cons p ps)
    obtain d e where p: "p = (d, e)" by (cases p)
    with mem [of d e ps] Cons that show ?thesis by (intro exI [of _ d] exI [of _ e]) (simp add: r)
  qed
  show "\<forall>d \<in> set (dead_letter_entry_t (tables w)). dl_id d \<noteq> i" if "r = None" "refs_ok (tables w)"
  proof (intro ballI notI)
    fix d assume d: "d \<in> set (dead_letter_entry_t (tables w))" "dl_id d = i"
    have "base_query ?es ?ds = []" using that(1) by (cases "base_query ?es ?ds") (auto simp: r)
    moreover have "dl_event_id d \<in> ev_id ` set ?es" using that(2) d(1) by (auto simp: refs_ok_def event_ids_def)
    moreover from calculation(1) d have "\<forall>x \<in> set ?es. ev_id x \<noteq> dl_event_id d"
      by (fastforce simp: base_query_def filter_empty_conv)
    ultimately show False by auto
  qed
qed

lemma transition_record:
  assumes "transition i target now note w = (Inr r, w')"
  shows "dr_id r = i \<and> dr_status r = target"
proof -
  obtain w1 w2 where u: "update_entry i target now note w1 = (Inr (), w2)" and g: "get_entry i w2 = (Inr (Some r), w')"
  proof -
    from assms obtain wa where "finish_transition i target now note wa = (Inr r, w')"
      by (auto simp: transition_eq prog_ok split: option.splits)
    then obtain u wb wc entry where "update_entry i target now note wa = (Inr u, wb)" "get_entry i wb = (Inr entry, wc)"
      "(case entry of None \<Rightarrow> raise_tx (RuntimeError (''dead-letter entry '' @ show_int i @ '' vanished under a row lock''))
             | Some r \<Rightarrow> return_tx r) wc = (Inr r, w')"
      unfolding finish_transition_def prog_ok by blast
    then show thesis using that by (cases entry; cases u) (auto simp: prog_ok)
  qed
  obtain d e where d: "d \<in> set (dead_letter_entry_t (tables w2))" "dl_id d = i" "r = to_record d e"
    using get_entry_Inr(4) [OF g, of r] by auto
  have "dead_letter_entry_t (tables w2) = update_where (\<lambda>d. dl_id d = i) (moved_entry target now note) (dead_letter_entry_t (tables w1))"
    using u by (auto simp: update_entry_def tx_simps Let_def split: if_splits)
  with d(1) obtain s where "d = (if dl_id s = i then moved_entry target now note s else s)" by (auto dest: update_where_memD)
  with d(2) have "dl_id d = i" "dl_status d = target" by (auto split: if_splits)
  then show ?thesis by (simp add: d(3) to_record_def)
qed

lemma triage_target_terminal: "triage_target action \<in> set TERMINAL"
  by (simp add: triage_target_def TERMINAL_def)

lemma frame_triage_body [frame_intros]: "frame (triage_body i target note)"
  unfolding triage_body_def by (auto intro!: frame_intros split: option.splits)

lemma triage_body_ok:
  assumes run: "triage_body i target note w = (Inr rec, w2)" and fin: "target \<in> set TERMINAL"
  shows "\<exists>d now. find_row (\<lambda>d. dl_id d = i) (dead_letter_entry_t (tables w)) = Some d
        \<and> dl_status d \<notin> set TERMINAL \<and> dr_id rec = i \<and> dr_status rec = target
        \<and> tables w2 = (tables w)\<lparr>dead_letter_entry_t := update_where (\<lambda>d. dl_id d = i)
              (\<lambda>d. d\<lparr>dl_status := target, dl_resolution_note := note, dl_resolved_at := Some now\<rparr>)
              (dead_letter_entry_t (tables w))\<rparr>"
proof -
  obtain e now wa wb where g: "get_entry i w = (Inr (Some e), wa)"
    and tr: "transition i target now note wb = (Inr rec, w2)" and wb: "tables wb = tables wa"
    using run by (auto simp: triage_body_def prog_ok map_exc_run split: option.splits)
  have ta: "tables wb = tables w" using get_entry_Inr(1) [OF g] wb by simp
  have m: "moved_entry target now note = (\<lambda>d. d\<lparr>dl_status := target, dl_resolution_note := note, dl_resolved_at := Some now\<rparr>)"
    using fin by (intro ext) (simp add: moved_entry_def Let_def)
  from tr show ?thesis
  proof (cases rule: transition_ok)
    case (1 d)
    have "dl_status d \<notin> set TERMINAL" using terminal_no_move 1(2) by blast
    with 1(1,3) ta transition_record [OF tr] m show ?thesis by auto
  qed
qed

lemma triage_body_raises:
  assumes run: "triage_body i target note w = (Inl e, w2)" and d: "driver_faults (env w)" and nd: "\<not> driver_exc e"
    and refs: "refs_ok (tables w)" and fin: "target \<in> set TERMINAL"
  shows "(\<exists>m. e = HTTPException 404 m) \<and> (\<forall>d \<in> set (dead_letter_entry_t (tables w)). dl_id d \<noteq> i)
    \<or> (\<exists>m. e = HTTPException 409 m) \<and>
        (\<exists>d. find_row (\<lambda>d. dl_id d = i) (dead_letter_entry_t (tables w)) = Some d \<and> dl_status d \<in> set TERMINAL)"
proof -
  obtain x wa where g: "get_entry i w = (x, wa)" by (cases "get_entry i w")
  show ?thesis
  proof (cases x)
    case (Inl e1)
    with run g have "get_entry i w = (Inl e, w2)" by (simp add: triage_body_def bind_tx_def)
    with raisesD [OF raises_get_entry d this] nd show ?thesis by simp
  next
    case (Inr entry)
    note ge = get_entry_Inr [OF g [unfolded Inr]]
    show ?thesis
    proof (cases entry)
      case None
      moreover have "e = HTTPException 404 ''no such dead-letter entry''"
        using run g Inr None by (simp add: triage_body_def bind_tx_def raise_tx_def)
      ultimately show ?thesis using ge(3) refs by auto
    next
      case (Some e0)
      with run g Inr obtain e1 now wb where tr: "transition i target now note wb = (Inl e1, w2)" and e: "e = as_conflict e1"
        and wb: "tables wb = tables wa" "env wb = env wa"
        by (auto simp: triage_body_def bind_tx_def [of "get_entry i"] map_exc_run bind_tx_Inl clock_now_def)
      have "driver_faults (env wb)" "tables wb = tables w" using ge(1,2) wb d by simp_all
      from transition_raises [OF tr this(1)] this(2) obtain d
        where "driver_exc e1 \<or> find_row (\<lambda>d. dl_id d = i) (dead_letter_entry_t (tables w)) = Some d
          \<and> target \<notin> set (ALLOWED (dl_status d)) \<and> (\<exists>m. e1 = InvalidDlqTransitionError m)" by auto
      moreover have "driver_exc e1 \<Longrightarrow> as_conflict e1 = e1" by (auto simp: as_conflict_def driver_exc_def split: exc.splits)
      ultimately have f: "find_row (\<lambda>d. dl_id d = i) (dead_letter_entry_t (tables w)) = Some d" "target \<notin> set (ALLOWED (dl_status d))"
        and c: "\<exists>m. e = HTTPException 409 m"
        using nd e by (auto simp: as_conflict_def)
      have "dl_status d \<in> set TERMINAL"
        using f(2) fin open_moves_to_terminal [of "dl_status d" target] by (auto simp: dlq_move_iff ensure_transition_ok)
      with f(1) c show ?thesis by auto
    qed
  qed
qed

section \<open>Properties\<close>

text \<open>The selector of a replay request is accepted exactly when it is one of: a list of ids; the dead-letter queue; a
  range with both ends, of the same kind, in order.\<close>

theorem one_selector_iff:
  "exactly_one_selector body = Inr () \<longleftrightarrow>
     ri_event_ids body \<noteq> None \<and> \<not> ri_dead_lettered body \<and> ri_since body = None \<and> ri_until body = None
   \<or> ri_event_ids body = None \<and> ri_dead_lettered body \<and> ri_since body = None \<and> ri_until body = None
   \<or> ri_event_ids body = None \<and> \<not> ri_dead_lettered body
      \<and> (\<exists>a b. a < b \<and> (ri_since body = Some (Aware a) \<and> ri_until body = Some (Aware b)
                  \<or> ri_since body = Some (Naive a) \<and> ri_until body = Some (Naive b)))"
proof (cases "ri_since body")
  case None
  then show ?thesis by (cases "ri_until body") (auto simp: exactly_one_selector_def Let_def)
next
  case (Some a)
  show ?thesis
  proof (cases "ri_until body")
    case (Some b)
    with \<open>ri_since body = Some a\<close> show ?thesis
      by (cases a; cases b) (auto simp: exactly_one_selector_def Let_def bind_exc_Inr)
  qed (auto simp: exactly_one_selector_def Let_def Some)
qed

text \<open>Nothing behind the guard runs for a stranger: without the configured key every admin route answers 401 and
  leaves the whole state as it was.\<close>

theorem admin_locked:
  assumes "key \<noteq> Some (admin_api_key st)" "is_ascii (admin_api_key st)" "\<forall>k. key = Some k \<longrightarrow> is_ascii k"
  shows "list_events_route fmt st key f limit offset w = (Inr (Refused 401 ''admin authentication failed''), w)
    \<and> get_event_route fmt st key i w = (Inr (Refused 401 ''admin authentication failed''), w)
    \<and> list_dlq_route fmt st key s limit offset w = (Inr (Refused 401 ''admin authentication failed''), w)
    \<and> triage_route fmt st key i action n w = (Inr (Refused 401 ''admin authentication failed''), w)
    \<and> replay_route mt entropy st key body w = (Inr (Refused 401 ''admin authentication failed''), w)"
proof -
  have "require_admin st key = HttpError 401 ''admin authentication failed''"
    using assms by (auto simp: require_admin_def compare_digest_def split: option.splits)
  then show ?thesis
    unfolding list_events_route_def get_event_route_def list_dlq_route_def triage_route_def replay_route_def
    by (intro conjI guarded_refuses)
qed

text \<open>C35. The support tool does not leak: what the read routes and the triage route answer, and everything they change, is
  the same on a database whose payloads and headers have been blanked out.\<close>

theorem admin_reads_leak_nothing:
  assumes "content_free_scan (env w)"
  shows "list_events_route fmt st key f limit offset (blank_world w)
      = (fst (list_events_route fmt st key f limit offset w), blank_world (snd (list_events_route fmt st key f limit offset w)))
    \<and> get_event_route fmt st key i (blank_world w)
      = (fst (get_event_route fmt st key i w), blank_world (snd (get_event_route fmt st key i w)))
    \<and> list_dlq_route fmt st key s limit offset (blank_world w)
      = (fst (list_dlq_route fmt st key s limit offset w), blank_world (snd (list_dlq_route fmt st key s limit offset w)))
    \<and> triage_route fmt st key i action n (blank_world w)
      = (fst (triage_route fmt st key i action n w), blank_world (snd (triage_route fmt st key i action n w)))"
proof -
  have "blind (list_events_route fmt st key f limit offset)" "blind (get_event_route fmt st key i)"
    "blind (list_dlq_route fmt st key s limit offset)" "blind (triage_route fmt st key i action n)"
    unfolding list_events_route_def get_event_route_def list_dlq_route_def triage_route_def triage_body_def
    by (auto intro!: blind_intros split: option.splits)
  with assms show ?thesis by (auto intro: blindD)
qed

text \<open>C32. Triage. A resolve or discard of an open entry moves that entry and nothing else, sets its note and its time of
  resolution, and answers with it; an entry already terminal is refused with 409 and an unknown one with 404, the
  database unchanged; a note that is too long never reaches it.\<close>

theorem triage_decides:
  assumes inv: "db_inv (tables w) (seqs w)" and faults: "driver_faults (env w)"
    and run: "triage_route fmt st key i action note w = (Inr a, w')"
  shows "case a of
      Answer out \<Rightarrow> \<exists>d r now. find_row (\<lambda>d. dl_id d = i) (dead_letter_entry_t (tables w)) = Some d
        \<and> dl_status d \<notin> set TERMINAL \<and> out = dlq_out fmt r \<and> dr_id r = i \<and> dr_status r = triage_target action
        \<and> tables w' = (tables w)\<lparr>dead_letter_entry_t := update_where (\<lambda>d. dl_id d = i)
              (\<lambda>d. d\<lparr>dl_status := triage_target action, dl_resolution_note := note, dl_resolved_at := Some now\<rparr>)
              (dead_letter_entry_t (tables w))\<rparr>
    | Refused code _ \<Rightarrow> tables w' = tables w \<and> (code = 401
        \<or> code = 404 \<and> (\<forall>d \<in> set (dead_letter_entry_t (tables w)). dl_id d \<noteq> i)
        \<or> code = 409 \<and> (\<exists>d. find_row (\<lambda>d. dl_id d = i) (dead_letter_entry_t (tables w)) = Some d \<and> dl_status d \<in> set TERMINAL))
    | Invalid \<Rightarrow> w' = w \<and> (\<exists>n. note = Some n \<and> MAX_NOTE_LENGTH < length n)"
  using run [unfolded triage_route_def]
proof (cases rule: guarded_cases)
  case (refused code d)
  then show ?thesis by (auto simp: require_admin_def split: option.splits sum.splits if_splits)
next
  case (invalid m)
  then show ?thesis by (auto simp: note_valid_def split: option.splits if_splits)
next
  case (handled op y)
  let ?body = "triage_body i (triage_target action) note"
  obtain r w1 where r: "session_scope ?body w = (r, w1)" by (cases "session_scope ?body w")
  have y: "w1 = w'" "y = (case r of Inl e \<Rightarrow> Inl e | Inr rec \<Rightarrow> Inr (dlq_out fmt rec))"
    using handled(3) r by (cases r; simp add: bind_tx_def return_tx_def)+
  show ?thesis
  proof (cases r)
    case (Inr rec)
    with handled(4) y have a: "a = Answer (dlq_out fmt rec)" by simp
    from r [unfolded Inr] obtain w2 where b: "?body (begin_tx w) = (Inr rec, w2)" and t: "tables w1 = tables w2"
      by (cases rule: session_scope_cases) auto
    from triage_body_ok [OF b triage_target_terminal] a t y(1) show ?thesis by auto
  next
    case (Inl e)
    with handled(4) y have nd: "\<not> driver_exc e" and code: "\<And>c m. e = HTTPException c m \<Longrightarrow> a = Refused c m"
      by (auto simp: driver_exc_def split: exc.splits)
    from session_scope_raises [OF r [unfolded Inl] frame_triage_body faults] nd obtain w2
      where b: "?body (begin_tx w) = (Inl e, w2)" and t: "tables w1 = tables w" by blast
    have "driver_faults (env (begin_tx w))" "refs_ok (tables (begin_tx w))" using faults inv by (simp_all add: db_inv_def)
    from triage_body_raises [OF b this(1) nd this(2) triage_target_terminal] code t y(1) show ?thesis by auto
  qed
qed simp

lemma replay_events_ids:
  "replay_events is who why reg st w = (Inr rs, w') \<Longrightarrow> map rp_event_id rs = is"
proof (induction "is" arbitrary: w rs)
  case (Cons i "is")
  from Cons.prems obtain r w1 rs' where r: "replay_event i who why reg st w = (Inr r, w1)"
    and rs: "replay_events is who why reg st w1 = (Inr rs', w')" "rs = r # rs'"
    by (auto simp: tx_simps)
  have "rp_event_id r = i" using r by (auto simp: replay_event_def tx_simps Let_def case_prod_beta)
  with Cons.IH [OF rs(1)] rs(2) show ?case by simp
qed (simp add: tx_simps)

lemma select_events_ok:
  assumes "select_events limit body w = (Inr ids, w')" "0 \<le> limit"
  shows "int (length ids) \<le> limit" "tables w' = tables w" "ri_event_ids body = Some ids' \<Longrightarrow> ids = ids'"
  using assms
  by (auto simp: select_events_def tx_simps dead_lettered_event_ids_def event_ids_in_range_def order_by_limit_length
      split: option.splits if_splits py_datetime.splits)

text \<open>C33. Replay is bounded: an answered replay ran at most the configured number of events, one result each, in order --
  the ids asked for, when ids were asked for; and a request that names more than that replays nothing.\<close>

theorem replay_batch_bounded:
  assumes run: "replay_route mt entropy st key body w = (Inr a, w')" and pos: "0 \<le> replay_max_batch st"
  shows "(\<forall>out. a = Answer out \<longrightarrow> (\<exists>ids rs. out = replay_out ids rs \<and> map rp_event_id rs = ids
      \<and> int (length ids) \<le> replay_max_batch st \<and> (\<forall>asked. ri_event_ids body = Some asked \<longrightarrow> ids = asked)))
    \<and> (\<forall>asked. ri_event_ids body = Some asked \<and> replay_max_batch st < int (length asked) \<longrightarrow>
         (\<forall>out. a \<noteq> Answer out) \<and> tables w' = tables w)"
  using run [unfolded replay_route_def]
proof (cases rule: guarded_cases)
  case (handled op y)
  let ?sel = "select_events (replay_max_batch st) body"
  obtain r w1 where r: "session_scope ?sel w = (r, w1)" by (cases "session_scope ?sel w")
  show ?thesis
  proof (cases r)
    case (Inl e)
    have y: "y = Inl e" "w1 = w'" using handled(3) r Inl by (simp_all add: bind_tx_def)
    have "tables w1 = tables w" using r [unfolded Inl]
      by (cases rule: session_scope_cases) (auto dest: select_events_ok(2) [OF _ pos])
    then show ?thesis using handled(4) y by (auto split: exc.splits)
  next
    case (Inr ids)
    from r [unfolded Inr] obtain w2 where "?sel (begin_tx w) = (Inr ids, w2)"
      by (cases rule: session_scope_cases) auto
    note sel = select_events_ok(1,3) [OF this pos]
    have long: "\<not> (ri_event_ids body = Some asked \<and> replay_max_batch st < int (length asked))" for asked
      using sel by auto
    show ?thesis
    proof (cases y)
      case y: (Inr out)
      then obtain rs where out: "out = replay_out ids rs"
        and "\<exists>v v'. replay_events ids op (ri_reason body) balance_registry st v = (Inr rs, v')"
        using handled(3) r Inr by (auto simp: prog_ok map_exc_run with_rng_run)
      then have "map rp_event_id rs = ids" using replay_events_ids by blast
      with out sel long handled(4) y show ?thesis by auto
    qed (use handled(4) long in \<open>auto split: exc.splits\<close>)
  qed
qed auto

end
