(* ===== verification/DbObjects.thy ===== *)
theory DbObjects
  imports Dlq_Adapter
begin

text \<open>
  The objects migration 0003 adds to the database: the trigger functions that make the ledger and the
  attempt log immutable, the operator's views, the functions over the ledger and the queue, and the retention procedure
  with the cascades of the foreign keys it sets off. \<open>v_processing_outcomes\<close> is theory Outcomes.
\<close>

section \<open>Triggers\<close>

datatype trigger_op = TG_UPDATE | TG_DELETE

text \<open>A trigger function raises an SQLSTATE or lets the row through.\<close>

definition fn_set_updated_at :: "datetime \<Rightarrow> account \<Rightarrow> account" where
  "fn_set_updated_at now new = new\<lparr>ac_updated_at := now\<rparr>"

definition fn_ledger_entry_immutable :: "py_str option \<Rightarrow> trigger_op \<Rightarrow> py_str + unit" where
  "fn_ledger_entry_immutable allow_ledger_delete op =
     (if op = TG_UPDATE then Inl ''23000''
      else if (case allow_ledger_delete of None \<Rightarrow> ''off'' | Some v \<Rightarrow> v) \<noteq> ''on'' then Inl ''23000''
      else Inr ())"

definition fn_processing_attempt_immutable :: "processing_attempt \<Rightarrow> py_str + unit" where
  "fn_processing_attempt_immutable old = Inl ''23000''"

section \<open>Views\<close>

definition count_rows :: "('r \<Rightarrow> bool) \<Rightarrow> 'r list \<Rightarrow> int" where
  "count_rows p rows = int (length (filter p rows))"

record queue_health =
  qh_pending :: int
  qh_due_now :: int
  qh_waiting_on_backoff :: int
  qh_succeeded :: int
  qh_dead_lettered :: int
  qh_oldest_due_age :: int

definition oldest_age :: "datetime \<Rightarrow> webhook_event list \<Rightarrow> int" where
  "oldest_age now rows =
     (case max_col (\<lambda>e. now - ev_next_attempt_at e) (filter (is_due now) rows) of None \<Rightarrow> 0 | Some a \<Rightarrow> a)"

definition v_queue_health :: "datetime \<Rightarrow> tables \<Rightarrow> queue_health" where
  "v_queue_health now t = (let rows = webhook_event_t t in
     \<lparr>qh_pending = count_rows (\<lambda>e. ev_status e = PENDING) rows,
      qh_due_now = count_rows (\<lambda>e. ev_status e = PENDING \<and> ev_next_attempt_at e \<le> now) rows,
      qh_waiting_on_backoff = count_rows (\<lambda>e. ev_status e = PENDING \<and> now < ev_next_attempt_at e) rows,
      qh_succeeded = count_rows (\<lambda>e. ev_status e = SUCCEEDED) rows,
      qh_dead_lettered = count_rows (\<lambda>e. ev_status e = DEAD_LETTERED) rows,
      qh_oldest_due_age = oldest_age now rows\<rparr>)"

record reconciliation =
  rc_id :: int
  rc_external_ref :: py_str
  rc_balance_minor :: int
  rc_version :: int
  rc_ledger_sum :: int
  rc_drift :: int
  rc_ledger_rows :: int

definition v_account_reconciliation :: "tables \<Rightarrow> reconciliation list" where
  "v_account_reconciliation t = map (\<lambda>a.
     let sum = sum_col (\<lambda>l. le_account_id l = ac_id a) le_amount_minor (ledger_entry_t t)
     in \<lparr>rc_id = ac_id a, rc_external_ref = ac_external_ref a, rc_balance_minor = ac_balance_minor a,
         rc_version = ac_version a, rc_ledger_sum = sum, rc_drift = ac_balance_minor a - sum,
         rc_ledger_rows = count_rows (\<lambda>l. le_account_id l = ac_id a) (ledger_entry_t t)\<rparr>) (account_t t)"

text \<open>The open entries with the context of their event and their age.\<close>

definition v_dlq_open :: "datetime \<Rightarrow> tables \<Rightarrow> (dlq_record \<times> int) list" where
  "v_dlq_open now t =
     map (\<lambda>(d, e). (to_record d e, now - dl_dead_lettered_at d))
       (sort_key (\<lambda>(d, e). dl_dead_lettered_at d)
         (base_query (webhook_event_t t) (filter (\<lambda>d. dl_status d \<in> {NEEDS_REVIEW, REPLAYING}) (dead_letter_entry_t t))))"

record event_overview =
  eo_id :: int
  eo_status :: webhook_status
  eo_attempt_count :: int
  eo_processed_at :: "datetime option"
  eo_last_error :: "py_str option"
  eo_attempts_recorded :: int
  eo_last_attempt_at :: "datetime option"
  eo_last_outcome :: "attempt_outcome option"
  eo_has_effect :: bool

definition finished_times :: "processing_attempt list \<Rightarrow> datetime list" where
  "finished_times attempts = concat (map (\<lambda>a. case pa_finished_at a of None \<Rightarrow> [] | Some f \<Rightarrow> [f]) attempts)"

definition v_event_overview :: "tables \<Rightarrow> event_overview list" where
  "v_event_overview t = map (\<lambda>e.
     let attempts = attempts_of (ev_id e) t
     in \<lparr>eo_id = ev_id e, eo_status = ev_status e, eo_attempt_count = ev_attempt_count e,
         eo_processed_at = ev_processed_at e, eo_last_error = ev_last_error e,
         eo_attempts_recorded = int (length attempts),
         eo_last_attempt_at = max_col (\<lambda>f. f) (finished_times attempts),
         eo_last_outcome = (case sort_key (\<lambda>a. - pa_attempt_number a) attempts of [] \<Rightarrow> None | a # _ \<Rightarrow> pa_outcome a),
         eo_has_effect = list_ex (\<lambda>l. le_event_id l = ev_id e) (ledger_entry_t t)\<rparr>) (webhook_event_t t)"

section \<open>Functions\<close>

text \<open>The cast to \<open>bigint\<close> raises when the sum does not fit.\<close>

definition fn_account_balance :: "tables \<Rightarrow> py_str \<Rightarrow> py_str + int" where
  "fn_account_balance t ref =
     (let ids = map ac_id (filter (\<lambda>a. ac_external_ref a = ref) (account_t t));
          sum = sum_col (\<lambda>l. le_account_id l \<in> set ids) le_amount_minor (ledger_entry_t t)
      in if int8_ok sum then Inr sum else Inl ''22003'')"

definition fn_ledger_invariant_ok :: "tables \<Rightarrow> bool" where
  "fn_ledger_invariant_ok t = (\<not> list_ex (\<lambda>r. rc_drift r \<noteq> 0) (v_account_reconciliation t))"

definition fn_queue_lag :: "datetime \<Rightarrow> tables \<Rightarrow> int" where
  "fn_queue_lag now t =
     (case max_col (\<lambda>e. now - ev_next_attempt_at e)
             (filter (\<lambda>e. ev_status e = PENDING \<and> ev_next_attempt_at e \<le> now) (webhook_event_t t)) of
        None \<Rightarrow> 0 | Some a \<Rightarrow> a)"

section \<open>Deletion with its cascades\<close>

text \<open>\<open>replay_request.resulting_attempt_id\<close> is set to null when its attempt goes.\<close>

definition forget_attempts :: "int set \<Rightarrow> replay_request list \<Rightarrow> replay_request list" where
  "forget_attempts gone rows = update_where (\<lambda>r. case rr_resulting_attempt_id r of None \<Rightarrow> False | Some i \<Rightarrow> i \<in> gone)
     (\<lambda>r. r\<lparr>rr_resulting_attempt_id := None\<rparr>) rows"

definition delete_attempts :: "(processing_attempt \<Rightarrow> bool) \<Rightarrow> tables \<Rightarrow> tables" where
  "delete_attempts p t =
     t\<lparr>processing_attempt_t := filter (\<lambda>a. \<not> p a) (processing_attempt_t t),
       replay_request_t := forget_attempts (set (map pa_id (filter p (processing_attempt_t t)))) (replay_request_t t)\<rparr>"

text \<open>Deleting events takes their attempts, dead-letter entries, replay requests and ledger rows along; the ledger's
  trigger fires on the latter.\<close>

definition delete_events :: "py_str option \<Rightarrow> (webhook_event \<Rightarrow> bool) \<Rightarrow> tables \<Rightarrow> py_str + tables" where
  "delete_events allow_ledger_delete p t =
     (let gone = set (map ev_id (filter p (webhook_event_t t)));
          t1 = delete_attempts (\<lambda>a. pa_event_id a \<in> gone) t;
          t2 = t1\<lparr>webhook_event_t := filter (\<lambda>e. \<not> p e) (webhook_event_t t1),
                  dead_letter_entry_t := filter (\<lambda>d. dl_event_id d \<notin> gone) (dead_letter_entry_t t1),
                  replay_request_t := filter (\<lambda>r. rr_event_id r \<notin> gone) (replay_request_t t1),
                  ledger_entry_t := filter (\<lambda>l. le_event_id l \<notin> gone) (ledger_entry_t t1)\<rparr>
      in if list_ex (\<lambda>l. le_event_id l \<in> gone) (ledger_entry_t t)
         then (case fn_ledger_entry_immutable allow_ledger_delete TG_DELETE of Inl e \<Rightarrow> Inl e | Inr _ \<Rightarrow> Inr t2)
         else Inr t2)"

definition ended_well :: "datetime \<Rightarrow> webhook_event \<Rightarrow> bool" where
  "ended_well cutoff e \<longleftrightarrow> ev_status e = SUCCEEDED \<and> (case ev_processed_at e of None \<Rightarrow> False | Some p \<Rightarrow> p < cutoff)"

text \<open>The procedure: the tables it leaves with the counts of attempts and of events purged.\<close>

definition sp_purge_history :: "py_str option \<Rightarrow> datetime \<Rightarrow> int \<Rightarrow> tables \<Rightarrow> py_str + (tables \<times> int \<times> int)" where
  "sp_purge_history allow_ledger_delete now older_than t =
     (let cutoff = now - older_than;
          old = set (map ev_id (filter (ended_well cutoff) (webhook_event_t t)));
          p_attempt = (\<lambda>a. pa_event_id a \<in> old);
          attempts_purged = count_rows p_attempt (processing_attempt_t t);
          t1 = delete_attempts p_attempt t;
          p_event = (\<lambda>e. ended_well cutoff e \<and> \<not> list_ex (\<lambda>l. le_event_id l = ev_id e) (ledger_entry_t t1));
          events_purged = count_rows p_event (webhook_event_t t1)
      in case delete_events allow_ledger_delete p_event t1 of
           Inl e \<Rightarrow> Inl e
         | Inr t2 \<Rightarrow> Inr (t2, attempts_purged, events_purged))"

section \<open>Laws\<close>

lemma invariant_ok_iff: "fn_ledger_invariant_ok t \<longleftrightarrow> reconciled t"
  by (auto simp: fn_ledger_invariant_ok_def v_account_reconciliation_def reconciled_def ledger_sum_def list_ex_iff Let_def)

lemma count_rows_split: "count_rows p rows = count_rows (\<lambda>r. p r \<and> q r) rows + count_rows (\<lambda>r. p r \<and> \<not> q r) rows"
  by (induction rows) (auto simp: count_rows_def)

lemma sum_col_eq_sum_list:
  "sum_list (map (\<lambda>a. sum_col (\<lambda>l. f l = g a) h rows) xs) = sum_list (map h rows)"
  if "distinct (map g xs)" "f ` set rows \<subseteq> g ` set xs"
  using that(2)
proof (induction rows)
  case (Cons l rows)
  have "sum_list (map (\<lambda>a. if f l = g a then h l else 0) xs) = h l"
  proof -
    from Cons.prems obtain x where x: "x \<in> set xs" "f l = g x" by auto
    have "distinct xs" using that(1) by (simp add: distinct_map)
    then have "sum_list (map (\<lambda>a. if f l = g a then h l else 0) xs) = (\<Sum>a \<in> set xs. if f l = g a then h l else 0)"
      by (simp add: sum_list_distinct_conv_sum_set)
    also have "\<dots> = (\<Sum>a \<in> set xs. if a = x then h l else 0)"
      using x that(1) by (intro sum.cong) (auto simp: distinct_map dest: inj_onD)
    also have "\<dots> = h l" using x(1) by simp
    finally show ?thesis .
  qed
  with Cons show ?case by (simp add: sum_list_addf)
qed simp

lemma old_events_without_effect:
  assumes "gone = set (map ev_id (filter (\<lambda>e. c e \<and> \<not> list_ex (\<lambda>l. le_event_id l = ev_id e) ls) es))"
  shows "\<not> list_ex (\<lambda>l. le_event_id l \<in> gone) ls" "filter (\<lambda>l. le_event_id l \<notin> gone) ls = ls"
proof -
  show *: "\<not> list_ex (\<lambda>l. le_event_id l \<in> gone) ls" unfolding assms by (auto simp: list_ex_iff)
  then show "filter (\<lambda>l. le_event_id l \<notin> gone) ls = ls" by (auto simp: list_ex_iff filter_id_conv)
qed

lemma delete_attempts_tables [simp]:
  "webhook_event_t (delete_attempts p t) = webhook_event_t t"
  "processing_attempt_t (delete_attempts p t) = filter (\<lambda>a. \<not> p a) (processing_attempt_t t)"
  "dead_letter_entry_t (delete_attempts p t) = dead_letter_entry_t t"
  "account_t (delete_attempts p t) = account_t t"
  "ledger_entry_t (delete_attempts p t) = ledger_entry_t t"
  by (simp_all add: delete_attempts_def)

lemma forget_attempts_map [simp]:
  "map rr_id (forget_attempts gone rows) = map rr_id rows" "map rr_event_id (forget_attempts gone rows) = map rr_event_id rows"
  by (simp_all add: forget_attempts_def map_update_where)

lemma forget_attempts_ids: "rr_event_id ` set (forget_attempts gone rows) = rr_event_id ` set rows"
  unfolding set_map [symmetric] by (simp del: set_map)

lemma db_inv_delete_attempts: "db_inv t s \<Longrightarrow> db_inv (delete_attempts p t) s"
proof -
  assume I: "db_inv t s"
  have rr: "table_ok rr_id rr_id (sq_replay s) (replay_request_t (delete_attempts p t))"
    using I by (simp add: db_inv_def keys_ok_def table_ok_def delete_attempts_def)
  have rs: "rr_event_id ` set (replay_request_t (delete_attempts p t)) = rr_event_id ` set (replay_request_t t)"
    by (simp add: delete_attempts_def forget_attempts_ids)
  have links: "attempt_links (delete_attempts p t) \<subseteq> pa_id ` set (processing_attempt_t (delete_attempts p t))"
  proof
    fix i assume "i \<in> attempt_links (delete_attempts p t)"
    then obtain r where r: "r \<in> set (forget_attempts (pa_id ` set (filter p (processing_attempt_t t))) (replay_request_t t))"
        "rr_resulting_attempt_id r = Some i"
      by (auto simp: attempt_links_def delete_attempts_def)
    then obtain q where "q \<in> set (replay_request_t t)" "rr_resulting_attempt_id q = Some i" "i \<notin> pa_id ` set (filter p (processing_attempt_t t))"
      unfolding forget_attempts_def by (auto dest!: update_where_memD split: if_splits option.splits)
    then have kept: "i \<in> attempt_links t" "i \<notin> pa_id ` set (filter p (processing_attempt_t t))"
      unfolding attempt_links_def by (auto simp: image_iff intro: bexI [of _ q])
    then obtain a where "a \<in> set (processing_attempt_t t)" "pa_id a = i" using I by (auto simp: db_inv_def refs_ok_def)
    with kept(2) show "i \<in> pa_id ` set (processing_attempt_t (delete_attempts p t))" by force
  qed
  show ?thesis
    using I rr rs links by (auto simp: db_inv_def keys_ok_def refs_ok_def checks_ok_def reconciled_def ledger_sum_def
        dlq_covers_def event_ids_def account_ids_def table_ok_filter)
qed

lemma delete_effectless:
  assumes I: "db_inv t s" and p: "\<And>e. p e \<Longrightarrow> \<not> list_ex (\<lambda>l. le_event_id l = ev_id e) (ledger_entry_t t)"
  obtains t' where "delete_events allow p t = Inr t'" "db_inv t' s"
    "webhook_event_t t' = filter (\<lambda>e. \<not> p e) (webhook_event_t t)"
    "account_t t' = account_t t" "ledger_entry_t t' = ledger_entry_t t"
    "processing_attempt_t t' = filter (\<lambda>a. pa_event_id a \<notin> ev_id ` {e \<in> set (webhook_event_t t). p e}) (processing_attempt_t t)"
    "dead_letter_entry_t t' = filter (\<lambda>d. dl_event_id d \<notin> ev_id ` {e \<in> set (webhook_event_t t). p e}) (dead_letter_entry_t t)"
proof -
  let ?gone = "ev_id ` {e \<in> set (webhook_event_t t). p e}"
  have gone: "set (map ev_id (filter p (webhook_event_t t))) = ?gone" by auto
  have none: "\<not> list_ex (\<lambda>l. le_event_id l \<in> ?gone) (ledger_entry_t t)" using p by (force simp: list_ex_iff)
  then have L: "filter (\<lambda>l. le_event_id l \<notin> ?gone) (ledger_entry_t t) = ledger_entry_t t" by (auto simp: list_ex_iff filter_id_conv)
  let ?t1 = "delete_attempts (\<lambda>a. pa_event_id a \<in> ?gone) t"
  let ?t2 = "?t1\<lparr>webhook_event_t := filter (\<lambda>e. \<not> p e) (webhook_event_t t),
                  dead_letter_entry_t := filter (\<lambda>d. dl_event_id d \<notin> ?gone) (dead_letter_entry_t t),
                  replay_request_t := filter (\<lambda>r. rr_event_id r \<notin> ?gone) (replay_request_t ?t1)\<rparr>"
  have run: "delete_events allow p t = Inr ?t2"
    using none L by (simp add: delete_events_def gone Let_def)
  have J: "db_inv ?t1 s" using I by (rule db_inv_delete_attempts)
  have stay: "ev_id e \<in> ev_id ` {e \<in> set (webhook_event_t t). \<not> p e}" if "ev_id e \<notin> ?gone" "e \<in> set (webhook_event_t t)" for e
    using that by auto
  have ids: "event_ids ?t2 = event_ids t - ?gone"
    using I by (auto simp: event_ids_def db_inv_def dest: event_unique)
  have led: "le_event_id ` set (ledger_entry_t t) \<inter> ?gone = {}" using none by (auto simp: list_ex_iff)
  have "keys_ok ?t2 s" using J I by (simp add: db_inv_def keys_ok_def table_ok_filter)
  moreover have "refs_ok ?t2"
    using J led unfolding refs_ok_def ids
    by (auto simp: db_inv_def refs_ok_def event_ids_def account_ids_def attempt_links_def)
  moreover have "checks_ok ?t2" using I by (simp add: db_inv_def checks_ok_def)
  moreover have "reconciled ?t2" using I by (simp add: db_inv_def reconciled_def ledger_sum_def)
  moreover have "dlq_covers ?t2"
    unfolding dlq_covers_def
  proof (intro ballI impI)
    fix e assume e: "e \<in> set (webhook_event_t ?t2)" "ev_status e = DEAD_LETTERED"
    then obtain d where d: "d \<in> set (dead_letter_entry_t t)" "dl_event_id d = ev_id e"
      using I by (auto simp: db_inv_def dlq_covers_def)
    have "ev_id e \<in> event_ids ?t2" using e(1) by (simp add: event_ids_def)
    with d ids show "\<exists>d \<in> set (dead_letter_entry_t ?t2). dl_event_id d = ev_id e" by (intro bexI [of _ d]) auto
  qed
  ultimately have "db_inv ?t2 s" using I by (simp add: db_inv_def)
  then show thesis using that [OF run] by simp
qed

lemma purge_run:
  assumes I: "db_inv t s"
  shows "\<exists>t' na ne. sp_purge_history allow now age t = Inr (t', na, ne) \<and> db_inv t' s
    \<and> account_t t' = account_t t \<and> ledger_entry_t t' = ledger_entry_t t
    \<and> webhook_event_t t' = filter (\<lambda>e. \<not> (ended_well (now - age) e \<and> ev_id e \<notin> le_event_id ` set (ledger_entry_t t))) (webhook_event_t t)
    \<and> ne = int (length (webhook_event_t t)) - int (length (webhook_event_t t'))
    \<and> na = int (length (processing_attempt_t t)) - int (length (processing_attempt_t t'))
    \<and> (\<forall>e \<in> set (webhook_event_t t). \<not> ended_well (now - age) e \<longrightarrow> attempts_of (ev_id e) t' = attempts_of (ev_id e) t
         \<and> filter (\<lambda>d. dl_event_id d = ev_id e) (dead_letter_entry_t t') = filter (\<lambda>d. dl_event_id d = ev_id e) (dead_letter_entry_t t))"
proof -
  let ?W = "ended_well (now - age)" and ?es = "webhook_event_t t"
  let ?old = "ev_id ` {e \<in> set ?es. ?W e}"
  let ?t1 = "delete_attempts (\<lambda>a. pa_event_id a \<in> ?old) t"
  let ?p = "\<lambda>e. ?W e \<and> \<not> list_ex (\<lambda>l. le_event_id l = ev_id e) (ledger_entry_t t)"
  have old: "set (map ev_id (filter ?W ?es)) = ?old" by auto
  have J: "db_inv ?t1 s" using I by (rule db_inv_delete_attempts)
  obtain t' where t': "delete_events allow ?p ?t1 = Inr t'" "db_inv t' s" "webhook_event_t t' = filter (\<lambda>e. \<not> ?p e) ?es"
    "account_t t' = account_t t" "ledger_entry_t t' = ledger_entry_t t"
    "processing_attempt_t t' = filter (\<lambda>a. pa_event_id a \<notin> ev_id ` {e \<in> set ?es. ?p e}) (processing_attempt_t ?t1)"
    "dead_letter_entry_t t' = filter (\<lambda>d. dl_event_id d \<notin> ev_id ` {e \<in> set ?es. ?p e}) (dead_letter_entry_t t)"
    using delete_effectless [OF J, of ?p] by auto
  have pa: "processing_attempt_t t' = filter (\<lambda>a. pa_event_id a \<notin> ?old) (processing_attempt_t t)"
    unfolding t'(6) by (auto intro!: filter_cong)
  have len: "int (length (filter q xs)) = int (length xs) - int (length (filter (\<lambda>x. \<not> q x) xs))" for q :: "'a \<Rightarrow> bool" and xs
    using sum_length_filter_compl [of q xs] by simp
  have run: "sp_purge_history allow now age t = Inr (t', count_rows (\<lambda>a. pa_event_id a \<in> ?old) (processing_attempt_t t), count_rows ?p ?es)"
    using t'(1) by (simp add: sp_purge_history_def Let_def old)
  have keep: "\<forall>x \<in> set ?es. ?W x \<longrightarrow> ev_id x \<noteq> ev_id e" if "e \<in> set ?es" "\<not> ?W e" for e
    using that I event_unique [of t s _ e] by (auto simp: db_inv_def)
  have K: "\<forall>e \<in> set ?es. \<not> ?W e \<longrightarrow> attempts_of (ev_id e) t' = attempts_of (ev_id e) t
         \<and> filter (\<lambda>d. dl_event_id d = ev_id e) (dead_letter_entry_t t') = filter (\<lambda>d. dl_event_id d = ev_id e) (dead_letter_entry_t t)"
  proof (intro ballI impI)
    fix e assume "e \<in> set ?es" "\<not> ?W e"
    from keep [OF this] show "attempts_of (ev_id e) t' = attempts_of (ev_id e) t
         \<and> filter (\<lambda>d. dl_event_id d = ev_id e) (dead_letter_entry_t t') = filter (\<lambda>d. dl_event_id d = ev_id e) (dead_letter_entry_t t)"
      unfolding attempts_of_def pa t'(7) filter_filter by (auto intro!: filter_cong)
  qed
  have E: "webhook_event_t t' = filter (\<lambda>e. \<not> (?W e \<and> ev_id e \<notin> le_event_id ` set (ledger_entry_t t))) ?es"
    unfolding t'(3) by (rule filter_cong) (force simp: list_ex_iff)+
  have NE: "count_rows ?p ?es = int (length ?es) - int (length (webhook_event_t t'))"
    unfolding t'(3) count_rows_def by (rule len)
  have NA: "count_rows (\<lambda>a. pa_event_id a \<in> ?old) (processing_attempt_t t)
      = int (length (processing_attempt_t t)) - int (length (processing_attempt_t t'))"
    unfolding pa count_rows_def by (rule len)
  show ?thesis
    by (intro exI conjI) (rule run [unfolded NE NA], rule t'(2), rule t'(4), rule t'(5), rule E, rule refl, rule refl, rule K)
qed

lemma purge_subset:
  assumes "sp_purge_history None now age t = Inr (t', na, ne)"
  shows "ledger_entry_t t' = ledger_entry_t t" "account_t t' = account_t t"
    "set (webhook_event_t t') \<subseteq> set (webhook_event_t t)" "set (dead_letter_entry_t t') \<subseteq> set (dead_letter_entry_t t)"
  using assms
  by (auto simp: sp_purge_history_def delete_events_def fn_ledger_entry_immutable_def Let_def list_ex_iff filter_id_conv
      split: sum.splits if_splits)

section \<open>Properties\<close>



lemma oldest_age_cases:
  obtains (none) "filter (is_due now) rows = []" "oldest_age now rows = 0"
  | (some) e where "e \<in> set rows" "is_due now e" "oldest_age now rows = now - ev_next_attempt_at e"
      "\<And>d. d \<in> set rows \<Longrightarrow> is_due now d \<Longrightarrow> now - ev_next_attempt_at d \<le> oldest_age now rows"
proof (cases "max_col (\<lambda>e. now - ev_next_attempt_at e) (filter (is_due now) rows)")
  case None
  then have "filter (is_due now) rows = []" by simp
  then show ?thesis by (intro none) (simp_all add: oldest_age_def max_col_def)
next
  case (Some m)
  then have "oldest_age now rows = m" by (simp add: oldest_age_def)
  with max_col_attained [OF Some] max_col_upper [OF Some] show ?thesis by (auto intro: some)
qed

text \<open>C30. The health view and the lag function agree with each other and with the worker: the pending events are those due
  and those waiting; the oldest due age is the lag, never negative and attained by a due event or zero when there is
  none; and a poll at that instant comes back empty exactly when the view counts nothing due.\<close>

theorem queue_health_sees_the_poll:
  assumes run: "due_event_ids now limit w = (Inr ids, w')" and limit: "0 < limit"
    and scan: "\<And>k rows. mset (scan_events (env w) k rows) = mset rows" and inv: "db_inv (tables w) (seqs w)"
  shows "qh_pending (v_queue_health now (tables w)) = qh_due_now (v_queue_health now (tables w)) + qh_waiting_on_backoff (v_queue_health now (tables w))
    \<and> qh_oldest_due_age (v_queue_health now (tables w)) = fn_queue_lag now (tables w) \<and> 0 \<le> fn_queue_lag now (tables w)
    \<and> (ids = [] \<longleftrightarrow> qh_due_now (v_queue_health now (tables w)) = 0)
    \<and> (\<forall>e \<in> set (webhook_event_t (tables w)). is_due now e \<longrightarrow> now - ev_next_attempt_at e \<le> fn_queue_lag now (tables w))"
proof -
  let ?rows = "webhook_event_t (tables w)"
  have due: "is_due now = (\<lambda>e. ev_status e = PENDING \<and> ev_next_attempt_at e \<le> now)" by (intro ext) (simp add: is_due_def)
  have lag: "fn_queue_lag now (tables w) = oldest_age now ?rows" by (simp add: fn_queue_lag_def oldest_age_def due)
  have split: "count_rows (\<lambda>e. ev_status e = PENDING) ?rows
      = count_rows (\<lambda>e. ev_status e = PENDING \<and> ev_next_attempt_at e \<le> now) ?rows + count_rows (\<lambda>e. ev_status e = PENDING \<and> now < ev_next_attempt_at e) ?rows"
    using count_rows_split [of "\<lambda>e. ev_status e = PENDING" ?rows "\<lambda>e. ev_next_attempt_at e \<le> now"] by (simp add: not_le)
  have "length ids = min (nat limit) (length (filter (is_due now) ?rows))"
    using due_event_ids_ok [OF run scan inv] by blast
  then have empty: "ids = [] \<longleftrightarrow> count_rows (\<lambda>e. ev_status e = PENDING \<and> ev_next_attempt_at e \<le> now) ?rows = 0"
    using limit by (cases "filter (is_due now) ?rows") (auto simp: count_rows_def due min_def split: if_splits)
  have "0 \<le> oldest_age now ?rows \<and> (\<forall>e \<in> set ?rows. is_due now e \<longrightarrow> now - ev_next_attempt_at e \<le> oldest_age now ?rows)"
    by (rule oldest_age_cases [of now ?rows]) (auto simp: filter_empty_conv is_due_def)
  then show ?thesis using split lag empty by (simp add: v_queue_health_def Let_def)
qed

end
