(* ===== verification/Worker.thy ===== *)
theory Worker
  imports Process
begin

text \<open>
  The worker (\<open>worker/main.py\<close>): one batch of due events, the wait for the schema, and the poll
  loop with its own backoff on transient database failures. Loops run on fuel, and not returning within
  it is the value \<open>None\<close>; the theorems below say when they do return. The answers of
  \<open>shutdown.is_set()\<close>, read by read, and whether the schema is there when it is probed are
  parameters; sleeping is recorded as the list of delays.
\<close>

section \<open>One batch\<close>

fun process_batch :: "int list \<Rightarrow> registry \<Rightarrow> settings \<Rightarrow> unit prog" where
  "process_batch [] registry settings = return_tx ()"
| "process_batch (event_id # ids) registry settings =
     bind_tx (process_event event_id registry settings) (\<lambda>_. process_batch ids registry settings)"

definition poll_once :: "settings \<Rightarrow> registry \<Rightarrow> nat prog" where
  "poll_once settings handlers =
     bind_tx (session_scope (bind_tx clock_now (\<lambda>now. due_event_ids now (poll_batch_size settings)))) (\<lambda>ids.
     bind_tx (process_batch ids handlers settings) (\<lambda>_.
     return_tx (length ids)))"

section \<open>Waiting for the schema\<close>

definition SCHEMA_PROBE_TABLE :: py_str where "SCHEMA_PROBE_TABLE = ''webhook_event''"

definition not_ready_message :: "settings \<Rightarrow> py_str" where
  "not_ready_message settings =
     ''table '' @ py_repr SCHEMA_PROBE_TABLE @ '' did not appear within ''
     @ py_float_repr (schema_wait_timeout_seconds settings)
     @ ''s, so the migration has not run. Check that `alembic upgrade head` is wired as the app's pre-deploy command, and that the app and the worker share one DATABASE_URL.''"

definition schema_probe :: "(nat \<Rightarrow> bool) \<Rightarrow> bool prog" where
  "schema_probe present = session_scope (query (\<lambda>w. present (stmts w)))"

text \<open>One turn of the waiting loop: \<open>True\<close> when the wait is over, \<open>False\<close> when it goes on.\<close>

definition await_turn :: "(nat \<Rightarrow> bool) \<Rightarrow> settings \<Rightarrow> datetime \<Rightarrow> bool prog" where
  "await_turn present settings deadline =
     bind_tx (catch_exception (schema_probe present)
       (\<lambda>exc. if is_retryable exc then return_tx False else raise_tx exc)) (\<lambda>found.
       if found then return_tx True
       else bind_tx clock_now (\<lambda>now.
         if deadline \<le> now then raise_tx (SchemaNotReadyError (not_ready_message settings))
         else return_tx False))"

fun await_loop ::
  "nat \<Rightarrow> (nat \<Rightarrow> bool) \<Rightarrow> (nat \<Rightarrow> bool) \<Rightarrow> settings \<Rightarrow> datetime \<Rightarrow> nat \<Rightarrow> rat list \<Rightarrow> world
     \<Rightarrow> ((exc + rat list) \<times> world) option" where
  "await_loop 0 shutdown present settings deadline k waits w = None"
| "await_loop (Suc fuel) shutdown present settings deadline k waits w =
     (if shutdown k then Some (Inr waits, w)
      else case await_turn present settings deadline w of
        (Inl e, w') \<Rightarrow> Some (Inl e, w')
      | (Inr True, w') \<Rightarrow> Some (Inr waits, w')
      | (Inr False, w') \<Rightarrow>
          await_loop fuel shutdown present settings deadline (Suc k) (waits @ [poll_interval_seconds settings]) w')"

definition await_schema ::
  "nat \<Rightarrow> (nat \<Rightarrow> bool) \<Rightarrow> (nat \<Rightarrow> bool) \<Rightarrow> settings \<Rightarrow> world \<Rightarrow> ((exc + rat list) \<times> world) option" where
  "await_schema fuel shutdown present settings w =
     (case bind_tx clock_now (\<lambda>now. lift_exc (add_seconds now (schema_wait_timeout_seconds settings))) w of
        (Inl e, w') \<Rightarrow> Some (Inl e, w')
      | (Inr deadline, w') \<Rightarrow> await_loop fuel shutdown present settings deadline 0 [] w')"

section \<open>The poll loop\<close>

text \<open>The state of the loop: the failures in a row and the delays slept so far.\<close>

record loop_state =
  consecutive_failures :: int
  slept :: "rat list"

definition turn :: "settings \<Rightarrow> registry \<Rightarrow> loop_state \<Rightarrow> loop_state prog" where
  "turn settings handlers s w =
     (case poll_once settings handlers w of
        (Inl exc, w') \<Rightarrow>
          if is_Exception exc \<and> is_retryable exc then
            let failures = consecutive_failures s + 1
            in bind_tx (draw_delay failures (backoff_base_seconds settings) (backoff_cap_seconds settings)) (\<lambda>delay.
                 return_tx (s\<lparr>consecutive_failures := failures, slept := slept s @ [delay]\<rparr>)) w'
          else (Inl exc, w')
      | (Inr processed, w') \<Rightarrow>
          (Inr (s\<lparr>consecutive_failures := 0,
                  slept := (if processed = 0 then slept s @ [poll_interval_seconds settings] else slept s)\<rparr>), w'))"

fun poll_loop ::
  "nat \<Rightarrow> (nat \<Rightarrow> bool) \<Rightarrow> settings \<Rightarrow> registry \<Rightarrow> nat \<Rightarrow> loop_state \<Rightarrow> world
     \<Rightarrow> ((exc + loop_state) \<times> world) option" where
  "poll_loop 0 shutdown settings handlers k s w = None"
| "poll_loop (Suc fuel) shutdown settings handlers k s w =
     (if shutdown k then Some (Inr s, w)
      else case turn settings handlers s w of
        (Inl e, w') \<Rightarrow> Some (Inl e, w')
      | (Inr s', w') \<Rightarrow> poll_loop fuel shutdown settings handlers (Suc k) s' w')"

text \<open>\<open>run\<close>: the schema first, then the polls; the reads of the shutdown flag continue where the wait left
  off.\<close>

definition worker_run ::
  "nat \<Rightarrow> (nat \<Rightarrow> bool) \<Rightarrow> (nat \<Rightarrow> bool) \<Rightarrow> settings \<Rightarrow> registry \<Rightarrow> world \<Rightarrow> ((exc + loop_state) \<times> world) option" where
  "worker_run fuel shutdown present settings handlers w =
     (case await_schema fuel shutdown present settings w of
        None \<Rightarrow> None
      | Some (Inl e, w') \<Rightarrow> Some (Inl e, w')
      | Some (Inr waits, w') \<Rightarrow>
          poll_loop fuel shutdown settings handlers (length waits + 1)
            \<lparr>consecutive_failures = 0, slept = []\<rparr> w')"

section \<open>The invariant\<close>

lemma keeps_process_batch: "keeps db_inv (process_batch ids reg st)"
  by (induction ids) (auto intro!: inv.keeps_bind inv.keeps_simple keeps_process_event)

lemma keeps_poll_once: "keeps db_inv (poll_once st reg)"
  unfolding poll_once_def
  by (intro inv.keeps_bind inv.keeps_simple inv.keeps_session_scope keeps_process_batch inv.ok_bind inv.ok_simple
      ok_queue_reads frame_intros)

lemma frame_process_batch [frame_intros]: "frame (process_batch ids reg st)"
  by (induction ids) (auto intro!: frame_intros)

lemma frame_poll_once [frame_intros]: "frame (poll_once st reg)"
  unfolding poll_once_def by (intro frame_intros)

section \<open>The loops end\<close>

text \<open>The poll loop stops when asked: if the shutdown flag is set at some read, the loop has ended by
  then, with its state or with the exception that killed it. It never needs more turns than reads.\<close>

lemma poll_loop_ends:
  "shutdown (k + n) \<Longrightarrow> n < fuel \<Longrightarrow> \<exists>r. poll_loop fuel shutdown st reg k s w = Some r"
proof (induction fuel arbitrary: k n s w)
  case (Suc fuel)
  show ?case
  proof (cases "shutdown k")
    case False
    with Suc.prems obtain m where m: "n = Suc m" by (cases n) auto
    with Suc.prems have "shutdown (Suc k + m)" "m < fuel" by simp_all
    with Suc.IH [of "Suc k" m] False show ?thesis by (auto split: prod.splits sum.splits)
  qed simp
qed simp

text \<open>So does the wait for the schema.\<close>

lemma await_loop_stops:
  "shutdown (k + n) \<Longrightarrow> n < fuel \<Longrightarrow> \<exists>r. await_loop fuel shutdown present st deadline k waits w = Some r"
proof (induction fuel arbitrary: k n waits w)
  case (Suc fuel)
  show ?case
  proof (cases "shutdown k")
    case False
    with Suc.prems obtain m where m: "n = Suc m" by (cases n) auto
    with Suc.prems have "shutdown (Suc k + m)" "m < fuel" by simp_all
    from Suc.IH [OF this] False show ?thesis by (auto split: prod.splits sum.splits bool.splits)
  qed simp
qed simp

text \<open>The worker stops when asked. When the shutdown flag, once set, stays set, the whole worker -- the wait for the schema and
  the poll loop, whatever the database does meanwhile -- has ended within as many turns of either loop as there were reads before
  it was set, with its state or with the exception that killed it.\<close>

theorem worker_stops:
  assumes set: "\<And>j. m \<le> j \<Longrightarrow> shutdown j" and fuel: "m < fuel"
  shows "\<exists>r. worker_run fuel shutdown present st reg w = Some r"
proof -
  have wait: "\<exists>r. await_schema fuel shutdown present st w = Some r"
    using await_loop_stops [of shutdown 0 m fuel] set fuel by (auto simp: await_schema_def split: prod.splits sum.splits)
  have poll: "\<exists>r. poll_loop fuel shutdown st reg k s w' = Some r" for k s w'
    using poll_loop_ends [of shutdown k m fuel] set fuel by simp
  from wait poll show ?thesis by (auto simp: worker_run_def split: prod.splits sum.splits)
qed

lemma await_turn_ticks:
  assumes "await_turn present st deadline w = (Inr False, w')"
  shows "env w' = env w" "ticks w' = Suc (ticks w)" "app_clock (env w) (ticks w) < deadline"
proof -
  let ?probe = "catch_exception (schema_probe present) (\<lambda>exc. if is_retryable exc then return_tx False else raise_tx exc)"
  obtain found w1 where p: "?probe w = (Inr found, w1)" and
    q: "(if found then return_tx True else bind_tx clock_now (\<lambda>now.
          if deadline \<le> now then raise_tx (SchemaNotReadyError (not_ready_message st)) else return_tx False)) w1 = (Inr False, w')"
    using assms by (auto simp: await_turn_def tx_simps(4))
  have fr: "frame ?probe" unfolding schema_probe_def by (auto intro!: frame_intros)
  have "ticks w1 = ticks w"
    using p by (auto simp: schema_probe_def session_scope_def query_def stmt_def catch_exception_def return_tx_def raise_tx_def Let_def
        split: prod.splits sum.splits option.splits fault.splits if_splits)
  then show "env w' = env w" "ticks w' = Suc (ticks w)" "app_clock (env w) (ticks w) < deadline"
    using q frameD [OF fr p] by (auto simp: tx_simps split: if_splits)
qed

text \<open>The wait for the schema is bounded: if the clock's \<open>n\<close>-th reading from here reaches the deadline,
  the wait is over within \<open>n + 1\<close> turns, whatever the database answers.\<close>

theorem await_loop_ends:
  "deadline \<le> app_clock (env w) (ticks w + n) \<Longrightarrow> n < fuel \<Longrightarrow>
     \<exists>r. await_loop fuel shutdown present st deadline k waits w = Some r"
proof (induction fuel arbitrary: n k waits w)
  case (Suc fuel)
  show ?case
  proof (cases "shutdown k")
    case False
    obtain x w' where t: "await_turn present st deadline w = (x, w')" by (cases "await_turn present st deadline w")
    show ?thesis
    proof (cases "x = Inr False")
      case True
      note a = await_turn_ticks [OF t [unfolded True]]
      with Suc.prems obtain m where m: "n = Suc m" by (cases n) auto
      have "deadline \<le> app_clock (env w') (ticks w' + m)" "m < fuel" using Suc.prems a m by simp_all
      from Suc.IH [OF this] show ?thesis using False t True by simp
    next
      case no: False
      with False t show ?thesis by (auto split: sum.splits bool.splits)
    qed
  qed simp
qed simp

section \<open>The loop survives what it should\<close>

text \<open>C14. Only what the taxonomy does not recognise kills the worker: a turn that raises raised an exception
  that is not a retryable one, and a turn that survives a failure waits at most the backoff cap, with the failure
  counted; a successful poll resets the count.\<close>

theorem turn_survives:
  assumes cfg: "is_double (backoff_cap_seconds st)" "0 \<le> backoff_cap_seconds st" "0 \<le> backoff_base_seconds st"
    and s: "0 \<le> consecutive_failures s"
    and run: "turn st reg s w = (x, w')"
  shows "case x of
      Inl e \<Rightarrow> \<not> (is_Exception e \<and> is_retryable e)
    | Inr s' \<Rightarrow> 0 \<le> consecutive_failures s'
        \<and> (if \<exists>n w1. poll_once st reg w = (Inr n, w1) then consecutive_failures s' = 0
           else consecutive_failures s' = consecutive_failures s + 1
              \<and> (\<exists>d. slept s' = slept s @ [d] \<and> 0 \<le> d \<and> d \<le> backoff_cap_seconds st))"
proof (cases "poll_once st reg w")
  case (Pair y w1)
  show ?thesis
  proof (cases y)
    case (Inr n)
    with Pair run show ?thesis by (auto simp: turn_def)
  next
    case (Inl e)
    let ?n = "consecutive_failures s + 1"
    obtain d g where d: "next_delay_seconds rng_uniform ?n (backoff_base_seconds st) (backoff_cap_seconds st) (rng w1) = Inr (d, g)"
      "0 \<le> d" "d \<le> delay_ceiling ?n (backoff_base_seconds st) (backoff_cap_seconds st)"
      using sys_rng.delay_within [of ?n, OF _ cfg, of "rng w1"] s by auto
    have "d \<le> backoff_cap_seconds st"
      using d(3) delay_ceiling_le_cap order_trans by blast
    with Inl Pair run d(1,2) s show ?thesis
      by (auto simp: turn_def Let_def bind_tx_def draw_delay_def return_tx_def split: if_splits)
  qed
qed

end
