(* ===== verification/System.thy ===== *)
theory System
  imports Admin DbObjects Worker "HOL-Library.Sublist"
begin

text \<open>
  The whole system as interleaved transactions. Any number of API processes, workers and operators run
  against one database; what they do to it is a sequence of committed, failed or half-acknowledged transactions in some
  order, with any clocks, any faults and any row locks. A step relation over tables and sequences describes it; the
  programs of the other theories are shown to be runs of such steps, and what every step keeps is proved once, in the
  locales \<open>service_invariant\<close> and \<open>closed_invariant\<close>, and follows for every invariant that single statements keep (\<open>system_invariant\<close>).
\<close>

section \<open>Transactions\<close>

datatype tx =
    Ingest incoming_event
  | Process int datetime
  | Fail int exc datetime
  | Replay_Open int datetime
  | Replay_Close int py_str "py_str option" replay_outcome datetime
  | Triage int triage_action "py_str option"
  | Purge int

definition forget :: "'a prog \<Rightarrow> unit prog" where
  "forget p = bind_tx p (\<lambda>_. return_tx ())"

definition purge_tx :: "int \<Rightarrow> unit prog" where
  "purge_tx older_than = modify (\<lambda>w.
     case sp_purge_history None (tx_now w) older_than (tables w) of
       Inl code \<Rightarrow> Inl (integrity_error w code) | Inr (t, _, _) \<Rightarrow> Inr t)"

fun body :: "registry \<Rightarrow> settings \<Rightarrow> tx \<Rightarrow> unit prog" where
  "body reg st (Ingest e) = forget (ingest_event e)"
| "body reg st (Process i started_at) = forget (process_body i reg st started_at)"
| "body reg st (Fail i e started_at) = forget (record_failure_body i e reg st started_at)"
| "body reg st (Replay_Open i now) = replay_open i now"
| "body reg st (Replay_Close i who why out now) = replay_close i who why out now"
| "body reg st (Triage i action note) = forget (triage_body i (triage_target action) note)"
| "body reg st (Purge older_than) = purge_tx older_than"

type_synonym db = "tables \<times> sequences"

abbreviation db_of :: "world \<Rightarrow> db" where
  "db_of w \<equiv> (tables w, seqs w)"

inductive sys_step :: "registry \<Rightarrow> settings \<Rightarrow> db \<Rightarrow> db \<Rightarrow> bool" for reg st where
  step: "session_scope (body reg st a) w = (r, w') \<Longrightarrow> sys_step reg st (db_of w) (db_of w')"

inductive_cases sys_stepE: "sys_step reg st s s'"

abbreviation sys_steps :: "registry \<Rightarrow> settings \<Rightarrow> db \<Rightarrow> db \<Rightarrow> bool" where
  "sys_steps reg st \<equiv> (sys_step reg st)\<^sup>*\<^sup>*"

inductive reachable :: "registry \<Rightarrow> settings \<Rightarrow> db \<Rightarrow> bool" for reg st where
  fresh: "reachable reg st (no_rows, fresh_sequences)"
| go: "reachable reg st s \<Longrightarrow> sys_step reg st s s' \<Longrightarrow> reachable reg st s'"

lemma frame_forget [frame_intros]: "frame p \<Longrightarrow> frame (forget p)"
  unfolding forget_def by (intro frame_intros)

lemma frame_purge_tx [frame_intros]: "frame (purge_tx age)"
  unfolding purge_tx_def by (rule frame_simple)

lemma frame_body: "frame (body reg st a)"
  by (cases a) (auto intro!: frame_intros)

section \<open>Invariants of the system\<close>

text \<open>The interface of an invariant of the services: the pass of a worker and the statements of every other transaction keep it. The
  reschedule may rely on the budget its caller has checked. With retention it is an invariant of the system.\<close>

locale service_invariant = tx_invariant I for I :: "tables \<Rightarrow> sequences \<Rightarrow> bool" +
  fixes reg :: registry and st :: settings
  assumes keep_ingest: "ok_keeps I (ingest_event e)"
    and keep_process: "ok_keeps I (process_body i reg st s)"
    and keep_attempt: "ok_keeps I (record_attempt i n s f out c d)"
    and keep_reschedule: "n < max_attempts st \<Longrightarrow> ok_keeps I (reschedule i n now err)"
    and keep_dead_letter: "ok_keeps I (dead_letter i n why)"
    and keep_requeue: "ok_keeps I (requeue i now)"
    and keep_entry: "ok_keeps I (update_entry i target now nt)"
    and keep_request: "ok_keeps I (record_replay_request i who reason out2 now att)"
begin

lemmas keep_statements = keep_attempt keep_dead_letter keep_requeue keep_entry keep_request

lemma ok_forget: "ok_keeps I p \<Longrightarrow> ok_keeps I (forget p)"
  unfolding forget_def by (intro ok_bind ok_simple)

lemma ok_transitions: "ok_keeps I (transition i target now nt)"
  unfolding transition_def get_entry_def
  by (auto intro!: ok_bind ok_simple ok_by_id keep_entry split: option.splits)

lemma ok_retry_or_bury: "ok_keeps I (retry_or_bury i e st label n used now)"
  unfolding retry_or_bury_def Let_def
  by (auto intro!: ok_bind ok_simple keep_reschedule keep_dead_letter simp: not_le)

lemma ok_fail: "ok_keeps I (record_failure_body i e reg st s)"
  unfolding record_failure_body_def Let_def
  by (auto intro!: ok_bind ok_simple ok_reads keep_attempt ok_retry_or_bury split: option.splits)

lemma ok_replay: "ok_keeps I (replay_open i now)" "ok_keeps I (replay_close i who why out now)"
  unfolding replay_open_def replay_close_def mark_dlq_replaying_def settle_dlq_def entry_for_event_def
  by (auto intro!: ok_bind ok_simple ok_reads ok_by_id keep_statements ok_transitions split: option.splits)

lemma ok_triage: "ok_keeps I (triage_body i target nt)"
  unfolding triage_body_def get_entry_def
  by (auto intro!: ok_bind ok_simple ok_by_id ok_map_exc ok_transitions split: option.splits)

lemma ok_service: "(\<And>age. a \<noteq> Purge age) \<Longrightarrow> ok_keeps I (body reg st a)"
  by (cases a) (auto intro!: ok_forget keep_ingest keep_process ok_fail ok_replay ok_triage)

end

locale closed_invariant = service_invariant I reg st
  for I :: "tables \<Rightarrow> sequences \<Rightarrow> bool" and reg :: registry and st :: settings +
  assumes keep_purge: "ok_keeps I (purge_tx age)"
begin

lemma ok_body: "ok_keeps I (body reg st a)"
proof (cases "\<exists>age. a = Purge age")
  case True
  then show ?thesis using keep_purge by auto
qed (auto intro: ok_service)

lemma step_keeps: "sys_step reg st s s' \<Longrightarrow> I (fst s) (snd s) \<Longrightarrow> I (fst s') (snd s')"
proof (induction rule: sys_step.induct)
  case (step a w r w')
  from keepsD [of I, OF keeps_session_scope [OF frame_body ok_body] step.hyps] step.prems show ?case by simp
qed

lemma steps_keep: "sys_steps reg st s s' \<Longrightarrow> I (fst s) (snd s) \<Longrightarrow> I (fst s') (snd s')"
  by (induction rule: rtranclp_induct) (auto dest: step_keeps)

lemma reachable_keeps: "reachable reg st s \<Longrightarrow> I no_rows fresh_sequences \<Longrightarrow> I (fst s) (snd s)"
  by (induction rule: reachable.induct) (auto dest: step_keeps)

end

text \<open>An invariant that every single statement keeps is one of the system, for every registry of handlers.\<close>

locale system_invariant = tx_invariant I for I :: "tables \<Rightarrow> sequences \<Rightarrow> bool" +
  fixes st :: settings
  assumes stmt_ingest: "ok_keeps I (ingest_event e)"
    and stmt_effect: "ok_keeps I (apply_effect ev eff)"
    and stmt_attempt: "ok_keeps I (record_attempt i n s f out c d)"
    and stmt_succeeded: "ok_keeps I (mark_succeeded i n now)"
    and stmt_reschedule: "n < max_attempts st \<Longrightarrow> ok_keeps I (reschedule i n now err)"
    and stmt_dead_letter: "ok_keeps I (dead_letter i n why)"
    and stmt_requeue: "ok_keeps I (requeue i now)"
    and stmt_entry: "ok_keeps I (update_entry i target now nt)"
    and stmt_request: "ok_keeps I (record_replay_request i who reason out2 now att)"
    and stmt_purge: "ok_keeps I (purge_tx age)"
begin

lemma ok_process: "ok_keeps I (process_body i reg st s)"
  unfolding process_body_def process_apply_def Let_def
  by (auto intro!: ok_bind ok_simple ok_reads ok_lock stmt_effect stmt_attempt stmt_succeeded split: option.splits)

end

sublocale system_invariant < closed_invariant I reg st for reg
  by unfold_locales (rule stmt_ingest ok_process stmt_attempt stmt_reschedule stmt_dead_letter stmt_requeue stmt_entry
    stmt_request stmt_purge; assumption?)+

lemma purge_tx_ok:
  assumes "purge_tx age w = (Inr u, w')"
  obtains na ne where "sp_purge_history None (tx_now w) age (tables w) = Inr (tables w', na, ne)" "seqs w' = seqs w"
  using assms by (auto simp: purge_tx_def tx_simps split: sum.splits prod.splits)

lemma purge_tx_frame:
  assumes "purge_tx age w = (Inr u, w')"
  shows "ledger_entry_t (tables w') = ledger_entry_t (tables w)" "seqs w' = seqs w"
    "set (webhook_event_t (tables w')) \<subseteq> set (webhook_event_t (tables w))"
    "set (dead_letter_entry_t (tables w')) \<subseteq> set (dead_letter_entry_t (tables w))"
proof -
  obtain na ne where "sp_purge_history None (tx_now w) age (tables w) = Inr (tables w', na, ne)" "seqs w' = seqs w"
    using purge_tx_ok [OF assms] by blast
  note p = purge_subset [OF this(1)] this(2)
  show "ledger_entry_t (tables w') = ledger_entry_t (tables w)" "seqs w' = seqs w"
    "set (webhook_event_t (tables w')) \<subseteq> set (webhook_event_t (tables w))"
    "set (dead_letter_entry_t (tables w')) \<subseteq> set (dead_letter_entry_t (tables w))"
    using p by simp_all
qed

lemma ok_purge_tx: "ok_keeps db_inv (purge_tx age)"
  unfolding ok_keeps_def
proof (intro allI impI)
  fix w u w' assume I: "db_inv (tables w) (seqs w)" and run: "purge_tx age w = (Inr u, w')"
  obtain na ne where p: "sp_purge_history None (tx_now w) age (tables w) = Inr (tables w', na, ne)" "seqs w' = seqs w"
    using purge_tx_ok [OF run] by blast
  obtain t' na' ne' where "sp_purge_history None (tx_now w) age (tables w) = Inr (t', na', ne')" "db_inv t' (seqs w)"
    using purge_run [OF I, of None "tx_now w" age] by blast
  with p show "db_inv (tables w') (seqs w')" by simp
qed

interpretation consistent: system_invariant db_inv st for st
  by unfold_locales
    (rule ok_ingest_event ok_keeps_apply_effect ok_record_attempt ok_mark_succeeded ok_reschedule ok_dead_letter ok_requeue
      ok_update_entry ok_record_replay_request ok_purge_tx)+

text \<open>The retry budget: what waits to be processed has attempts left.\<close>

definition within_budget :: "settings \<Rightarrow> tables \<Rightarrow> sequences \<Rightarrow> bool" where
  "within_budget st t s \<longleftrightarrow> (1 \<le> max_attempts st \<longrightarrow>
     (\<forall>e \<in> set (webhook_event_t t). ev_status e = PENDING \<longrightarrow> ev_attempt_count e < max_attempts st))"

lemma update_event_rows: "e' \<in> set (webhook_event_t (update_event i f t)) \<Longrightarrow> e' \<in> set (webhook_event_t t) \<or> (\<exists>e. e' = f e)"
  by (auto simp: update_event_def set_update_where)

text \<open>An effect leaves events and the dead-letter queue alone and only appends to the ledger.\<close>

definition grew :: "world \<Rightarrow> world \<Rightarrow> bool" where
  "grew w w' \<longleftrightarrow> webhook_event_t (tables w') = webhook_event_t (tables w)
     \<and> dead_letter_entry_t (tables w') = dead_letter_entry_t (tables w) \<and> sq_dlq (seqs w') = sq_dlq (seqs w)
     \<and> prefix (ledger_entry_t (tables w)) (ledger_entry_t (tables w'))"

definition money_only :: "'a prog \<Rightarrow> bool" where
  "money_only p \<longleftrightarrow> (\<forall>w a w'. p w = (Inr a, w') \<longrightarrow> grew w w')"

lemma grew_trans: "grew u v \<Longrightarrow> grew v w \<Longrightarrow> grew u w"
  by (auto simp: grew_def intro: prefix_order.trans)

lemma money_only_bind: "money_only m \<Longrightarrow> (\<And>a. money_only (f a)) \<Longrightarrow> money_only (bind_tx m f)"
  unfolding money_only_def prog_ok by (blast intro: grew_trans)

lemma money_only_simple: "money_only (return_tx a)" "money_only (raise_tx e)" "money_only (query q)"
  by (auto simp: money_only_def grew_def tx_simps)

lemma money_only_statements:
  "money_only (insert_account ref)" "money_only (claim_ledger_row i j k)" "money_only (add_to_balance i j k)" "money_only (set_balance i j k)"
  unfolding money_only_def grew_def insert_account_def claim_ledger_row_def add_to_balance_def set_balance_def
  by (auto simp: tx_simps Let_def on_conflict_do_nothing_def split: if_splits prod.splits option.splits)

lemma money_only_effect: "money_only (apply_effect ev eff)"
  unfolding apply_effect_def apply_credit_def apply_set_balance_def account_id_def Let_def
  by (auto intro!: money_only_bind money_only_simple money_only_statements split: effect.splits option.splits)

lemma effect_frame:
  assumes "apply_effect ev eff w = (Inr r, w')"
  shows "webhook_event_t (tables w') = webhook_event_t (tables w)" "dead_letter_entry_t (tables w') = dead_letter_entry_t (tables w)"
    "sq_dlq (seqs w') = sq_dlq (seqs w)" "prefix (ledger_entry_t (tables w)) (ledger_entry_t (tables w'))"
  using money_only_effect [of ev eff] assms unfolding money_only_def grew_def by blast+

definition requeued :: "datetime \<Rightarrow> webhook_event \<Rightarrow> webhook_event" where
  "requeued now e = e\<lparr>ev_status := PENDING, ev_attempt_count := 0,
     ev_next_attempt_at := now, ev_last_error := None, ev_processed_at := None\<rparr>"

lemma requeue_ok:
  assumes "requeue i now w = (Inr u, w')"
  shows "w' = (tick_stmt w)\<lparr>tables := update_event i (requeued now) (tables w)\<rparr>"
  using assms by (auto simp: requeue_def tx_simps requeued_def [abs_def] split: if_splits)

lemma update_entry_ok:
  assumes "update_entry i target now nt w = (Inr u, w')"
  shows "w' = (tick_stmt w)\<lparr>tables := (tables w)\<lparr>dead_letter_entry_t :=
      update_where (\<lambda>d. dl_id d = i) (moved_entry target now nt) (dead_letter_entry_t (tables w))\<rparr>\<rparr>"
    and "d \<in> set (dead_letter_entry_t (tables w)) \<Longrightarrow> dl_id d = i \<Longrightarrow> fn_dlq_terminal_is_terminal d (moved_entry target now nt d)"
  using assms by (auto simp: update_entry_def tx_simps Let_def split: if_splits)

lemmas statements_ok = record_attempt_ok(1) mark_succeeded_ok reschedule_ok dead_letter_ok(1) requeue_ok update_entry_ok(1)
  record_replay_request_ok(1)

lemma budget_mono: "within_budget st t s \<Longrightarrow> seqs_le s s' \<Longrightarrow> within_budget st t s'"
  by (simp add: within_budget_def)

lemma budget_same: "within_budget st t s \<Longrightarrow> webhook_event_t t' = webhook_event_t t \<Longrightarrow> within_budget st t' s'"
  by (simp add: within_budget_def)

lemma budget_update:
  assumes "within_budget st t s" "\<And>e. ev_status (f e) = PENDING \<Longrightarrow> 1 \<le> max_attempts st \<Longrightarrow> ev_attempt_count (f e) < max_attempts st"
  shows "within_budget st (update_event i f t) s'"
  using assms by (auto simp: within_budget_def dest!: update_event_rows)

interpretation budget: system_invariant "within_budget st" st for st
proof unfold_locales
  show "within_budget st t s \<Longrightarrow> seqs_le s s' \<Longrightarrow> within_budget st t s'" for t s s' by (rule budget_mono)
  show "ok_keeps (within_budget st) (ingest_event e)" for e
    unfolding ok_keeps_def
  proof (intro allI impI)
    fix w r w' assume I: "within_budget st (tables w) (seqs w)" and run: "ingest_event e w = (Inr r, w')"
    from run show "within_budget st (tables w') (seqs w')"
      by (cases rule: ingest_event_ok) (use I in \<open>auto simp: within_budget_def new_webhook_event_def\<close>)
  qed
  show "ok_keeps (within_budget st) (apply_effect ev eff)" for ev eff
    unfolding ok_keeps_def using effect_frame(1) budget_same by blast
  show "ok_keeps (within_budget st) (record_attempt i n s f out c d)" for i n s f out c d
    unfolding ok_keeps_def by (auto dest!: record_attempt_ok(1) elim!: budget_same)
  show "ok_keeps (within_budget st) (mark_succeeded i n now)" for i n now
    unfolding ok_keeps_def by (auto dest!: mark_succeeded_ok elim!: budget_update simp: succeeded_event_def)
  show "n < max_attempts st \<Longrightarrow> ok_keeps (within_budget st) (reschedule i n now err)" for i n now err
    unfolding ok_keeps_def by (auto dest!: reschedule_ok elim!: budget_update simp: rescheduled_def)
  show "ok_keeps (within_budget st) (dead_letter i n why)" for i n why
    unfolding ok_keeps_def
  proof (intro allI impI)
    fix w u w' assume I: "within_budget st (tables w) (seqs w)" and run: "dead_letter i n why w = (Inr u, w')"
    have "within_budget st (with_dead_letter (tx_now w) i why n (sq_dlq (seqs w)) (tables w)) (seqs w)"
      using I by (rule budget_same) simp
    then show "within_budget st (tables w') (seqs w')"
      unfolding dead_letter_ok(1) [OF run] by (rule budget_update) (simp add: dead_lettered_def)
  qed
  show "ok_keeps (within_budget st) (requeue i now)" for i now
    unfolding ok_keeps_def by (auto dest!: requeue_ok elim!: budget_update simp: requeued_def)
  show "ok_keeps (within_budget st) (update_entry i target now nt)" for i target now nt
    unfolding ok_keeps_def by (auto dest!: update_entry_ok(1) elim!: budget_same)
  show "ok_keeps (within_budget st) (record_replay_request i who reason out2 now att)" for i who reason out2 now att
    unfolding ok_keeps_def by (auto dest!: record_replay_request_ok(1) elim!: budget_same)
  show "ok_keeps (within_budget st) (purge_tx age)" for age
    unfolding ok_keeps_def within_budget_def by (auto dest!: purge_tx_frame(3))
qed

text \<open>The ledger as a log: what it once held stays, at its place.\<close>

definition ledger_log :: "ledger_entry list \<Rightarrow> tables \<Rightarrow> sequences \<Rightarrow> bool" where
  "ledger_log L t s \<longleftrightarrow> prefix L (ledger_entry_t t)"

lemma log_same: "ledger_log L t s \<Longrightarrow> ledger_entry_t t' = ledger_entry_t t \<Longrightarrow> ledger_log L t' s'"
  by (simp add: ledger_log_def)

interpretation log: system_invariant "ledger_log L" st for L st
proof unfold_locales
  show "ledger_log L t s \<Longrightarrow> seqs_le s s' \<Longrightarrow> ledger_log L t s'" for t s s' by (simp add: ledger_log_def)
  show "ok_keeps (ledger_log L) (ingest_event e)" for e
    unfolding ok_keeps_def
  proof (intro allI impI)
    fix w r w' assume I: "ledger_log L (tables w) (seqs w)" and run: "ingest_event e w = (Inr r, w')"
    from run show "ledger_log L (tables w') (seqs w')"
      by (cases rule: ingest_event_ok) (use I in \<open>simp_all add: ledger_log_def\<close>)
  qed
  show "ok_keeps (ledger_log L) (apply_effect ev eff)" for ev eff
    unfolding ok_keeps_def ledger_log_def using effect_frame(4) prefix_order.trans by blast
  show "ok_keeps (ledger_log L) (record_attempt i n s f out c d)" for i n s f out c d
    unfolding ok_keeps_def by (auto dest!: record_attempt_ok(1) elim!: log_same)
  show "ok_keeps (ledger_log L) (mark_succeeded i n now)" for i n now
    unfolding ok_keeps_def by (auto dest!: mark_succeeded_ok elim!: log_same)
  show "n < max_attempts st \<Longrightarrow> ok_keeps (ledger_log L) (reschedule i n now err)" for i n now err
    unfolding ok_keeps_def by (auto dest!: reschedule_ok elim!: log_same)
  show "ok_keeps (ledger_log L) (dead_letter i n why)" for i n why
    unfolding ok_keeps_def by (auto dest!: dead_letter_ok(1) simp: ledger_log_def)
  show "ok_keeps (ledger_log L) (requeue i now)" for i now
    unfolding ok_keeps_def by (auto dest!: requeue_ok elim!: log_same)
  show "ok_keeps (ledger_log L) (update_entry i target now nt)" for i target now nt
    unfolding ok_keeps_def by (auto dest!: update_entry_ok(1) elim!: log_same)
  show "ok_keeps (ledger_log L) (record_replay_request i who reason out2 now att)" for i who reason out2 now att
    unfolding ok_keeps_def by (auto dest!: record_replay_request_ok(1) elim!: log_same)
  show "ok_keeps (ledger_log L) (purge_tx age)" for age
    unfolding ok_keeps_def by (auto dest!: purge_tx_frame(1) elim!: log_same)
qed

text \<open>A verdict on a dead-letter entry: entry \<open>i\<close>, once it is there, is \<open>v\<close> or gone.\<close>

definition verdict :: "int \<Rightarrow> dlq_status \<Rightarrow> tables \<Rightarrow> sequences \<Rightarrow> bool" where
  "verdict i v t s \<longleftrightarrow> (v \<in> set TERMINAL \<longrightarrow>
     i < sq_dlq s \<and> (\<forall>d \<in> set (dead_letter_entry_t t). dl_id d = i \<longrightarrow> dl_status d = v))"

lemma verdict_same:
  "verdict i v t s \<Longrightarrow> set (dead_letter_entry_t t') \<subseteq> set (dead_letter_entry_t t) \<Longrightarrow> sq_dlq s \<le> sq_dlq s' \<Longrightarrow> verdict i v t' s'"
  by (auto simp: verdict_def)

interpretation verdicts: system_invariant "verdict i v" st for i v st
proof unfold_locales
  show "verdict i v t s \<Longrightarrow> seqs_le s s' \<Longrightarrow> verdict i v t s'" for t s s'
    by (erule verdict_same) (simp_all add: seqs_le_def)
  show "ok_keeps (verdict i v) (ingest_event e)" for e
    unfolding ok_keeps_def
  proof (intro allI impI)
    fix w r w' assume I: "verdict i v (tables w) (seqs w)" and run: "ingest_event e w = (Inr r, w')"
    from run show "verdict i v (tables w') (seqs w')"
      by (cases rule: ingest_event_ok) (use I in \<open>simp_all add: verdict_def\<close>)
  qed
  show "ok_keeps (verdict i v) (apply_effect ev eff)" for ev eff
    unfolding ok_keeps_def using effect_frame(2,3) by (metis order_refl verdict_same)
  show "ok_keeps (verdict i v) (record_attempt j n s f out c d)" for j n s f out c d
    unfolding ok_keeps_def by (auto dest!: record_attempt_ok(1) elim!: verdict_same)
  show "ok_keeps (verdict i v) (mark_succeeded j n now)" for j n now
    unfolding ok_keeps_def by (auto dest!: mark_succeeded_ok elim!: verdict_same)
  show "n < max_attempts st \<Longrightarrow> ok_keeps (verdict i v) (reschedule j n now err)" for j n now err
    unfolding ok_keeps_def by (auto dest!: reschedule_ok elim!: verdict_same)
  show "ok_keeps (verdict i v) (dead_letter j n why)" for j n why
    unfolding ok_keeps_def
  proof (intro allI impI)
    fix w u w' assume I: "verdict i v (tables w) (seqs w)" and run: "dead_letter j n why w = (Inr u, w')"
    note r = dead_letter_ok(1,2) [OF run]
    have "dl_status d = v" if "v \<in> set TERMINAL" "d \<in> set (dead_letter_entry_t (tables w'))" "dl_id d = i" for d
    proof -
      have "d \<in> set (dead_letter_entry_t (tables w)) \<or> d = new_dead_letter_entry (tx_now w) (j, why, n) (sq_dlq (seqs w))"
        using that(2) with_dead_letter_entries(2) [of d] unfolding r(1) by simp
      with I that show ?thesis by (auto simp: verdict_def new_dead_letter_entry_def)
    qed
    with I r(2) show "verdict i v (tables w') (seqs w')" by (auto simp: verdict_def)
  qed
  show "ok_keeps (verdict i v) (requeue j now)" for j now
    unfolding ok_keeps_def by (auto dest!: requeue_ok elim!: verdict_same)
  show "ok_keeps (verdict i v) (update_entry j target now nt)" for j target now nt
    unfolding ok_keeps_def
  proof (intro allI impI)
    fix w u w' assume I: "verdict i v (tables w) (seqs w)" and run: "update_entry j target now nt w = (Inr u, w')"
    note r = update_entry_ok [OF run]
    have "dl_status d = v" if v: "v \<in> set TERMINAL" and d: "d \<in> set (dead_letter_entry_t (tables w'))" "dl_id d = i" for d
    proof -
      from d(1) r(1) obtain d0 where d0: "d0 \<in> set (dead_letter_entry_t (tables w))"
          "d = (if dl_id d0 = j then moved_entry target now nt d0 else d0)" by (auto dest: update_where_memD)
      with d(2) have "dl_id d0 = i" by (auto split: if_splits)
      with I v d0(1) have s: "dl_status d0 = v" by (simp add: verdict_def)
      with r(2) [OF d0(1)] d0(2) v show ?thesis by (auto simp: fn_dlq_terminal_is_terminal_def TERMINAL_def split: if_splits)
    qed
    with I r(1) show "verdict i v (tables w') (seqs w')" by (auto simp: verdict_def)
  qed
  show "ok_keeps (verdict i v) (record_replay_request j who reason out2 now att)" for j who reason out2 now att
    unfolding ok_keeps_def by (auto dest!: record_replay_request_ok(1) elim!: verdict_same)
  show "ok_keeps (verdict i v) (purge_tx age)" for age
    unfolding ok_keeps_def using purge_tx_frame(2,4) by (metis order_refl verdict_same)
qed

section \<open>The programs are runs of the system\<close>

definition moves :: "registry \<Rightarrow> settings \<Rightarrow> 'a prog \<Rightarrow> bool" where
  "moves reg st p \<longleftrightarrow> (\<forall>w. sys_steps reg st (db_of w) (db_of (snd (p w))))"

definition still :: "'a prog \<Rightarrow> bool" where
  "still p \<longleftrightarrow> (\<forall>w. db_of (snd (p w)) = db_of w)"

named_theorems moves_intros "programs that are runs of steps"
named_theorems still_intros "programs that only read"

lemma movesD: "moves reg st p \<Longrightarrow> p w = (r, w') \<Longrightarrow> sys_steps reg st (db_of w) (db_of w')"
  unfolding moves_def by (metis snd_conv)

lemma stillD: "still p \<Longrightarrow> p w = (r, w') \<Longrightarrow> db_of w' = db_of w"
  unfolding still_def by (metis snd_conv)

lemma still_moves: "still p \<Longrightarrow> moves reg st p"
  by (simp add: still_def moves_def)

lemma moves_bind [moves_intros]:
  assumes m: "moves reg st m" and f: "\<And>a. moves reg st (f a)"
  shows "moves reg st (bind_tx m f)"
  unfolding moves_def
proof
  fix w
  obtain r w1 where r: "m w = (r, w1)" by (cases "m w")
  show "sys_steps reg st (db_of w) (db_of (snd (bind_tx m f w)))"
  proof (cases r)
    case (Inl e)
    with r movesD [OF m r] show ?thesis by (simp add: bind_tx_def)
  next
    case (Inr a)
    have "sys_steps reg st (db_of w1) (db_of (snd (f a w1)))" using f [of a] by (simp add: moves_def)
    with r movesD [OF m r] Inr show ?thesis by (simp add: bind_tx_def)
  qed
qed

lemma still_bind [still_intros]:
  assumes m: "still m" and f: "\<And>a. still (f a)"
  shows "still (bind_tx m f)"
  unfolding still_def
proof
  fix w
  obtain r w1 where r: "m w = (r, w1)" by (cases "m w")
  show "db_of (snd (bind_tx m f w)) = db_of w"
    using r stillD [OF m r] f by (cases r) (simp_all add: bind_tx_def still_def)
qed

lemma still_simple [still_intros]:
  "still (return_tx a)" "still (raise_tx e)" "still (lift_exc r)" "still clock_now" "still (inc m)" "still (draw_delay att b c)"
  "still (query q)" "still (query_by_id i g)"
  by (auto simp: still_def return_tx_def raise_tx_def lift_exc_def clock_now_def inc_def draw_delay_def query_def query_by_id_def
      stmt_def Let_def split: sum.splits option.splits)

lemmas moves_simple [moves_intros] = still_simple(1-6) [THEN still_moves]

lemma still_session_scope: "still p \<Longrightarrow> still (session_scope p)"
  unfolding still_def
proof
  fix w assume s: "\<forall>w. db_of (snd (p w)) = db_of w"
  obtain r w1 where r: "p (begin_tx w) = (r, w1)" by (cases "p (begin_tx w)")
  have "db_of w1 = db_of w" using s [rule_format, of "begin_tx w"] r by simp
  with r show "db_of (snd (session_scope p w)) = db_of w"
    by (cases r) (auto simp: session_scope_def Let_def split: option.splits fault.splits)
qed

lemma moves_catch [moves_intros]:
  assumes m: "moves reg st m" and h: "\<And>e. moves reg st (h e)"
  shows "moves reg st (catch_exception m h)"
  unfolding moves_def
proof
  fix w
  obtain r w1 where r: "m w = (r, w1)" by (cases "m w")
  have "sys_steps reg st (db_of w1) (db_of (snd (h e w1)))" for e using h [of e] by (simp add: moves_def)
  with r movesD [OF m r] show "sys_steps reg st (db_of w) (db_of (snd (catch_exception m h w)))"
    by (cases r) (auto simp: catch_exception_def intro: rtranclp_trans)
qed

lemma moves_same_state: "moves reg st p \<Longrightarrow> (\<And>w. db_of (snd (q w)) = db_of (snd (p w))) \<Longrightarrow> moves reg st q"
  by (simp add: moves_def)

lemma moves_wrappers [moves_intros]:
  "moves reg st p \<Longrightarrow> moves reg st (map_exc g p)" "moves reg st p \<Longrightarrow> moves reg st (respond p)" "moves reg st p \<Longrightarrow> moves reg st (timed m p)"
  by (erule moves_same_state; auto simp: map_exc_def respond_def timed_def split: prod.splits sum.splits exc.splits)+

lemma moves_with_rng [moves_intros]:
  assumes p: "moves reg st p" shows "moves reg st (with_rng r p)"
  unfolding moves_def
proof
  fix w
  have "sys_steps reg st (db_of (w\<lparr>rng := r\<rparr>)) (db_of (snd (p (w\<lparr>rng := r\<rparr>))))" using p unfolding moves_def by blast
  then show "sys_steps reg st (db_of w) (db_of (snd (with_rng r p w)))" by (simp add: with_rng_state)
qed

lemma moves_guarded [moves_intros]: "(\<And>op. moves reg st (h op)) \<Longrightarrow> moves reg st (guarded s key v h)"
  unfolding guarded_def by (auto intro!: moves_intros split: outcome.splits sum.splits exc.splits)

lemma session_scope_forget: "db_of (snd (session_scope (forget p) w)) = db_of (snd (session_scope p w))"
proof -
  obtain r w1 where r: "p (begin_tx w) = (r, w1)" by (cases "p (begin_tx w)")
  then show ?thesis
    by (cases r) (auto simp: session_scope_def forget_def bind_tx_def return_tx_def Let_def split: option.splits fault.splits)
qed

lemma moves_transaction: "moves reg st (session_scope (body reg st a))"
  unfolding moves_def
proof
  fix w
  obtain r w' where r: "session_scope (body reg st a) w = (r, w')" by (cases "session_scope (body reg st a) w")
  from sys_step.step [OF r] show "sys_steps reg st (db_of w) (db_of (snd (session_scope (body reg st a) w)))"
    by (simp add: r r_into_rtranclp)
qed

lemma moves_body: "body reg st a = forget p \<Longrightarrow> moves reg st (session_scope p)"
  by (rule moves_same_state [OF moves_transaction [of reg st a]]) (simp add: session_scope_forget)

lemma moves_process_event [moves_intros]: "moves reg st (process_event i reg st)"
  unfolding process_event_def record_failure_def
  by (intro moves_intros moves_body [of _ _ "Process i s" for s] moves_body [of _ _ "Fail i e s" for e s]) simp_all

lemma moves_replay_event [moves_intros]: "moves reg st (replay_event i who why reg st)"
proof -
  have 1: "moves reg st (session_scope (replay_open i now))" for now
    using moves_transaction [of reg st "Replay_Open i now"] by simp
  have 2: "moves reg st (session_scope (replay_close i who why out now))" for out now
    using moves_transaction [of reg st "Replay_Close i who why out now"] by simp
  show ?thesis unfolding replay_event_def by (auto intro!: moves_intros 1 2 simp: Let_def split: prod.splits)
qed

lemma moves_replay_events [moves_intros]: "moves reg st (replay_events is who why reg st)"
  by (induction "is") (auto intro!: moves_intros)

lemma moves_ingest [moves_intros]: "moves reg st (ingest hmac c s rq)"
proof -
  have 1: "moves reg st (session_scope (ingest_event e))" for e by (rule moves_body [of _ _ "Ingest e"]) simp
  show ?thesis
    unfolding ingest_def ingest_block_def reject_def Let_def
    by (auto intro!: moves_intros 1 split: option.splits sum.splits)
qed

lemma moves_triage_route [moves_intros]: "moves reg st (triage_route fmt st' key i action n)"
proof -
  have 1: "moves reg st (session_scope (triage_body i (triage_target action) n))" by (rule moves_body [of _ _ "Triage i action n"]) simp
  show ?thesis unfolding triage_route_def by (intro moves_intros 1)
qed

lemma moves_poll_once [moves_intros]: "moves reg st (poll_once st reg)"
proof -
  have 1: "still (due_event_ids now limit)" for now limit unfolding due_event_ids_def by (intro still_intros)
  have 2: "moves reg st (process_batch ids reg st)" for ids by (induction ids) (auto intro!: moves_intros)
  show ?thesis unfolding poll_once_def
    by (intro moves_intros 2 still_moves [OF still_session_scope] still_intros 1)
qed

lemma moves_replay_route [moves_intros]: "moves balance_registry st (replay_route mt entropy st key req)"
proof -
  have 1: "still (stmt (\<lambda>w. (Inl (db_error w code), w)) :: 'a prog)" for code
    by (auto simp: still_def stmt_def Let_def split: option.splits)
  have "still (select_events limit req)" for limit
    unfolding select_events_def dead_lettered_event_ids_def event_ids_in_range_def
    by (auto intro!: still_intros 1 split: option.splits py_datetime.splits)
  then show ?thesis unfolding replay_route_def by (intro moves_intros still_moves [OF still_session_scope])
qed

lemma moves_turn:
  assumes "turn st reg s w = (r, w')" shows "sys_steps reg st (db_of w) (db_of w')"
proof -
  obtain x w1 where x: "poll_once st reg w = (x, w1)" by (cases "poll_once st reg w")
  have fin: "db_of w2 = db_of w1" if "bind_tx (draw_delay f b c) (\<lambda>delay. return_tx (g delay)) w1 = (r, w2)" for f b c w2 and g :: "rat \<Rightarrow> loop_state"
  proof -
    have "still (bind_tx (draw_delay f b c) (\<lambda>delay. return_tx (g delay)))" by (intro still_intros)
    from this that show ?thesis by (rule stillD)
  qed
  show ?thesis
    using assms movesD [OF moves_poll_once x] x fin by (auto simp: turn_def Let_def split: sum.splits if_splits)
qed

lemma moves_poll_loop:
  "poll_loop fuel shutdown st reg k s w = Some (r, w') \<Longrightarrow> sys_steps reg st (db_of w) (db_of w')"
proof (induction fuel arbitrary: k s w)
  case (Suc fuel)
  obtain x w1 where x: "turn st reg s w = (x, w1)" by (cases "turn st reg s w")
  from moves_turn [OF x] Suc.prems Suc.IH [of "Suc k" _ w1] x show ?case
    by (auto split: if_splits sum.splits intro: rtranclp_trans)
qed simp

section \<open>Properties\<close>

text \<open>Every program is a run of the system: whatever a delivery, a processing pass, a poll of a worker, the worker's whole
  loop, a triage or a batch replay does to the database -- failing, crashing or succeeding -- is a sequence of
  transactions of the step relation; so what holds of all interleavings of steps holds of any mix of these programs.\<close>

theorem programs_are_runs:
  "sys_steps reg st (db_of w) (db_of (snd (ingest hmac c st rq w)))
   \<and> sys_steps reg st (db_of w) (db_of (snd (process_event i reg st w)))
   \<and> sys_steps reg st (db_of w) (db_of (snd (poll_once st reg w)))
   \<and> sys_steps reg st (db_of w) (db_of (snd (replay_events ids who why reg st w)))
   \<and> sys_steps reg st (db_of w) (db_of (snd (triage_route fmt st key i action n w)))
   \<and> sys_steps balance_registry st (db_of w) (db_of (snd (replay_route mt entropy st key req w)))
   \<and> (case poll_loop fuel shutdown st reg k s w of None \<Rightarrow> True | Some (_, w') \<Rightarrow> sys_steps reg st (db_of w) (db_of w'))"
  using moves_ingest moves_process_event moves_poll_once moves_replay_events moves_triage_route moves_replay_route
    moves_poll_loop [of fuel shutdown st reg k s w]
  by (auto simp: moves_def split: option.splits)

text \<open>C21. The database is consistent in every reachable state, under every interleaving, fault and clock: keys, references and
  checks hold, every balance equals the sum of its ledger entries, every dead-lettered event has its entry, and every
  event waiting to be processed still has attempts in its budget.\<close>

theorem reachable_consistent:
  assumes "reachable reg st s" and "1 \<le> max_attempts st"
  shows "db_inv (fst s) (snd s) \<and> (\<forall>e \<in> set (webhook_event_t (fst s)). ev_status e = PENDING \<longrightarrow> ev_attempt_count e < max_attempts st)"
proof -
  have "within_budget st no_rows fresh_sequences" by (simp add: within_budget_def no_rows_def)
  from budget.reachable_keeps [OF assms(1) this] consistent.reachable_keeps [OF assms(1) db_inv_no_rows] assms(2)
  show ?thesis by (simp add: within_budget_def)
qed

text \<open>C22. Money is never unmade: from one reachable state to any later one the ledger only grows at its end, so every entry
  stays with its event, account and amount; and no event ever has two entries.\<close>

theorem ledger_append_only:
  assumes "reachable reg st s" and "sys_steps reg st s s'"
  shows "prefix (ledger_entry_t (fst s)) (ledger_entry_t (fst s')) \<and> distinct (map le_event_id (ledger_entry_t (fst s')))"
proof -
  have "db_inv (fst s) (snd s)" by (rule consistent.reachable_keeps [OF assms(1) db_inv_no_rows])
  from consistent.steps_keep [OF assms(2) this] have "distinct (map le_event_id (ledger_entry_t (fst s')))"
    by (simp add: db_inv_def keys_ok_def table_ok_def)
  moreover have "ledger_log (ledger_entry_t (fst s)) (fst s) (snd s)" by (simp add: ledger_log_def)
  from log.steps_keep [OF assms(2) this] have "prefix (ledger_entry_t (fst s)) (ledger_entry_t (fst s'))"
    by (simp add: ledger_log_def)
  ultimately show ?thesis by simp
qed

text \<open>C23. A verdict stands: a dead-letter entry that is resolved or discarded keeps that status in every later state, whatever
  is replayed, retried or triaged, until retention removes it.\<close>

theorem verdict_stands:
  assumes "reachable reg st s" and "sys_steps reg st s s'"
    and "d \<in> set (dead_letter_entry_t (fst s))" "dl_status d \<in> set TERMINAL"
    and "d' \<in> set (dead_letter_entry_t (fst s'))" "dl_id d' = dl_id d"
  shows "dl_status d' = dl_status d"
proof -
  have inv: "db_inv (fst s) (snd s)" by (rule consistent.reachable_keeps [OF assms(1) db_inv_no_rows])
  then have t: "table_ok dl_id dl_event_id (sq_dlq (snd s)) (dead_letter_entry_t (fst s))" by (simp add: db_inv_def keys_ok_def)
  have "verdict (dl_id d) (dl_status d) (fst s) (snd s)"
    using t assms(3) table_ok_rid_inj [OF t _ assms(3)] by (auto simp: verdict_def table_ok_def)
  from verdicts.steps_keep [OF assms(2) this] assms(4-6) show ?thesis by (simp add: verdict_def)
qed

end
