(* ===== verification/Exec.thy ===== *)
theory Exec
  imports System
begin

text \<open>
  Running the programs on concrete databases: the collection \<open>exec\<close> of equations a run unfolds, and congruence rules that keep
  the simplifier out of continuations until the values they wait for are there. The witnesses of the
  development run on it.
\<close>

named_theorems exec "equations of a concrete run"
named_theorems exec_cong "evaluation order of a concrete run"

lemma exec_order [exec_cong]:
  "m = m' \<Longrightarrow> bind_tx m f = bind_tx m' f"
  "m = m' \<Longrightarrow> w = w' \<Longrightarrow> catch_exception m h w = catch_exception m' h w'"
  by simp_all

text \<open>Only the projections of a loaded event are looked at.\<close>

lemma to_domain_simps:
  "se_id (to_domain e) = ev_id e" "se_event_type (to_domain e) = ev_event_type e" "se_entity_type (to_domain e) = ev_entity_type e"
  "se_entity_id (to_domain e) = ev_entity_id e" "se_attempt_count (to_domain e) = ev_attempt_count e"
  "se_provider_sequence (to_domain e) = ev_provider_sequence e" "se_payload (to_domain e) = ev_payload e"
  by (simp_all add: to_domain_def)

lemma legal_moves:
  "ensure_transition NEEDS_REVIEW REPLAYING = Inr ()" "ensure_transition NEEDS_REVIEW RESOLVED = Inr ()"
  "ensure_transition NEEDS_REVIEW DISCARDED = Inr ()" "ensure_transition REPLAYING RESOLVED = Inr ()"
  "ensure_transition REPLAYING NEEDS_REVIEW = Inr ()" "ensure_transition REPLAYING DISCARDED = Inr ()"
  by (simp_all add: ensure_transition_ok)

lemmas [exec] = return_tx_def raise_tx_def bind_tx_def lift_exc_def catch_exception_def clock_now_def inc_def draw_delay_def
  stmt_def query_def modify_def session_scope_def db_error_def integrity_error_def text_opt_ok_def ev_key_def pa_key_def
  new_webhook_event_def new_account_def new_ledger_entry_def new_dead_letter_entry_def Let_def
  int4_ok_def int8_ok_def text_ok_def on_conflict_do_nothing_def max_col_def event_ids_def account_ids_def

lemmas [exec] = query_by_id_def to_domain_simps is_due_def due_event_ids_def claim_def load_for_update_def attempts_of_def
  next_attempt_number_def update_event_def requeue_def record_attempt_def mark_succeeded_def reschedule_def latest_attempt_id_def
  record_replay_request_def dead_lettered_event_ids_def event_ids_in_range_def insert_dead_letter_def dead_letter_def order_by_limit_def

lemmas [exec] = insert_account_def account_id_def claim_ledger_row_def add_to_balance_def set_balance_def seq_or_zero_def
  apply_credit_def apply_set_balance_def apply_effect_def take_advisory_lock_def lock_entity_def known_event_type_def NOT_CLAIMED_def
  process_apply_def process_body_def retry_or_bury_def record_failure_body_def record_failure_def process_event_def
  delivery_key_def delivery_text_ok_def delivery_range_ok_def insert_event_def ingest_event_def

lemmas [exec] = legal_moves to_record_def base_query_def get_entry_def entry_for_event_def fn_dlq_terminal_is_terminal_def
  moved_entry_def update_entry_def transition_def outcome_of_def claimed_def mark_dlq_replaying_def settle_dlq_def
  replay_open_def replay_close_def replay_event_def list_entries_def TERMINAL_def

end
