(* ===== verification/Scenario.thy ===== *)
theory Scenario
  imports Exec
begin

text \<open>
  A small concrete deployment: a quiet environment (no faults, fixed clocks, rows delivered in table
  order), an account that is credited and snapshotted, and environments that misbehave at one
  chosen statement. The witnesses of the development are evaluated on it.
\<close>

definition quiet :: env where
  "quiet = \<lparr>faults = (\<lambda>_. None), app_clock = (\<lambda>_. 2000000), server_clock = (\<lambda>_. 1000000),
     row_locked = (\<lambda>_ _. False), scan_events = (\<lambda>_ rows. rows), scan_dlq = (\<lambda>_ rows. rows),
     driver_text = (\<lambda>code. code), blake2b8 = (\<lambda>_. replicate 8 0)\<rparr>"

definition start_world :: world where
  "start_world = \<lparr>tables = no_rows, seqs = fresh_sequences, tx_now = 0, stmts = 0, ticks = 0,
     rng = \<lparr>draws = (\<lambda>_. 0), drawn = 0\<rparr>, advisory = [], metrics = [], env = quiet\<rparr>"

definition credit_of :: "py_str \<Rightarrow> int \<Rightarrow> incoming_event" where
  "credit_of key amount = \<lparr>ie_source = ''acme'', ie_external_id = key, ie_idempotency_key = key,
     ie_event_type = CREDITED, ie_entity_type = ''account'', ie_entity_id = ''a'',
     ie_payload = [(''amount'', JInt amount)], ie_headers = [], ie_signature_verified = True,
     ie_occurred_at = 0, ie_provider_sequence = Some 1\<rparr>"

definition demo_settings :: settings where
  "demo_settings = default_settings ''postgresql+asyncpg://db/app'' ''key'' [(''acme'', ''secret'')]"

definition first_event :: webhook_event where
  "first_event = \<lparr>ev_id = 1, ev_source = ''acme'', ev_external_id = ''k1'', ev_idempotency_key = ''k1'',
     ev_event_type = CREDITED, ev_entity_type = ''account'', ev_entity_id = ''a'', ev_payload = [(''amount'', JInt 5)],
     ev_headers = [], ev_signature_verified = True, ev_occurred_at = 0, ev_provider_sequence = Some 1,
     ev_received_at = 1000000, ev_status = PENDING, ev_attempt_count = 0, ev_next_attempt_at = 1000000,
     ev_processed_at = None, ev_last_error = None\<rparr>"

text \<open>The credit stored.\<close>

definition ingested :: world where
  "ingested = start_world\<lparr>tables := no_rows\<lparr>webhook_event_t := [first_event]\<rparr>, seqs := fresh_sequences\<lparr>sq_event := 2\<rparr>,
     tx_now := 1000000, stmts := 2\<rparr>"

section \<open>Facts of the demo deployment\<close>

lemma demo_json: "json_object_ok [(''amount'', JInt n)]" "json_object_ok []"
  by (simp_all add: json_object_ok_def text_ok_def)

lemma demo_dispatch:
  "ev_event_type e = CREDITED \<Longrightarrow> ev_entity_type e = ''account'' \<Longrightarrow> ev_entity_id e = ''a'' \<Longrightarrow> ev_payload e = [(''amount'', JInt 5)]
     \<Longrightarrow> dispatch balance_registry (to_domain e) = Inr (Credit ''a'' 5)"
  by (simp add: dispatch_def balance_registry_def handle_credited_def minor_units_def non_negative_def account_ref_of_def
      ACCOUNT_ENTITY_TYPE_def json_get_def to_domain_simps)

lemma demo_event_types: "event_types balance_registry = {CREDITED, DEBITED, SNAPSHOT}"
  by code_simp

lemma demo_lock: "advisory_lock_key (\<lambda>_. replicate 8 0) a b = 0"
  by (simp add: advisory_lock_key_def from_bytes_signed_def from_bytes_unsigned_def Let_def eval_nat_numeral)

lemma demo_lock_timeout: "set_lock_timeout (advisory_lock_timeout_seconds demo_settings) = stmt (\<lambda>w. (Inr (), w))"
proof -
  have "\<not> float_overflows (advisory_lock_timeout_seconds demo_settings * 1000)"
    "py_trunc (fmul (advisory_lock_timeout_seconds demo_settings) 1000) = 5000" by code_simp+
  then show ?thesis by (simp add: set_lock_timeout_def Let_def)
qed

lemma demo_durations: "duration_ms 2000000 2000000 = 0" "total_seconds 0 = 0"
  by code_simp+

lemmas demo_world = start_world_def quiet_def no_rows_def fresh_sequences_def first_event_def ingested_def

lemmas demo = demo_world demo_json demo_dispatch demo_event_types demo_lock demo_lock_timeout demo_durations credit_of_def

lemma start_inv: "db_inv (tables start_world) (seqs start_world)"
  by (simp add: start_world_def db_inv_no_rows)

lemma ingested_run:
  "session_scope (ingest_event (credit_of ''k1'' 5)) start_world = (Inr \<lparr>ir_event_id = 1, ir_duplicate = False\<rparr>, ingested)"
  by (simp add: exec demo CREDITED_def cong: exec_cong)

lemma ingested_inv: "db_inv (tables ingested) (seqs ingested)"
  using keepsD [OF inv.keeps_session_scope [OF frame_ingest_event ok_ingest_event] ingested_run] start_inv by blast

text \<open>The credit processed.\<close>

definition processed :: world where
  "processed = ingested\<lparr>tables := \<lparr>
       webhook_event_t = [first_event\<lparr>ev_status := SUCCEEDED, ev_attempt_count := 1, ev_processed_at := Some 2000000\<rparr>],
       processing_attempt_t = [\<lparr>pa_id = 1, pa_event_id = 1, pa_attempt_number = 1, pa_started_at = 2000000,
         pa_finished_at = Some 2000000, pa_outcome = Some ATT_SUCCEEDED, pa_error_class = None, pa_error_detail = None,
         pa_duration_ms = Some 0\<rparr>],
       dead_letter_entry_t = [], replay_request_t = [],
       account_t = [\<lparr>ac_id = 1, ac_external_ref = ''a'', ac_balance_minor = 5, ac_version = 1, ac_updated_at = 1000000\<rparr>],
       ledger_entry_t = [\<lparr>le_id = 1, le_account_id = 1, le_event_id = 1, le_amount_minor = 5, le_created_at = 1000000\<rparr>]\<rparr>,
     seqs := \<lparr>sq_event = 2, sq_attempt = 2, sq_dlq = 1, sq_replay = 1, sq_account = 2, sq_ledger = 2\<rparr>,
     stmts := 12, ticks := Suc (Suc 0), metrics := [EventsProcessed CREDITED ''succeeded'', ProcessLatency CREDITED 0]\<rparr>"

lemma processed_run:
  "process_event 1 balance_registry demo_settings ingested
     = (Inr \<lparr>pr_outcome = Some ATT_SUCCEEDED, pr_effect = Some APPLIED\<rparr>, processed)"
  by (simp add: exec demo processed_def cong: exec_cong)

lemma processed_inv: "db_inv (tables processed) (seqs processed)"
  using keepsD [OF keeps_process_event processed_run] ingested_inv by blast

lemma processed_ledger:
  "le_event_id ` set (ledger_entry_t (tables processed)) = {1}" "ledger_entry_t (tables ingested) = []"
  by (simp_all add: processed_def demo_world)

theorem process_success_witness:
  "\<exists>row'. find_row (\<lambda>e. ev_id e = 1) (webhook_event_t (tables processed)) = Some row' \<and> ev_status row' = SUCCEEDED"
  using process_success [OF ingested_inv processed_run, of APPLIED] by auto

theorem effect_has_record_witness:
  "\<exists>a \<in> set (processing_attempt_t (tables processed)) - set (processing_attempt_t (tables ingested)).
     pa_event_id a = 1 \<and> pa_outcome a = Some ATT_SUCCEEDED"
proof -
  have "ledger_abs (tables processed) \<noteq> ledger_abs (tables ingested)"
    using processed_ledger by (simp add: ledger_abs_def)
  from effect_has_record [OF ingested_inv processed_run this] show ?thesis by blast
qed

theorem ingest_accepts_witness:
  "\<exists>!row. row \<in> set (webhook_event_t (tables (snd (ingest_event (credit_of ''k1'' 5) start_world))))
      \<and> ev_key row = (''acme'', ''k1'')"
proof -
  let ?r = "\<lparr>ir_event_id = 1, ir_duplicate = False\<rparr>"
  have "fst (ingest_event (credit_of ''k1'' 5) start_world) = Inr ?r" by (simp add: exec demo CREDITED_def cong: exec_cong)
  then have "ingest_event (credit_of ''k1'' 5) start_world = (Inr ?r, snd (ingest_event (credit_of ''k1'' 5) start_world))"
    by (metis prod.collapse)
  from ingest_accepts [OF start_inv this] show ?thesis by (simp add: delivery_key_def credit_of_def)
qed

theorem replay_no_second_effect_witness:
  "ledger_abs (tables (snd (replay_event 1 ''ops'' None balance_registry demo_settings processed))) = ledger_abs (tables processed)"
  by (rule replay_no_second_effect [OF processed_inv])
     (rule prod.collapse [symmetric], use processed_ledger in simp)

text \<open>A failure nobody anticipated.\<close>

definition bug :: exc where "bug = ValueError ''bug''"

lemma demo_bug: "is_retryable bug = False" "redacted_detail bug = ''ValueError: bug''" "class_name bug = ''ValueError''" "is_Exception bug"
  by code_simp+

definition bug_reason :: py_str where
  "bug_reason = ''non-retryable failure (ValueError): ValueError: bug''"

text \<open>The credit after it.\<close>

definition buried :: world where
  "buried = ingested\<lparr>tables := (tables ingested)\<lparr>
       webhook_event_t := [first_event\<lparr>ev_status := DEAD_LETTERED, ev_attempt_count := 1, ev_last_error := Some bug_reason\<rparr>],
       processing_attempt_t := [\<lparr>pa_id = 1, pa_event_id = 1, pa_attempt_number = 1, pa_started_at = 2000000,
         pa_finished_at = Some 2000000, pa_outcome = Some NON_RETRYABLE_ERROR, pa_error_class = Some ''ValueError'',
         pa_error_detail = Some ''ValueError: bug'', pa_duration_ms = Some 0\<rparr>],
       dead_letter_entry_t := [\<lparr>dl_id = 1, dl_event_id = 1, dl_reason = bug_reason, dl_attempts_made = 1,
         dl_dead_lettered_at = 1000000, dl_status = NEEDS_REVIEW, dl_resolved_at = None, dl_resolution_note = None\<rparr>]\<rparr>,
     seqs := \<lparr>sq_event = 2, sq_attempt = 2, sq_dlq = 2, sq_replay = 1, sq_account = 1, sq_ledger = 1\<rparr>,
     stmts := 8, ticks := Suc 0, metrics := [EventsDeadLettered CREDITED ''non-retryable failure'']\<rparr>"

lemma buried_run:
  "record_failure 1 bug balance_registry demo_settings 2000000 ingested
     = (Inr \<lparr>pr_outcome = Some NON_RETRYABLE_ERROR, pr_effect = None\<rparr>, buried)"
  by (simp add: exec demo demo_bug buried_def bug_reason_def cong: exec_cong)

theorem failure_decides_witness:
  "\<exists>row'. find_row (\<lambda>e. ev_id e = 1) (webhook_event_t (tables buried)) = Some row'
     \<and> ev_status row' = DEAD_LETTERED \<and> ev_attempt_count row' = 1"
proof -
  have row: "find_row (\<lambda>e. ev_id e = 1) (webhook_event_t (tables ingested)) = Some first_event"
    by (simp add: ingested_def first_event_def)
  have st: "is_double (backoff_cap_seconds demo_settings)" "0 \<le> backoff_cap_seconds demo_settings"
    "0 \<le> backoff_base_seconds demo_settings"
    by code_simp+
  from failure_decides [OF buried_run row st] show ?thesis by (auto simp: demo_bug first_event_def)
qed

theorem worker_stops_witness:
  "\<exists>r. worker_run 3 (\<lambda>k. 2 \<le> k) (\<lambda>_. True) demo_settings balance_registry ingested = Some r"
  by (rule worker_stops [of 2]) simp_all

theorem await_loop_ends_witness:
  "\<exists>r. await_loop 1 (\<lambda>_. False) (\<lambda>_. False) demo_settings 2000000 0 [] start_world = Some r"
  by (rule await_loop_ends [of _ _ 0]) (simp_all add: start_world_def quiet_def)

theorem turn_survives_witness:
  "case fst (turn demo_settings balance_registry \<lparr>consecutive_failures = 0, slept = []\<rparr> start_world) of
     Inl e \<Rightarrow> \<not> (is_Exception e \<and> is_retryable e) | Inr s' \<Rightarrow> 0 \<le> consecutive_failures s'"
proof -
  have st: "is_double (backoff_cap_seconds demo_settings)" "0 \<le> backoff_cap_seconds demo_settings"
    "0 \<le> backoff_base_seconds demo_settings" by code_simp+
  from turn_survives [OF st _ prod.collapse [symmetric], of "\<lparr>consecutive_failures = 0, slept = []\<rparr>" balance_registry start_world]
  show ?thesis by (auto split: sum.splits)
qed

text \<open>A replay of the credit.\<close>

definition replayed :: world where
  "replayed = snd (replay_event 1 ''ops'' None balance_registry demo_settings ingested)"

lemma replayed_run:
  "replay_event 1 ''ops'' None balance_registry demo_settings ingested
     = (Inr \<lparr>rp_event_id = 1, rp_outcome = REP_SUCCEEDED, rp_detail = None\<rparr>, replayed)"
  unfolding replayed_def by (simp add: exec demo cong: exec_cong)

theorem replay_audited_witness:
  "\<exists>q \<in> set (replay_request_t (tables replayed)). rr_event_id q = 1 \<and> rr_requested_by q = ''ops''"
  using replay_audited [OF ingested_inv replayed_run] by auto

end
