(* ===== verification/Scenario_Http.thy ===== *)
theory Scenario_Http
  imports Scenario Http_Misc
begin

text \<open>
  A signed request against the demo deployment. HMAC is instantiated by a constant 64-digit digest and the
  JSON decoder by one that returns the demo envelope; the witnesses of the HTTP layer run on them.
\<close>

definition demo_hmac :: hmac where
  "demo_hmac key msg = replicate 64 (CHR ''0'')"

definition demo_envelope :: json_object where
  "demo_envelope = [(''id'', JStr ''e1''), (''type'', JStr CREDITED), (''occurred_at'', JInt 0),
     (''entity'', JObj [(''type'', JStr ''account''), (''id'', JStr ''a'')]), (''data'', JObj [(''amount'', JInt 5)])]"

definition demo_codecs :: codecs where
  "demo_codecs = \<lparr>json_loads = (\<lambda>_. Inr (JObj demo_envelope)),
     as_str = (\<lambda>j. case j of JStr s \<Rightarrow> Some s | _ \<Rightarrow> None),
     as_datetime = (\<lambda>j. case j of JInt n \<Rightarrow> Some n | _ \<Rightarrow> None),
     as_int = (\<lambda>j. case j of JInt n \<Rightarrow> Some n | _ \<Rightarrow> None)\<rparr>"

definition demo_request :: http_request where
  "demo_request = \<lparr>rq_source = ''acme'', rq_body = [123, 125],
     rq_headers = [(''x-webhook-signature'', signed_header demo_hmac ''secret'' 2 [123, 125]), (''authorization'', ''x'')]\<rparr>"

definition stored_world :: world where
  "stored_world = snd (ingest demo_hmac demo_codecs demo_settings demo_request start_world)"

definition stored_twice :: world where
  "stored_twice = snd (ingest demo_hmac demo_codecs demo_settings demo_request stored_world)"

lemma demo_ingested:
  "fst (ingest demo_hmac demo_codecs demo_settings demo_request start_world)
     = Inr (accepted \<lparr>ir_event_id = 1, ir_duplicate = False\<rparr>)"
  by code_simp

lemma demo_ingest_run:
  "ingest demo_hmac demo_codecs demo_settings demo_request start_world
     = (Inr (accepted \<lparr>ir_event_id = 1, ir_duplicate = False\<rparr>), stored_world)"
  unfolding stored_world_def using demo_ingested by (metis prod.collapse)

lemma demo_ingested_again:
  "fst (ingest demo_hmac demo_codecs demo_settings demo_request stored_world)
     = Inr (accepted \<lparr>ir_event_id = 1, ir_duplicate = True\<rparr>)"
  by code_simp

lemma stored_keys: "map ev_key (webhook_event_t (tables stored_world)) = [(''acme'', ''e1'')]"
  by code_simp

theorem verify_signature_errors_witness:
  "\<not> (is_ascii (expected_signature demo_hmac ''secret'' 2 []) \<and> is_ascii [CHR 0xE9])"
proof -
  let ?h = "''t=2,v1='' @ [CHR 0xE9]" and ?e = "TypeError ''comparing strings with non-ASCII characters is not supported''"
  have run: "verify_signature demo_hmac ''secret'' [] (Some ?h) 2000000 300 = Inl ?e" by code_simp
  have p: "parse_header ?h = Inr (2, [[CHR 0xE9]])" by code_simp
  from verify_signature_errors [OF run] p show ?thesis by auto
qed

theorem signed_header_verifies_witness:
  "verify_signature demo_hmac ''secret'' [123, 125] (Some (signed_header demo_hmac ''secret'' 2 [123, 125])) 2000000 300 = Inr ()"
proof -
  have "is_hexdigest (expected_signature demo_hmac ''secret'' 2 [123, 125])" "check_timestamp 2 2000000 300 = Inr ()"
    by (simp add: is_hexdigest_def expected_signature_def demo_hmac_def, code_simp)
  then show ?thesis by (rule signed_header_verifies)
qed

theorem stored_only_if_authentic_witness:
  "secret_for_source demo_settings ''acme'' \<noteq> None"
proof -
  have "tables stored_world \<noteq> tables start_world"
    using stored_keys by (auto simp: start_world_def no_rows_def)
  from stored_only_if_authentic [OF demo_ingest_run this] show ?thesis by (auto simp: demo_request_def)
qed


lemma stored_inv: "db_inv (tables stored_world) (seqs stored_world)"
  using demo_ingest_run
proof (cases rule: ingest_cases)
  case (stored secret ev y now w1 w2)
  have "db_inv (tables w1) (seqs w1)" using start_inv by (simp add: stored(5))
  then have "db_inv (tables w2) (seqs w2)"
    using keepsD [OF inv.keeps_session_scope [OF frame_ingest_event ok_ingest_event] stored(6)] by blast
  then show ?thesis by (simp add: stored(7,8))
next
  case (early resp)
  then have "resp = accepted \<lparr>ir_event_id = 1, ir_duplicate = False\<rparr>" by simp
  with early(3) show ?thesis by (simp add: accepted_def)
qed simp

theorem redelivery_recognised_witness:
  "tables stored_twice = tables stored_world"
proof -
  have run: "ingest demo_hmac demo_codecs demo_settings demo_request stored_world
      = (Inr (accepted \<lparr>ir_event_id = 1, ir_duplicate = True\<rparr>), stored_twice)"
    unfolding stored_twice_def using demo_ingested_again by (metis prod.collapse)
  obtain ev where ev: "read_delivery demo_codecs demo_request = Inr ev" "delivery_key ev = (''acme'', ''e1'')"
  proof -
    have "(case read_delivery demo_codecs demo_request of Inl _ \<Rightarrow> False | Inr ev \<Rightarrow> delivery_key ev = (''acme'', ''e1''))"
      by code_simp
    then show thesis using that by (auto split: sum.splits)
  qed
  obtain row where row: "row \<in> set (webhook_event_t (tables stored_world))" "ev_key row = delivery_key ev"
    using stored_keys ev(2) by (cases "webhook_event_t (tables stored_world)") auto
  from redelivery_recognised [OF stored_inv run _ ev(1) row] show ?thesis by (simp add: accepted_def)
qed

theorem require_admin_guards_witness:
  "require_admin demo_settings None = HttpError 401 ''admin authentication failed''"
proof -
  have "is_ascii (admin_api_key demo_settings)" by code_simp
  with require_admin_guards [of demo_settings None] show ?thesis by auto
qed

theorem correlation_id_harmless_witness:
  "CHR 0x0A \<notin> set (correlation_id [(''x-request-id'', ''a'' @ [CHR 0x0A] @ ''b'')] (replicate 32 (CHR ''f'')))"
proof -
  have "replicate 32 (CHR ''f'') \<noteq> ([] :: py_str)" "length (replicate 32 (CHR ''f'')) \<le> 128" "isprintable (replicate 32 (CHR ''f''))"
    by (simp, simp, code_simp)
  from correlation_id_harmless [OF this] show ?thesis by blast
qed

end
