(* ===== verification/Scenario_System.thy ===== *)
theory Scenario_System
  imports Scenario_Http System
begin

text \<open>
  The demo deployment seen by an operator and as a run of the whole system: its listing, its admin routes with and without
  the key, a triaged failure, the retention job, the views, and the reachable databases before and after the
  credit is applied.
\<close>

definition every_event :: event_filter where
  "every_event = \<lparr>fl_status = None, fl_source = None, fl_event_type = None, fl_entity_type = None,
     fl_entity_id = None, fl_since = None, fl_until = None\<rparr>"

definition plain_time :: "datetime \<Rightarrow> py_str" where
  "plain_time _ = ''2026-01-01T00:00:00Z''"

definition small_batch :: settings where
  "small_batch = demo_settings\<lparr>replay_max_batch := 1\<rparr>"

definition two_ids :: replay_in where
  "two_ids = \<lparr>ri_event_ids = Some [1, 2], ri_dead_lettered = False, ri_since = None, ri_until = None, ri_reason = None\<rparr>"

lemma quiet_world [simp]: "env start_world = quiet" "env (start_world\<lparr>tables := t\<rparr>) = quiet"
  by (simp_all add: start_world_def)

lemma ingested_env: "env ingested = quiet"
  by (simp add: ingested_def)

lemma quiet_scan: "mset (scan_events quiet k rows) = mset rows"
  by (simp add: quiet_def)

lemma quiet_content_free: "content_free_scan quiet"
  by (simp add: content_free_scan_def quiet_def)

lemma quiet_faults: "driver_faults quiet"
  by (simp add: driver_faults_def quiet_def)

lemma isl_run: "\<not> isl (fst (p w)) \<Longrightarrow> p w = (Inr (projr (fst (p w))), snd (p w))"
  by (cases "p w"; cases "fst (p w)") simp_all

theorem list_events_page_witness:
  "length (projr (fst (list_events every_event 10 0 ingested))) = 1"
proof -
  have "\<not> isl (fst (list_events every_event 10 0 ingested))" by code_simp
  note run = isl_run [of "list_events every_event 10 0", OF this]
  have n: "length (filter (filtered every_event) (webhook_event_t (tables ingested))) = 1" by code_simp
  show ?thesis using list_events_page [OF ingested_inv run] n by (auto simp: ingested_env quiet_scan)
qed

theorem admin_locked_witness:
  "replay_route (\<lambda>_ _. 0) (\<lambda>_. 0) demo_settings None two_ids ingested = (Inr (Refused 401 ''admin authentication failed''), ingested)"
proof -
  have "is_ascii (admin_api_key demo_settings)" by code_simp
  with admin_locked [of None demo_settings] show ?thesis by simp
qed

theorem admin_reads_leak_nothing_witness:
  "fst (get_event_route plain_time demo_settings (Some ''key'') 1 (blank_world ingested))
     = fst (get_event_route plain_time demo_settings (Some ''key'') 1 ingested)"
  using admin_reads_leak_nothing [of ingested] by (simp add: ingested_env quiet_content_free)

text \<open>The credit after the failure nobody anticipated, triaged.\<close>

lemma buried_inv: "db_inv (tables buried) (seqs buried)"
  using keepsD [OF keeps_record_failure buried_run] ingested_inv by blast

lemma buried_env: "env buried = quiet"
  by (simp add: buried_def ingested_env)

definition demo_entry :: dead_letter_entry where
  "demo_entry = \<lparr>dl_id = 1, dl_event_id = 1, dl_reason = bug_reason, dl_attempts_made = 1, dl_dead_lettered_at = 1000000,
     dl_status = RESOLVED, dl_resolved_at = Some 2000000, dl_resolution_note = None\<rparr>"

definition triaged :: world where
  "triaged = buried\<lparr>tables := (tables buried)\<lparr>dead_letter_entry_t := [demo_entry]\<rparr>, stmts := 13, ticks := Suc (Suc 0)\<rparr>"

lemma demo_admin: "require_admin demo_settings (Some ''key'') = Returned ''api-key''"
  by code_simp

lemma triaged_run:
  "triage_route plain_time demo_settings (Some ''key'') 1 Resolve None buried
     = (Inr (Answer (dlq_out plain_time (to_record demo_entry (hd (webhook_event_t (tables buried)))))), triaged)"
  by (simp add: exec demo buried_def triaged_def demo_entry_def triage_route_def guarded_def demo_admin note_valid_def
      respond_def map_exc_def triage_body_def triage_target_def cong: exec_cong)

theorem triage_decides_witness:
  "map dl_status (dead_letter_entry_t (tables triaged)) = [RESOLVED]"
proof -
  have one: "map dl_id (dead_letter_entry_t (tables buried)) = [1]" by (simp add: buried_def)
  from triage_decides [OF buried_inv _ triaged_run] one show ?thesis
    by (auto simp: buried_env quiet_faults update_where_def triage_target_def)
qed

lemma small_admin: "require_admin small_batch (Some ''key'') = Returned ''api-key''"
  by code_simp

theorem replay_batch_bounded_witness:
  "tables (snd (replay_route (\<lambda>_ _. 0) (\<lambda>_. 0) small_batch (Some ''key'') two_ids ingested)) = tables ingested"
proof -
  let ?p = "replay_route (\<lambda>_ _. 0) (\<lambda>_. 0) small_batch (Some ''key'') two_ids"
  have m: "replay_max_batch small_batch = 1" by (simp add: small_batch_def)
  have ok: "\<not> isl (fst (?p ingested))"
    by (simp add: exec replay_route_def guarded_def demo_admin small_admin replay_valid_def exactly_one_selector_def two_ids_def
        note_valid_def respond_def map_exc_def select_events_def m as_not_found_def quiet_def start_world_def
        ingested_def cong: exec_cong)
  from replay_batch_bounded [OF isl_run [of ?p, OF ok]] m show ?thesis by (simp add: two_ids_def)
qed



theorem queue_health_sees_the_poll_witness:
  "qh_due_now (v_queue_health 2000000 (tables ingested)) \<noteq> 0"
proof -
  have "\<not> isl (fst (due_event_ids 2000000 10 ingested))" by code_simp
  note run = isl_run [of "due_event_ids 2000000 10", OF this]
  have "projr (fst (due_event_ids 2000000 10 ingested)) \<noteq> []" by code_simp
  with queue_health_sees_the_poll [OF run] show ?thesis by (simp add: ingested_env quiet_scan ingested_inv)
qed

section \<open>Reachable databases\<close>

lemma start_reachable: "reachable balance_registry demo_settings (db_of start_world)"
  by (simp add: start_world_def reachable.fresh)

lemma reachable_steps: "sys_steps reg st s s' \<Longrightarrow> reachable reg st s \<Longrightarrow> reachable reg st s'"
  by (induction rule: rtranclp_induct) (auto intro: reachable.go)

lemma ingested_steps: "sys_steps balance_registry demo_settings (db_of start_world) (db_of ingested)"
  using movesD [OF moves_body [of _ _ "Ingest (credit_of ''k1'' 5)"] ingested_run] by simp

lemma processed_steps: "sys_steps balance_registry demo_settings (db_of ingested) (db_of processed)"
  by (rule movesD [OF moves_process_event processed_run])

lemma ingested_reachable: "reachable balance_registry demo_settings (db_of ingested)"
  by (rule reachable_steps [OF ingested_steps start_reachable])

theorem reachable_consistent_witness:
  "db_inv (tables ingested) (seqs ingested)"
proof -
  have "1 \<le> max_attempts demo_settings" by code_simp
  from reachable_consistent [OF ingested_reachable this] show ?thesis by simp
qed

theorem ledger_append_only_witness:
  "prefix (ledger_entry_t (tables ingested)) (ledger_entry_t (tables processed))"
  using ledger_append_only [OF ingested_reachable processed_steps] by simp

lemma triaged_reachable: "reachable balance_registry demo_settings (db_of triaged)"
proof -
  have "sys_steps balance_registry demo_settings (db_of ingested) (db_of buried)"
    using movesD [OF moves_body [of _ _ "Fail 1 bug 2000000"] buried_run [unfolded record_failure_def]] by simp
  moreover have "sys_steps balance_registry demo_settings (db_of buried) (db_of triaged)"
    by (rule movesD [OF moves_triage_route triaged_run])
  ultimately show ?thesis by (meson reachable_steps ingested_reachable)
qed

text \<open>A replay of the triaged event.\<close>

definition retriaged :: world where
  "retriaged = snd (replay_event 1 ''ops'' None balance_registry demo_settings triaged)"

lemma retriaged_run: "\<exists>r. replay_event 1 ''ops'' None balance_registry demo_settings triaged = (Inr r, retriaged)"
  unfolding retriaged_def
  by (simp add: exec demo triaged_def buried_def demo_entry_def cong: exec_cong)

lemma retriaged_rows: "map dl_id (dead_letter_entry_t (tables retriaged)) = [1]"
  unfolding retriaged_def
  by (simp add: exec demo triaged_def buried_def demo_entry_def cong: exec_cong)

theorem verdict_stands_witness:
  "map dl_status (dead_letter_entry_t (tables retriaged)) = [RESOLVED]"
proof -
  obtain d' where d': "dead_letter_entry_t (tables retriaged) = [d']" "dl_id d' = 1"
    using retriaged_rows by auto
  have "sys_steps balance_registry demo_settings (db_of triaged) (db_of retriaged)"
    using retriaged_run movesD [OF moves_replay_event] by blast
  from verdict_stands [OF triaged_reachable this, of demo_entry d'] d' show ?thesis
    by (simp add: TERMINAL_def triaged_def demo_entry_def)
qed

end
