(* ===== verification/Meaning.thy ===== *)
theory Meaning
  imports System
begin

text \<open>
  What the tables mean, end to end: every ledger entry is the effect the handlers read out of the stored payload of its event, every
  event marked succeeded has its effect in the ledger or was overtaken by a newer snapshot, and a stored delivery stays, unchanged.
  Each is an invariant of the whole system with the handlers the program registers; retention is one of its steps.
\<close>

section \<open>Deliveries\<close>

text \<open>Processing writes five columns of an event; what the provider sent is in the others.\<close>

definition same_delivery :: "webhook_event \<Rightarrow> webhook_event \<Rightarrow> bool" where
  "same_delivery e e' \<longleftrightarrow> e' = e\<lparr>ev_status := ev_status e', ev_attempt_count := ev_attempt_count e',
     ev_next_attempt_at := ev_next_attempt_at e', ev_processed_at := ev_processed_at e', ev_last_error := ev_last_error e'\<rparr>"

definition effect_of :: "webhook_event \<Rightarrow> exc + effect" where
  "effect_of e = dispatch balance_registry (to_domain e)"

lemma same_delivery_refl [simp]: "same_delivery e e"
  by (simp add: same_delivery_def)

lemma same_delivery_fields:
  assumes "same_delivery e e'"
  shows "ev_id e' = ev_id e" "ev_source e' = ev_source e" "ev_idempotency_key e' = ev_idempotency_key e"
    "ev_event_type e' = ev_event_type e" "ev_entity_type e' = ev_entity_type e" "ev_entity_id e' = ev_entity_id e"
    "ev_payload e' = ev_payload e" "ev_headers e' = ev_headers e" "ev_occurred_at e' = ev_occurred_at e"
    "ev_provider_sequence e' = ev_provider_sequence e" "ev_received_at e' = ev_received_at e" "ev_external_id e' = ev_external_id e"
  by (subst assms [unfolded same_delivery_def], simp)+

lemma same_delivery_trans: "same_delivery a b \<Longrightarrow> same_delivery b c \<Longrightarrow> same_delivery a c"
  by (cases a; cases b; cases c) (simp add: same_delivery_def)

lemma handlers_ignore_count:
  "dispatch balance_registry (v\<lparr>se_attempt_count := n\<rparr>) = dispatch balance_registry v"
  by (simp add: dispatch_def balance_registry_def handler_defs account_ref_of_def Let_def split: option.splits)

lemma effect_of_same: "same_delivery e e' \<Longrightarrow> effect_of e' = effect_of e"
proof -
  assume s: "same_delivery e e'"
  have "to_domain e' = (to_domain e)\<lparr>se_attempt_count := ev_attempt_count e'\<rparr>"
    by (simp add: to_domain_def same_delivery_fields [OF s])
  then show ?thesis by (simp add: effect_of_def handlers_ignore_count)
qed

section \<open>What rows mean\<close>

definition posted_as :: "tables \<Rightarrow> ledger_entry \<Rightarrow> webhook_event \<Rightarrow> bool" where
  "posted_as t l e \<longleftrightarrow> (case effect_of e of Inl _ \<Rightarrow> False | Inr eff \<Rightarrow>
     (\<exists>a \<in> set (account_t t). ac_id a = le_account_id l \<and> ac_external_ref a = account_ref eff)
     \<and> (case eff of Credit _ amount \<Rightarrow> le_amount_minor l = amount | SetBalance _ _ _ \<Rightarrow> True))"

definition overtaken :: "tables \<Rightarrow> webhook_event \<Rightarrow> bool" where
  "overtaken t e \<longleftrightarrow> (case effect_of e of Inr (SetBalance ref _ sq) \<Rightarrow>
     (\<exists>a \<in> set (account_t t). ac_external_ref a = ref \<and> sq \<le> ac_version a) | _ \<Rightarrow> False)"

definition settled :: "tables \<Rightarrow> webhook_event \<Rightarrow> bool" where
  "settled t e \<longleftrightarrow> (\<exists>l \<in> set (ledger_entry_t t). le_event_id l = ev_id e) \<or> overtaken t e"

definition meant :: "tables \<Rightarrow> sequences \<Rightarrow> bool" where
  "meant t s \<longleftrightarrow> db_inv t s
     \<and> (\<forall>l \<in> set (ledger_entry_t t). \<exists>e \<in> set (webhook_event_t t). ev_id e = le_event_id l \<and> posted_as t l e)
     \<and> (\<forall>e \<in> set (webhook_event_t t). ev_status e = SUCCEEDED \<longrightarrow> settled t e)"

text \<open>A delivery once stored is stored, or overtaken.\<close>

definition remembered :: "webhook_event \<Rightarrow> tables \<Rightarrow> sequences \<Rightarrow> bool" where
  "remembered e t s \<longleftrightarrow> meant t s \<and> ((\<exists>e' \<in> set (webhook_event_t t). same_delivery e e') \<or> overtaken t e)"

section \<open>Steps\<close>

text \<open>What every step but a purge does: deliveries stay, accounts keep their identity and never fall back behind their mark, ledger
  entries stay.\<close>

definition advances :: "tables \<Rightarrow> tables \<Rightarrow> bool" where
  "advances t t' \<longleftrightarrow>
     (\<forall>e \<in> set (webhook_event_t t). \<exists>e' \<in> set (webhook_event_t t'). same_delivery e e')
   \<and> (\<forall>a \<in> set (account_t t). \<exists>a' \<in> set (account_t t'). ac_id a' = ac_id a \<and> ac_external_ref a' = ac_external_ref a \<and> ac_version a \<le> ac_version a')
   \<and> set (ledger_entry_t t) \<subseteq> set (ledger_entry_t t')"

lemma advances_trans:
  assumes tu: "advances t u" and uv: "advances u v"
  shows "advances t v"
  unfolding advances_def
proof (intro conjI ballI)
  fix e assume "e \<in> set (webhook_event_t t)"
  then obtain x where x: "x \<in> set (webhook_event_t u)" "same_delivery e x" using tu unfolding advances_def by blast
  then obtain y where "y \<in> set (webhook_event_t v)" "same_delivery x y" using uv unfolding advances_def by blast
  with same_delivery_trans [OF x(2)] show "\<exists>e' \<in> set (webhook_event_t v). same_delivery e e'" by blast
next
  fix a assume "a \<in> set (account_t t)"
  then obtain b where b: "b \<in> set (account_t u)" "ac_id b = ac_id a" "ac_external_ref b = ac_external_ref a" "ac_version a \<le> ac_version b"
    using tu unfolding advances_def by blast
  then obtain c where "c \<in> set (account_t v)" "ac_id c = ac_id b" "ac_external_ref c = ac_external_ref b" "ac_version b \<le> ac_version c"
    using uv unfolding advances_def by blast
  with b show "\<exists>a' \<in> set (account_t v). ac_id a' = ac_id a \<and> ac_external_ref a' = ac_external_ref a \<and> ac_version a \<le> ac_version a'"
    by (intro bexI [of _ c]) simp_all
next
  show "set (ledger_entry_t t) \<subseteq> set (ledger_entry_t v)" using tu uv unfolding advances_def by blast
qed

lemma advances_posted:
  assumes "advances t t'" "posted_as t l e" "e \<in> set (webhook_event_t t)"
  shows "\<exists>e' \<in> set (webhook_event_t t'). ev_id e' = ev_id e \<and> posted_as t' l e'"
proof -
  obtain e' where e': "e' \<in> set (webhook_event_t t')" "same_delivery e e'" using assms(1,3) by (auto simp: advances_def)
  have "posted_as t' l e'"
  proof (cases "effect_of e")
    case (Inr eff)
    with assms(2) obtain a where a: "a \<in> set (account_t t)" "ac_id a = le_account_id l" "ac_external_ref a = account_ref eff"
      and amount: "case eff of Credit _ amount \<Rightarrow> le_amount_minor l = amount | SetBalance _ _ _ \<Rightarrow> True"
      by (auto simp: posted_as_def)
    from assms(1) a(1) obtain a' where "a' \<in> set (account_t t')" "ac_id a' = ac_id a" "ac_external_ref a' = ac_external_ref a"
      unfolding advances_def by blast
    with a amount Inr show ?thesis unfolding posted_as_def effect_of_same [OF e'(2)] by auto
  qed (use assms(2) in \<open>simp add: posted_as_def\<close>)
  with e' same_delivery_fields(1) [OF e'(2)] show ?thesis by blast
qed

lemma advances_overtaken: "advances t t' \<Longrightarrow> overtaken t e \<Longrightarrow> overtaken t' e"
proof (cases "effect_of e")
  assume adv: "advances t t'" and o: "overtaken t e"
  case (Inr eff)
  show ?thesis
  proof (cases eff)
    case (SetBalance ref b sq)
    with o Inr obtain a where a: "a \<in> set (account_t t)" "ac_external_ref a = ref" "sq \<le> ac_version a" by (auto simp: overtaken_def)
    from adv a(1) obtain a' where "a' \<in> set (account_t t')" "ac_external_ref a' = ac_external_ref a" "ac_version a \<le> ac_version a'"
      unfolding advances_def by blast
    with a SetBalance Inr show ?thesis by (auto simp: overtaken_def intro!: bexI [of _ a'])
  qed (use o Inr in \<open>simp add: overtaken_def\<close>)
qed (simp add: overtaken_def)

lemma overtaken_same: "same_delivery e e' \<Longrightarrow> overtaken t e' = overtaken t e"
  by (simp add: overtaken_def effect_of_same)

lemma advances_settled: "advances t t' \<Longrightarrow> settled t e \<Longrightarrow> settled t' e"
  unfolding settled_def using advances_overtaken by (auto simp: advances_def)

text \<open>An invariant step: it advances, posts only what events mean, and marks only what is settled.\<close>

lemma meant_step:
  assumes m: "meant t s" and inv: "db_inv t' s'" and adv: "advances t t'"
    and new: "\<And>l. l \<in> set (ledger_entry_t t') \<Longrightarrow> l \<notin> set (ledger_entry_t t) \<Longrightarrow>
        \<exists>e \<in> set (webhook_event_t t'). ev_id e = le_event_id l \<and> posted_as t' l e"
    and marked: "\<And>e. e \<in> set (webhook_event_t t') \<Longrightarrow> ev_status e = SUCCEEDED \<Longrightarrow> e \<in> set (webhook_event_t t) \<or> settled t' e"
  shows "meant t' s'"
proof -
  have "\<exists>e \<in> set (webhook_event_t t'). ev_id e = le_event_id l \<and> posted_as t' l e" if "l \<in> set (ledger_entry_t t')" for l
  proof (cases "l \<in> set (ledger_entry_t t)")
    case True
    with m obtain e where "e \<in> set (webhook_event_t t)" "ev_id e = le_event_id l" "posted_as t l e" by (auto simp: meant_def)
    with advances_posted [OF adv, of l e] show ?thesis by auto
  qed (rule new [OF that])
  moreover have "settled t' e" if "e \<in> set (webhook_event_t t')" "ev_status e = SUCCEEDED" for e
    using marked [OF that] m that(2) advances_settled [OF adv] by (auto simp: meant_def)
  ultimately show ?thesis using inv by (simp add: meant_def)
qed

text \<open>The steps that only write events: they settle nothing and mark nothing.\<close>

definition leaves :: "tables \<Rightarrow> tables \<Rightarrow> bool" where
  "leaves t t' \<longleftrightarrow> account_t t' = account_t t \<and> ledger_entry_t t' = ledger_entry_t t
     \<and> (\<forall>e \<in> set (webhook_event_t t). \<exists>e' \<in> set (webhook_event_t t'). same_delivery e e')
     \<and> (\<forall>e \<in> set (webhook_event_t t'). ev_status e = SUCCEEDED \<longrightarrow> e \<in> set (webhook_event_t t))"

lemma leaves_advances: "leaves t t' \<Longrightarrow> advances t t'"
  by (auto simp: leaves_def advances_def)

lemma leaves_meant: "leaves t t' \<Longrightarrow> meant t s \<Longrightarrow> db_inv t' s' \<Longrightarrow> meant t' s'"
  by (erule meant_step) (auto simp: leaves_def intro: leaves_advances)

lemma leaves_same: "webhook_event_t t' = webhook_event_t t \<Longrightarrow> account_t t' = account_t t \<Longrightarrow> ledger_entry_t t' = ledger_entry_t t \<Longrightarrow> leaves t t'"
  by (auto simp: leaves_def intro: same_delivery_refl)

lemma leaves_update:
  assumes "\<And>e. same_delivery e (f e) \<and> ev_status (f e) \<noteq> SUCCEEDED" and "leaves t u"
  shows "leaves t (update_event i f u)"
proof -
  let ?g = "\<lambda>e. if ev_id e = i then f e else e"
  have rows: "set (webhook_event_t (update_event i f u)) = ?g ` set (webhook_event_t u)"
    by (simp add: update_event_def set_update_where)
  have sd: "same_delivery e (?g e)" for e using assms(1) by simp
  have "\<exists>e' \<in> set (webhook_event_t (update_event i f u)). same_delivery e e'" if "e \<in> set (webhook_event_t t)" for e
  proof -
    from that assms(2) obtain x where "x \<in> set (webhook_event_t u)" "same_delivery e x" by (auto simp: leaves_def)
    with same_delivery_trans [OF this(2) sd] show ?thesis unfolding rows by blast
  qed
  moreover have "e \<in> set (webhook_event_t t)"
    if e: "e \<in> set (webhook_event_t (update_event i f u))" "ev_status e = SUCCEEDED" for e
  proof -
    from e obtain x where x: "x \<in> set (webhook_event_t u)" "e = ?g x" unfolding rows by blast
    with e(2) assms(1) [of x] have "e = x" by (auto split: if_splits)
    with x(1) e(2) assms(2) show ?thesis by (simp add: leaves_def)
  qed
  ultimately show ?thesis using assms(2) by (simp add: leaves_def)
qed

lemma remembered_step:
  "remembered e t s \<Longrightarrow> advances t t' \<Longrightarrow> meant t' s' \<Longrightarrow> remembered e t' s'"
proof -
  assume r: "remembered e t s" and adv: "advances t t'" and m: "meant t' s'"
  show ?thesis
  proof (cases "overtaken t e")
    case True
    with advances_overtaken [OF adv] m show ?thesis by (simp add: remembered_def)
  next
    case False
    with r obtain x where x: "x \<in> set (webhook_event_t t)" "same_delivery e x" by (auto simp: remembered_def)
    from adv x(1) obtain y where "y \<in> set (webhook_event_t t')" "same_delivery x y" unfolding advances_def by blast
    with same_delivery_trans [OF x(2)] m show ?thesis unfolding remembered_def by blast
  qed
qed

lemma remembered_meant: "remembered e t s \<Longrightarrow> meant t s"
  by (simp add: remembered_def)

section \<open>An effect\<close>

lemma upsert_advances: "advances (tables w) (upsert_account ref w)"
proof -
  have "set (account_t (tables w)) \<subseteq> set (account_t (upsert_account ref w))" by (auto simp: upsert_account_def with_account_eq)
  moreover have "webhook_event_t (upsert_account ref w) = webhook_event_t (tables w)" by (simp add: upsert_account_def)
  ultimately show ?thesis unfolding advances_def using same_delivery_refl by fastforce
qed

lemma post_entry_step:
  assumes a: "a \<in> set (account_t t)"
    and move: "\<And>b. ac_id (move b) = ac_id b" "\<And>b. ac_external_ref (move b) = ac_external_ref b"
      "\<And>b. b \<in> set (account_t t) \<Longrightarrow> ac_id b = ac_id a \<Longrightarrow> ac_version b \<le> ac_version (move b)"
  shows "advances t (post_entry now (ac_id a) eid amount move n t)"
    and "move a \<in> set (account_t (post_entry now (ac_id a) eid amount move n t))"
    and "set (ledger_entry_t (post_entry now (ac_id a) eid amount move n t))
      = insert (new_ledger_entry now (ac_id a, eid, amount) n) (set (ledger_entry_t t))"
proof -
  let ?t' = "post_entry now (ac_id a) eid amount move n t" and ?g = "\<lambda>b. if ac_id b = ac_id a then move b else b"
  have rows: "set (account_t ?t') = ?g ` set (account_t t)" by (simp add: post_entry_def set_update_where)
  have "\<exists>b' \<in> set (account_t ?t'). ac_id b' = ac_id b \<and> ac_external_ref b' = ac_external_ref b \<and> ac_version b \<le> ac_version b'"
    if b: "b \<in> set (account_t t)" for b
    using move(1,2) move(3) [OF b] b unfolding rows by (intro bexI [of _ "?g b"]) auto
  moreover have "webhook_event_t ?t' = webhook_event_t t" by (simp add: post_entry_def)
  moreover show led: "set (ledger_entry_t ?t') = insert (new_ledger_entry now (ac_id a, eid, amount) n) (set (ledger_entry_t t))"
    by (simp add: post_entry_def)
  ultimately show "advances t ?t'" unfolding advances_def by (simp add: led) (blast intro: same_delivery_refl)
  show "move a \<in> set (account_t ?t')" using a unfolding rows by (auto intro: image_eqI [of _ _ a])
qed

text \<open>What an applied effect leaves behind: an entry for the event on the account the effect names, or a newer mark on it.\<close>

definition effect_left :: "tables \<Rightarrow> tables \<Rightarrow> int \<Rightarrow> effect \<Rightarrow> bool" where
  "effect_left t t' i eff \<longleftrightarrow>
     (\<forall>l \<in> set (ledger_entry_t t'). l \<in> set (ledger_entry_t t) \<or> le_event_id l = i
        \<and> (\<exists>a \<in> set (account_t t'). ac_id a = le_account_id l \<and> ac_external_ref a = account_ref eff)
        \<and> (case eff of Credit _ amount \<Rightarrow> le_amount_minor l = amount | SetBalance _ _ _ \<Rightarrow> True))
   \<and> ((\<exists>l \<in> set (ledger_entry_t t'). le_event_id l = i)
      \<or> (case eff of Credit _ _ \<Rightarrow> False
          | SetBalance ref _ sq \<Rightarrow> \<exists>a \<in> set (account_t t'). ac_external_ref a = ref \<and> sq \<le> ac_version a))"

lemma credit_leaves:
  assumes inv: "db_inv (tables w) (seqs w)" and run: "apply_credit ev ref amount w = (Inr res, w')"
  shows "advances (tables w) (tables w') \<and> effect_left (tables w) (tables w') (se_id ev) (Credit ref amount)"
  using run
proof (cases rule: apply_credit_ok)
  case already
  then show ?thesis using upsert_advances [of w ref] by (auto simp: effect_left_def)
next
  case (applied a)
  let ?move = "\<lambda>a. a\<lparr>ac_balance_minor := ac_balance_minor a + amount,
      ac_version := max (ac_version a) (seq_or_zero (se_provider_sequence ev)), ac_updated_at := tx_now w\<rparr>"
  have a: "a \<in> set (account_t (upsert_account ref w))" "ac_external_ref a = ref" using find_row_Some [OF applied(2)] by auto
  note p = post_entry_step [OF a(1), of ?move "tx_now w" "se_id ev" amount "sq_ledger (seqs w)", folded applied(5), simplified]
  from p(3) have "effect_left (tables w) (tables w') (se_id ev) (Credit ref amount)"
    using a(2) by (auto simp: effect_left_def new_ledger_entry_def intro!: bexI [OF _ p(2)])
  with advances_trans [OF upsert_advances p(1)] show ?thesis by simp
qed

lemma snapshot_leaves:
  assumes inv: "db_inv (tables w) (seqs w)" and run: "apply_set_balance ev ref balance sq w = (Inr res, w')"
  shows "advances (tables w) (tables w') \<and> effect_left (tables w) (tables w') (se_id ev) (SetBalance ref balance sq)"
proof -
  have k: "keys_ok (tables w) (seqs w)" "seqs_ok (seqs w)" using inv by (simp_all add: db_inv_def)
  from run k show ?thesis
  proof (cases rule: apply_set_balance_ok)
    case (superseded a)
    have "a \<in> set (account_t (upsert_account ref w))" "ac_external_ref a = ref" using find_row_Some [OF superseded(3)] by auto
    then show ?thesis using superseded(2,4) upsert_advances [of w ref] by (auto simp: effect_left_def)
  next
    case (already a)
    then show ?thesis using upsert_advances [of w ref] by (auto simp: effect_left_def)
  next
    case (applied a)
    let ?move = "\<lambda>a. a\<lparr>ac_balance_minor := balance, ac_version := sq, ac_updated_at := tx_now w\<rparr>"
    have a: "a \<in> set (account_t (upsert_account ref w))" "ac_external_ref a = ref" using find_row_Some [OF applied(2)] by auto
    have up: "ac_version b \<le> sq" if "b \<in> set (account_t (upsert_account ref w))" "ac_id b = ac_id a" for b
      using account_in_upsert(2) [OF inv applied(2) that] applied(3) by simp
    note p = post_entry_step [OF a(1), of ?move "tx_now w" "se_id ev" "balance - ac_balance_minor a" "sq_ledger (seqs w)",
        folded applied(7), simplified, OF up]
    from p(3) have "effect_left (tables w) (tables w') (se_id ev) (SetBalance ref balance sq)"
      using a(2) by (auto simp: effect_left_def new_ledger_entry_def intro!: bexI [OF _ p(2)])
    with advances_trans [OF upsert_advances p(1)] show ?thesis by simp
  qed
qed

lemma effect_leaves:
  "db_inv (tables w) (seqs w) \<Longrightarrow> apply_effect ev eff w = (Inr res, w') \<Longrightarrow>
     advances (tables w) (tables w') \<and> effect_left (tables w) (tables w') (se_id ev) eff"
  by (cases eff) (simp_all add: apply_effect_def credit_leaves snapshot_leaves)

section \<open>The programs\<close>

definition proper :: "'a prog \<Rightarrow> bool" where
  "proper p \<longleftrightarrow> (\<forall>w r w'. meant (tables w) (seqs w) \<longrightarrow> p w = (Inr r, w') \<longrightarrow>
     advances (tables w) (tables w') \<and> meant (tables w') (seqs w'))"

lemma proper_keeps: "proper p \<Longrightarrow> ok_keeps meant p" "proper p \<Longrightarrow> ok_keeps (remembered e) p"
  unfolding proper_def ok_keeps_def by (blast intro: remembered_step dest: remembered_meant)+

lemma proper_leaves:
  assumes "ok_keeps db_inv p" "\<And>w r w'. p w = (Inr r, w') \<Longrightarrow> leaves (tables w) (tables w')"
  shows "proper p"
  unfolding proper_def
proof (intro allI impI)
  fix w r w' assume m: "meant (tables w) (seqs w)" and run: "p w = (Inr r, w')"
  have "db_inv (tables w') (seqs w')" using assms(1) m run unfolding ok_keeps_def meant_def by blast
  with leaves_meant [OF assms(2) [OF run] m] leaves_advances [OF assms(2) [OF run]]
  show "advances (tables w) (tables w') \<and> meant (tables w') (seqs w')" by blast
qed

lemma proper_ingest: "proper (ingest_event ev)"
proof (rule proper_leaves [OF ok_ingest_event])
  fix w r w' assume "ingest_event ev w = (Inr r, w')"
  then show "leaves (tables w) (tables w')"
    by (cases rule: ingest_event_ok)
      (auto simp: leaves_def new_webhook_event_def intro: same_delivery_refl)
qed

lemma proper_record_attempt: "proper (record_attempt i n s f out c d)"
  by (rule proper_leaves [OF ok_record_attempt]) (auto dest!: record_attempt_ok(1) intro: leaves_same)

lemma proper_request: "proper (record_replay_request i who reason out2 now att)"
  by (rule proper_leaves [OF ok_record_replay_request]) (auto dest!: record_replay_request_ok(1) intro: leaves_same)

lemma proper_entry: "proper (update_entry i target now nt)"
  by (rule proper_leaves [OF ok_update_entry]) (auto dest!: update_entry_ok(1) intro: leaves_same)

lemma proper_update:
  assumes "ok_keeps db_inv p" "\<And>e. same_delivery e (f e) \<and> ev_status (f e) \<noteq> SUCCEEDED"
    and "\<And>w r w'. p w = (Inr r, w') \<Longrightarrow> \<exists>u. leaves (tables w) u \<and> tables w' = update_event i f u"
  shows "proper p"
proof (rule proper_leaves [OF assms(1)])
  fix w r w' assume "p w = (Inr r, w')"
  with assms(3) obtain u where "leaves (tables w) u" "tables w' = update_event i f u" by blast
  with leaves_update [OF assms(2)] show "leaves (tables w) (tables w')" by simp
qed

lemma proper_reschedule: "proper (reschedule i n now err)"
  by (rule proper_update [OF ok_reschedule, of "rescheduled n now err" i])
    (auto dest!: reschedule_ok intro: leaves_same simp: rescheduled_def same_delivery_def)

lemma proper_requeue: "proper (requeue i now)"
  by (rule proper_update [OF ok_requeue, of "requeued now" i])
    (auto dest!: requeue_ok intro: leaves_same simp: requeued_def same_delivery_def)

lemma proper_dead_letter: "proper (dead_letter i n why)"
proof (rule proper_update [OF ok_dead_letter, of "dead_lettered n why" i])
  fix w r w' assume "dead_letter i n why w = (Inr r, w')"
  from dead_letter_ok(1) [OF this] show "\<exists>u. leaves (tables w) u \<and> tables w' = update_event i (dead_lettered n why) u"
    by (intro exI [of _ "with_dead_letter (tx_now w) i why n (sq_dlq (seqs w)) (tables w)"] conjI leaves_same) simp_all
qed (simp add: dead_lettered_def same_delivery_def)

lemma proper_process: "proper (process_body i balance_registry st s)"
  unfolding proper_def
proof (intro allI impI)
  fix w r w' assume m: "meant (tables w) (seqs w)" and run: "process_body i balance_registry st s w = (Inr r, w')"
  have inv: "db_inv (tables w) (seqs w)" using m by (simp add: meant_def)
  have inv': "db_inv (tables w') (seqs w')" using ok_process_body inv run unfolding ok_keeps_def by blast
  from inv run show "advances (tables w) (tables w') \<and> meant (tables w') (seqs w')"
  proof (cases rule: process_body_ok)
    case skipped
    then have "leaves (tables w) (tables w')" by (intro leaves_same) simp_all
    from leaves_meant [OF this m inv'] leaves_advances [OF this] show ?thesis by simp
  next
    case (passed row eff res w1 w2 n f)
    let ?t = "tables w" and ?t' = "tables w'" and ?row = "succeeded_event (ev_attempt_count row + 1) f row"
    have e: "effect_of row = Inr eff" using passed(4) by (simp add: effect_of_def)
    have inv1: "db_inv (tables w1) (seqs w1)" using inv passed(5,6) by simp
    from effect_leaves [OF inv1 passed(8)] have adv: "advances ?t (tables w2)" and left: "effect_left ?t (tables w2) i eff"
      using passed(2,5) by (simp_all add: to_domain_def)
    have ev: "webhook_event_t (tables w2) = webhook_event_t ?t" using apply_effect_other(1) [OF inv1 passed(8)] passed(5) by simp
    have same: "account_t ?t' = account_t (tables w2)" "ledger_entry_t ?t' = ledger_entry_t (tables w2)"
      by (simp_all add: passed(11) update_event_def)
    have rows: "set (webhook_event_t ?t') = (\<lambda>e. if ev_id e = i then succeeded_event (ev_attempt_count row + 1) f e else e) ` set (webhook_event_t ?t)"
      by (simp add: passed(11) update_event_def set_update_where ev)
    have sd: "same_delivery e (succeeded_event k f e)" for k e by (simp add: succeeded_event_def same_delivery_def)
    have adv': "advances ?t ?t'"
    proof -
      have "\<exists>e' \<in> set (webhook_event_t ?t'). same_delivery x e'" if "x \<in> set (webhook_event_t ?t)" for x
        using that sd unfolding rows
        by (intro bexI [of _ "if ev_id x = i then succeeded_event (ev_attempt_count row + 1) f x else x"]) auto
      with adv show ?thesis unfolding advances_def same by simp
    qed
    have row': "?row \<in> set (webhook_event_t ?t')" using passed(1,2) unfolding rows by force
    have eff': "effect_of ?row = Inr eff" "ev_id ?row = i" using effect_of_same [OF sd] e passed(2) by (simp_all add: succeeded_event_def)
    have "meant ?t' (seqs w')"
    proof (rule meant_step [OF m inv' adv'])
      fix l assume "l \<in> set (ledger_entry_t ?t')" "l \<notin> set (ledger_entry_t ?t)"
      with left have "le_event_id l = i \<and> posted_as ?t' l ?row"
        by (auto simp: effect_left_def same posted_as_def eff')
      with row' eff'(2) show "\<exists>e \<in> set (webhook_event_t ?t'). ev_id e = le_event_id l \<and> posted_as ?t' l e" by auto
    next
      fix x assume x: "x \<in> set (webhook_event_t ?t')" "ev_status x = SUCCEEDED"
      show "x \<in> set (webhook_event_t ?t) \<or> settled ?t' x"
      proof (cases "ev_id x = i")
        case True
        with x(1) obtain r0 where "r0 \<in> set (webhook_event_t ?t)" "ev_id r0 = i" "x = succeeded_event (ev_attempt_count row + 1) f r0"
          unfolding rows by (auto split: if_splits simp: succeeded_event_def)
        moreover from this(1,2) have "r0 = row"
          using inv passed(1,2) event_unique unfolding db_inv_def by blast
        ultimately have "x = ?row" by simp
        with left show ?thesis by (auto simp: effect_left_def settled_def overtaken_def same eff' split: effect.splits)
      next
        case False
        with x(1) show ?thesis unfolding rows by (auto simp: succeeded_event_def split: if_splits)
      qed
    qed
    with adv' show ?thesis by simp
  qed
qed

section \<open>Retention\<close>

lemma purge_meant:
  assumes m: "meant (tables w) (seqs w)" and run: "purge_tx age w = (Inr u, w')"
  shows "meant (tables w') (seqs w')"
    and "remembered e (tables w) (seqs w) \<Longrightarrow> remembered e (tables w') (seqs w')"
proof -
  let ?t = "tables w" and ?t' = "tables w'"
  have inv: "db_inv ?t (seqs w)" using m by (simp add: meant_def)
  obtain na ne where p: "sp_purge_history None (tx_now w) age ?t = Inr (?t', na, ne)" "seqs w' = seqs w"
    using purge_tx_ok [OF run] by blast
  from purge_run [OF inv, of None "tx_now w" age] p(1)
  have t': "db_inv ?t' (seqs w)" "account_t ?t' = account_t ?t" "ledger_entry_t ?t' = ledger_entry_t ?t"
    "webhook_event_t ?t' = filter (\<lambda>e. \<not> (ended_well (tx_now w - age) e \<and> ev_id e \<notin> le_event_id ` set (ledger_entry_t ?t))) (webhook_event_t ?t)"
    by auto
  have same: "posted_as ?t' l x = posted_as ?t l x" "overtaken ?t' x = overtaken ?t x" "settled ?t' x = settled ?t x" for l x
    unfolding posted_as_def overtaken_def settled_def t'(2,3) by simp_all
  show m': "meant ?t' (seqs w')"
    using m t'(1) p(2) unfolding meant_def same t'(3,4) by (fastforce simp: image_iff)
  assume r: "remembered e ?t (seqs w)"
  show "remembered e ?t' (seqs w')"
  proof (cases "overtaken ?t e")
    case True
    with m' show ?thesis by (simp add: remembered_def same)
  next
    case False
    with r obtain x where x: "x \<in> set (webhook_event_t ?t)" "same_delivery e x" by (auto simp: remembered_def)
    have "x \<in> set (webhook_event_t ?t')"
    proof (rule ccontr)
      assume "x \<notin> set (webhook_event_t ?t')"
      with x(1) have "ev_status x = SUCCEEDED" "ev_id x \<notin> le_event_id ` set (ledger_entry_t ?t)"
        unfolding t'(4) by (auto simp: ended_well_def)
      moreover from this(1) m x(1) have "settled ?t x" by (simp add: meant_def)
      ultimately have "overtaken ?t x" by (auto simp: settled_def image_iff)
      with False overtaken_same [OF x(2)] show False by simp
    qed
    with x(2) m' show ?thesis by (auto simp: remembered_def)
  qed
qed

lemma ok_purge: "ok_keeps meant (purge_tx age)" "ok_keeps (remembered e) (purge_tx age)"
  unfolding ok_keeps_def by (blast intro: purge_meant dest: remembered_meant)+

lemma meant_mono: "meant t s \<Longrightarrow> seqs_le s s' \<Longrightarrow> meant t s'"
  by (auto simp: meant_def intro: db_inv_seqs_mono)

lemmas proper_programs = proper_ingest proper_process proper_record_attempt proper_reschedule proper_dead_letter proper_requeue
  proper_entry proper_request

interpretation meaning: closed_invariant meant balance_registry st for st
  by unfold_locales (auto intro: meant_mono proper_keeps(1) proper_programs ok_purge)

interpretation memory: closed_invariant "remembered e" balance_registry st for e st
proof unfold_locales
  show "remembered e t s \<Longrightarrow> seqs_le s s' \<Longrightarrow> remembered e t s'" for e t s s'
    by (auto simp: remembered_def intro: meant_mono)
qed (auto intro: proper_keeps(2) proper_programs ok_purge(2))

lemma meant_fresh: "meant no_rows fresh_sequences"
  by (simp add: meant_def db_inv_no_rows) (simp add: no_rows_def)

section \<open>Properties\<close>



end
