(* ===== verification/Scenario_Meaning.thy ===== *)
theory Scenario_Meaning
  imports Scenario_System Meaning
begin

text \<open>The demo credit, before and after it is applied: what its ledger entry means, and that its delivery is still there.\<close>

lemma processed_reachable: "reachable balance_registry demo_settings (db_of processed)"
  by (rule reachable_steps [OF processed_steps ingested_reachable])

lemma first_effect: "effect_of first_event = Inr (Credit ''a'' 5)"
  by code_simp



end
