(* ===== verification/Support.thy ===== *)
theory Support
  imports Query Process
begin

text \<open>
  Small pieces beside the services: the stopped clock of the tests (\<open>FixedClock\<close>), the choice of the connection string for a
  migration run (\<open>migrations/env.py\<close>), and the plain form of it the load grader needs.
\<close>

section \<open>The fixed clock\<close>

definition fixed_clock :: "py_datetime \<Rightarrow> exc + datetime" where
  "fixed_clock instant =
     (case instant of
        Naive _ \<Rightarrow> Inl (ValueError ''FixedClock requires a timezone-aware datetime'')
      | Aware t \<Rightarrow> Inr t)"

definition advance :: "datetime \<Rightarrow> rat \<Rightarrow> exc + datetime" where
  "advance instant seconds = add_seconds instant seconds"

text \<open>The longer it advances, the later it is.\<close>

lemma advance_mono: "advance t a = Inr u \<Longrightarrow> advance t b = Inr v \<Longrightarrow> timedelta_seconds a \<le> timedelta_seconds b \<Longrightarrow> u \<le> v"
  by (auto simp: advance_def add_seconds_def Let_def split: if_splits)

section \<open>Connection strings\<close>

text \<open>\<open>_database_url\<close>: an attribute set by the program if it is a string, an override on the command line, or the settings,
  which are only read in the last case.\<close>

definition migration_url :: "json option \<Rightarrow> (py_str \<times> py_str) list \<Rightarrow> exc + settings \<Rightarrow> exc + py_str" where
  "migration_url programmatic overrides env_settings =
     (case programmatic of
        Some (JStr url) \<Rightarrow> Inr url
      | _ \<Rightarrow> (case map_of overrides ''url'' of
          Some url \<Rightarrow> Inr url
        | None \<Rightarrow> bind_exc env_settings (\<lambda>s. Inr (database_url s))))"

text \<open>\<open>str.replace\<close>.\<close>

function py_replace :: "py_str \<Rightarrow> py_str \<Rightarrow> py_str \<Rightarrow> py_str" where
  "py_replace old new [] = []"
| "py_replace old new (c # cs) =
     (if old \<noteq> [] \<and> take (length old) (c # cs) = old then new @ py_replace old new (drop (length old) (c # cs))
      else c # py_replace old new cs)"
  by pat_completeness auto
termination by (relation "measure (\<lambda>(_, _, s). length s)") auto

definition plain_dsn :: "settings \<Rightarrow> py_str" where
  "plain_dsn s = py_replace ''postgresql+asyncpg://'' ''postgresql://'' (database_url s)"

lemma plain_dsn_head: "py_replace (old :: py_str) new (old @ rest) = new @ py_replace old new rest" if "old \<noteq> []"
  using that by (cases old) simp_all

text \<open>The settings hold a URL of the async driver; the grader's is the same one without it.\<close>

lemma plain_dsn_driverless:
  "database_url s = ASYNC_DRIVER @ ''://'' @ rest \<Longrightarrow> plain_dsn s = ''postgresql://'' @ py_replace ''postgresql+asyncpg://'' ''postgresql://'' rest"
  using plain_dsn_head [of "''postgresql+asyncpg://''" "''postgresql://''" rest] by (simp add: plain_dsn_def ASYNC_DRIVER_def)

end
