(* ===== verification/Catalog.thy ===== *)
theory Catalog
  imports Schema PyStr
begin

text \<open>
  The database catalog and the operations migrations perform on it: the vocabulary of
  \<open>alembic.op\<close> as the three versions use it, executed the way PostgreSQL does it -- name clashes, missing objects and objects
  others still depend on are errors with their SQLSTATE, and changing a column's type
  converts the rows. A run of operations is one transaction (\<open>migrations/env.py\<close>).
\<close>

section \<open>The catalog\<close>

datatype sql_type = BigInteger | Integer | Text | Varchar | Boolean | Timestamptz | Jsonb | Enum_type py_str

datatype server_default = sa_text py_str | func_now | plain py_str

datatype on_delete = CASCADE | RESTRICT | SET_NULL

record column =
  cl_name :: py_str
  cl_type :: sql_type
  cl_nullable :: bool
  cl_identity :: bool
  cl_default :: "server_default option"

datatype constraint =
    Primary_Key py_str "py_str list"
  | Unique py_str "py_str list"
  | Check py_str py_str int
  | Foreign_Key py_str py_str "py_str \<times> py_str" on_delete

record table_def =
  td_name :: py_str
  td_columns :: "column list"
  td_constraints :: "constraint list"

record index_def =
  ix_name :: py_str
  ix_table :: py_str
  ix_columns :: "py_str list"

datatype db_object =
    Trigger_Function py_str
  | Trigger py_str py_str py_str
  | View py_str "(py_str \<times> py_str list) list"
  | Sql_Function py_str "py_str list"
  | Procedure py_str

record catalog =
  ct_enums :: "(py_str \<times> py_str list) list"
  ct_tables :: "table_def list"
  ct_indexes :: "index_def list"
  ct_objects :: "db_object list"

definition empty_catalog :: catalog where
  "empty_catalog = \<lparr>ct_enums = [], ct_tables = [], ct_indexes = [], ct_objects = []\<rparr>"

definition col :: "py_str \<Rightarrow> sql_type \<Rightarrow> bool \<Rightarrow> column" where
  "col n ty nullable = \<lparr>cl_name = n, cl_type = ty, cl_nullable = nullable, cl_identity = False, cl_default = None\<rparr>"

definition with_default :: "column \<Rightarrow> server_default \<Rightarrow> column" where
  "with_default c d = c\<lparr>cl_default := Some d\<rparr>"

definition id_column :: column where
  "id_column = (col ''id'' BigInteger False)\<lparr>cl_identity := True\<rparr>"

section \<open>Names and dependencies\<close>

definition table_of :: "catalog \<Rightarrow> py_str \<Rightarrow> table_def option" where
  "table_of c n = find_row (\<lambda>t. td_name t = n) (ct_tables c)"

definition column_names :: "table_def \<Rightarrow> py_str list" where
  "column_names t = map cl_name (td_columns t)"

text \<open>Primary keys and unique constraints own an index of their name.\<close>

fun index_name :: "constraint \<Rightarrow> py_str list" where
  "index_name (Primary_Key n _) = [n]"
| "index_name (Unique n _) = [n]"
| "index_name _ = []"

fun constraint_name :: "constraint \<Rightarrow> py_str" where
  "constraint_name (Primary_Key n _) = n"
| "constraint_name (Unique n _) = n"
| "constraint_name (Check n _ _) = n"
| "constraint_name (Foreign_Key n _ _ _) = n"

fun view_name :: "db_object \<Rightarrow> py_str list" where
  "view_name (View n _) = [n]"
| "view_name _ = []"

fun routine :: "db_object \<Rightarrow> py_str list" where
  "routine (Trigger_Function sig) = [sig]"
| "routine (Sql_Function sig _) = [sig]"
| "routine (Procedure sig) = [sig]"
| "routine _ = []"

definition table_names :: "catalog \<Rightarrow> py_str list" where
  "table_names c = map td_name (ct_tables c)"

definition view_names :: "catalog \<Rightarrow> py_str list" where
  "view_names c = concat (map view_name (ct_objects c))"

definition own_indexes :: "table_def \<Rightarrow> py_str list" where
  "own_indexes t = concat (map index_name (td_constraints t))"

definition relation_names :: "catalog \<Rightarrow> py_str list" where
  "relation_names c = table_names c @ concat (map own_indexes (ct_tables c)) @ map ix_name (ct_indexes c) @ view_names c"

definition type_names :: "catalog \<Rightarrow> py_str list" where
  "type_names c = map fst (ct_enums c) @ table_names c @ view_names c"

fun uses_enum :: "py_str \<Rightarrow> sql_type \<Rightarrow> bool" where
  "uses_enum n (Enum_type m) = (n = m)"
| "uses_enum n _ = False"

fun refers_to :: "py_str \<Rightarrow> constraint \<Rightarrow> bool" where
  "refers_to n (Foreign_Key _ _ (t, _) _) = (t = n)"
| "refers_to n _ = False"

fun views_column :: "py_str \<Rightarrow> py_str \<Rightarrow> db_object \<Rightarrow> bool" where
  "views_column t c (View _ uses) = list_ex (\<lambda>(t', cs). t' = t \<and> c \<in> set cs) uses"
| "views_column t c _ = False"

fun views_table :: "py_str \<Rightarrow> db_object \<Rightarrow> bool" where
  "views_table t (View _ uses) = list_ex (\<lambda>(t', cs). t' = t) uses"
| "views_table t _ = False"

fun trigger_on :: "py_str \<Rightarrow> db_object \<Rightarrow> bool" where
  "trigger_on t (Trigger _ t' _) = (t' = t)"
| "trigger_on t _ = False"

fun trigger_uses :: "py_str \<Rightarrow> db_object \<Rightarrow> bool" where
  "trigger_uses f (Trigger _ _ g) = (g = f)"
| "trigger_uses f _ = False"

text \<open>A column a foreign key points at must be unique in its table.\<close>

definition unique_column :: "table_def \<Rightarrow> py_str \<Rightarrow> bool" where
  "unique_column t c = list_ex (\<lambda>k. case k of Primary_Key _ cs \<Rightarrow> cs = [c] | Unique _ cs \<Rightarrow> cs = [c] | _ \<Rightarrow> False) (td_constraints t)"

fun constraint_fits :: "catalog \<Rightarrow> table_def \<Rightarrow> constraint \<Rightarrow> bool" where
  "constraint_fits c t (Primary_Key _ cs) = (set cs \<subseteq> set (column_names t))"
| "constraint_fits c t (Unique _ cs) = (set cs \<subseteq> set (column_names t))"
| "constraint_fits c t (Check _ n _) = (n \<in> set (column_names t))"
| "constraint_fits c t (Foreign_Key _ n (r, k) _) = (n \<in> set (column_names t)
     \<and> (case (if r = td_name t then Some t else table_of c r) of None \<Rightarrow> False | Some u \<Rightarrow> unique_column u k))"

section \<open>Operations\<close>

datatype ddl =
    Create_Enum py_str "py_str list"
  | Drop_Enum py_str
  | Create_Table table_def
  | Drop_Table py_str
  | Create_Index index_def
  | Alter_Type py_str py_str sql_type
  | Create_Object db_object
  | Drop_View_If_Exists py_str
  | Drop_Trigger_If_Exists py_str py_str
  | Drop_Routine_If_Exists py_str

definition fresh_index :: "catalog \<Rightarrow> index_def \<Rightarrow> bool" where
  "fresh_index c i = (ix_name i \<notin> set (relation_names c))"

fun object_error :: "catalog \<Rightarrow> db_object \<Rightarrow> py_str option" where
  "object_error c (Trigger_Function sig) = (if sig \<in> set (concat (map routine (ct_objects c))) then Some ''42723'' else None)"
| "object_error c (Procedure sig) = (if sig \<in> set (concat (map routine (ct_objects c))) then Some ''42723'' else None)"
| "object_error c (Sql_Function sig rels) =
     (if sig \<in> set (concat (map routine (ct_objects c))) then Some ''42723''
      else if set rels \<subseteq> set (table_names c @ view_names c) then None else Some ''42P01'')"
| "object_error c (Trigger n t f) =
     (if t \<notin> set (table_names c) then Some ''42P01''
      else if Trigger_Function f \<notin> set (ct_objects c) then Some ''42883''
      else if list_ex (\<lambda>ob. case ob of Trigger n' t' _ \<Rightarrow> n' = n \<and> t' = t | _ \<Rightarrow> False) (ct_objects c) then Some ''42710''
      else None)"
| "object_error c (View n uses) =
     (if n \<in> set (relation_names c) then Some ''42P07''
      else if n \<in> set (type_names c) then Some ''42710''
      else if list_all (\<lambda>(t, cs). t \<in> set (table_names c)) uses
      then (if list_all (\<lambda>(t, cs). case table_of c t of None \<Rightarrow> False | Some td \<Rightarrow> set cs \<subseteq> set (column_names td)) uses
            then None else Some ''42703'')
      else Some ''42P01'')"

definition retype :: "py_str \<Rightarrow> py_str \<Rightarrow> sql_type \<Rightarrow> table_def \<Rightarrow> table_def" where
  "retype t n ty td = (if td_name td = t
     then td\<lparr>td_columns := map (\<lambda>c. if cl_name c = n then c\<lparr>cl_type := ty\<rparr> else c) (td_columns td)\<rparr> else td)"

fun alter_catalog :: "ddl \<Rightarrow> catalog \<Rightarrow> py_str + catalog" where
  "alter_catalog (Create_Enum n vs) c =
     (if n \<in> set (type_names c) then Inl ''42710'' else Inr (c\<lparr>ct_enums := ct_enums c @ [(n, vs)]\<rparr>))"
| "alter_catalog (Drop_Enum n) c =
     (if n \<notin> set (map fst (ct_enums c)) then Inl ''42704''
      else if list_ex (\<lambda>t. list_ex (\<lambda>k. uses_enum n (cl_type k)) (td_columns t)) (ct_tables c) then Inl ''2BP01''
      else Inr (c\<lparr>ct_enums := filter (\<lambda>e. fst e \<noteq> n) (ct_enums c)\<rparr>))"
| "alter_catalog (Create_Table t) c =
     (if list_ex (\<lambda>n. n \<in> set (relation_names c)) (td_name t # own_indexes t)
         \<or> \<not> distinct (td_name t # own_indexes t) then Inl ''42P07''
      else if td_name t \<in> set (map fst (ct_enums c)) then Inl ''42710''
      else if \<not> distinct (column_names t) then Inl ''42701''
      else if list_ex (\<lambda>k. case cl_type k of Enum_type n \<Rightarrow> n \<notin> set (map fst (ct_enums c)) | _ \<Rightarrow> False) (td_columns t)
      then Inl ''42704''
      else if \<not> distinct (map constraint_name (td_constraints t)) then Inl ''42710''
      else if \<not> list_all (constraint_fits c t) (td_constraints t) then Inl ''42830''
      else Inr (c\<lparr>ct_tables := ct_tables c @ [t]\<rparr>))"
| "alter_catalog (Drop_Table n) c =
     (if n \<notin> set (table_names c) then Inl ''42P01''
      else if list_ex (\<lambda>t. td_name t \<noteq> n \<and> list_ex (refers_to n) (td_constraints t)) (ct_tables c)
              \<or> list_ex (views_table n) (ct_objects c) then Inl ''2BP01''
      else Inr (c\<lparr>ct_tables := filter (\<lambda>t. td_name t \<noteq> n) (ct_tables c),
                  ct_indexes := filter (\<lambda>i. ix_table i \<noteq> n) (ct_indexes c),
                  ct_objects := filter (\<lambda>ob. \<not> trigger_on n ob) (ct_objects c)\<rparr>))"
| "alter_catalog (Create_Index i) c =
     (if \<not> fresh_index c i then Inl ''42P07''
      else case table_of c (ix_table i) of
             None \<Rightarrow> Inl ''42P01''
           | Some t \<Rightarrow> if set (ix_columns i) \<subseteq> set (column_names t) then Inr (c\<lparr>ct_indexes := ct_indexes c @ [i]\<rparr>)
                      else Inl ''42703'')"
| "alter_catalog (Alter_Type t n ty) c =
     (case table_of c t of
        None \<Rightarrow> Inl ''42P01''
      | Some td \<Rightarrow> if n \<notin> set (column_names td) then Inl ''42703''
                  else if list_ex (views_column t n) (ct_objects c) then Inl ''0A000''
                  else Inr (c\<lparr>ct_tables := map (retype t n ty) (ct_tables c)\<rparr>))"
| "alter_catalog (Create_Object ob) c =
     (case object_error c ob of Some e \<Rightarrow> Inl e | None \<Rightarrow> Inr (c\<lparr>ct_objects := ct_objects c @ [ob]\<rparr>))"
| "alter_catalog (Drop_View_If_Exists n) c =
     Inr (c\<lparr>ct_objects := filter (\<lambda>ob. n \<notin> set (view_name ob)) (ct_objects c)\<rparr>)"
| "alter_catalog (Drop_Trigger_If_Exists n t) c =
     Inr (c\<lparr>ct_objects := filter (\<lambda>ob. case ob of Trigger n' t' _ \<Rightarrow> \<not> (n' = n \<and> t' = t) | _ \<Rightarrow> True) (ct_objects c)\<rparr>)"
| "alter_catalog (Drop_Routine_If_Exists sig) c =
     (if list_ex (trigger_uses sig) (ct_objects c) then Inl ''2BP01''
      else Inr (c\<lparr>ct_objects := filter (\<lambda>ob. sig \<notin> set (routine ob)) (ct_objects c)\<rparr>))"

section \<open>Rows\<close>

datatype sql_value =
    VNull | VInt int | VText py_str | VBool bool | VTime datetime | VJson json_object | VEnum py_str

type_synonym row = "(py_str \<times> sql_value) list"

definition or_null :: "('a \<Rightarrow> sql_value) \<Rightarrow> 'a option \<Rightarrow> sql_value" where
  "or_null f v = (case v of None \<Rightarrow> VNull | Some a \<Rightarrow> f a)"

definition event_values :: "webhook_event \<Rightarrow> row" where
  "event_values e = [(''id'', VInt (ev_id e)), (''source'', VText (ev_source e)), (''external_id'', VText (ev_external_id e)),
     (''idempotency_key'', VText (ev_idempotency_key e)), (''event_type'', VText (ev_event_type e)),
     (''entity_type'', VText (ev_entity_type e)), (''entity_id'', VText (ev_entity_id e)),
     (''payload'', VJson (ev_payload e)), (''headers'', VJson (ev_headers e)),
     (''signature_verified'', VBool (ev_signature_verified e)), (''occurred_at'', VTime (ev_occurred_at e)),
     (''provider_sequence'', or_null VInt (ev_provider_sequence e)), (''received_at'', VTime (ev_received_at e)),
     (''status'', VEnum (webhook_status_value (ev_status e))), (''attempt_count'', VInt (ev_attempt_count e)),
     (''next_attempt_at'', VTime (ev_next_attempt_at e)), (''processed_at'', or_null VTime (ev_processed_at e)),
     (''last_error'', or_null VText (ev_last_error e))]"

definition attempt_values :: "processing_attempt \<Rightarrow> row" where
  "attempt_values a = [(''id'', VInt (pa_id a)), (''event_id'', VInt (pa_event_id a)),
     (''attempt_number'', VInt (pa_attempt_number a)), (''started_at'', VTime (pa_started_at a)),
     (''finished_at'', or_null VTime (pa_finished_at a)),
     (''outcome'', or_null (\<lambda>v. VEnum (attempt_outcome_value v)) (pa_outcome a)),
     (''error_class'', or_null VText (pa_error_class a)), (''error_detail'', or_null VText (pa_error_detail a)),
     (''duration_ms'', or_null VInt (pa_duration_ms a))]"

definition entry_values :: "dead_letter_entry \<Rightarrow> row" where
  "entry_values d = [(''id'', VInt (dl_id d)), (''event_id'', VInt (dl_event_id d)), (''reason'', VText (dl_reason d)),
     (''attempts_made'', VInt (dl_attempts_made d)), (''dead_lettered_at'', VTime (dl_dead_lettered_at d)),
     (''status'', VEnum (dlq_status_value (dl_status d))), (''resolved_at'', or_null VTime (dl_resolved_at d)),
     (''resolution_note'', or_null VText (dl_resolution_note d))]"

definition request_values :: "replay_request \<Rightarrow> row" where
  "request_values r = [(''id'', VInt (rr_id r)), (''event_id'', VInt (rr_event_id r)),
     (''requested_by'', VText (rr_requested_by r)), (''requested_at'', VTime (rr_requested_at r)),
     (''reason'', or_null VText (rr_reason r)), (''outcome'', or_null (\<lambda>v. VEnum (replay_outcome_value v)) (rr_outcome r)),
     (''resulting_attempt_id'', or_null VInt (rr_resulting_attempt_id r))]"

definition account_values :: "account \<Rightarrow> row" where
  "account_values a = [(''id'', VInt (ac_id a)), (''external_ref'', VText (ac_external_ref a)),
     (''balance_minor'', VInt (ac_balance_minor a)), (''version'', VInt (ac_version a)), (''updated_at'', VTime (ac_updated_at a))]"

definition ledger_values :: "ledger_entry \<Rightarrow> row" where
  "ledger_values l = [(''id'', VInt (le_id l)), (''account_id'', VInt (le_account_id l)), (''event_id'', VInt (le_event_id l)),
     (''amount_minor'', VInt (le_amount_minor l)), (''created_at'', VTime (le_created_at l))]"

definition rows_of :: "tables \<Rightarrow> py_str \<Rightarrow> row list" where
  "rows_of t n =
     (if n = ''webhook_event'' then map event_values (webhook_event_t t)
      else if n = ''processing_attempt'' then map attempt_values (processing_attempt_t t)
      else if n = ''dead_letter_entry'' then map entry_values (dead_letter_entry_t t)
      else if n = ''replay_request'' then map request_values (replay_request_t t)
      else if n = ''account'' then map account_values (account_t t)
      else if n = ''ledger_entry'' then map ledger_values (ledger_entry_t t) else [])"

definition clear_rows :: "py_str \<Rightarrow> tables \<Rightarrow> tables" where
  "clear_rows n t =
     (if n = ''webhook_event'' then t\<lparr>webhook_event_t := []\<rparr>
      else if n = ''processing_attempt'' then t\<lparr>processing_attempt_t := []\<rparr>
      else if n = ''dead_letter_entry'' then t\<lparr>dead_letter_entry_t := []\<rparr>
      else if n = ''replay_request'' then t\<lparr>replay_request_t := []\<rparr>
      else if n = ''account'' then t\<lparr>account_t := []\<rparr>
      else if n = ''ledger_entry'' then t\<lparr>ledger_entry_t := []\<rparr> else t)"

definition value_of :: "py_str \<Rightarrow> row \<Rightarrow> sql_value" where
  "value_of n r = (case map_of r n of None \<Rightarrow> VNull | Some v \<Rightarrow> v)"

text \<open>Converting a stored value: what does not fit the new integer type is refused, not truncated.\<close>

fun castable :: "sql_type \<Rightarrow> sql_value \<Rightarrow> bool" where
  "castable Integer (VInt i) = int4_ok i"
| "castable BigInteger (VInt i) = int8_ok i"
| "castable _ _ = True"

fun alter_rows :: "ddl \<Rightarrow> tables \<Rightarrow> py_str + tables" where
  "alter_rows (Drop_Table n) t = Inr (clear_rows n t)"
| "alter_rows (Alter_Type n k ty) t =
     (if list_all (\<lambda>r. castable ty (value_of k r)) (rows_of t n) then Inr t else Inl ''22003'')"
| "alter_rows _ t = Inr t"

definition and_then :: "'e + 'a \<Rightarrow> ('a \<Rightarrow> 'e + 'b) \<Rightarrow> 'e + 'b" where
  "and_then r f = (case r of Inl e \<Rightarrow> Inl e | Inr a \<Rightarrow> f a)"

definition alter :: "ddl \<Rightarrow> catalog \<times> tables \<Rightarrow> py_str + catalog \<times> tables" where
  "alter d db = and_then (alter_catalog d (fst db)) (\<lambda>c. and_then (alter_rows d (snd db)) (\<lambda>t. Inr (c, t)))"

fun alter_all :: "ddl list \<Rightarrow> catalog \<times> tables \<Rightarrow> py_str + catalog \<times> tables" where
  "alter_all [] db = Inr db"
| "alter_all (d # ds) db = and_then (alter d db) (alter_all ds)"

text \<open>All migrations of one invocation run in one transaction.\<close>

definition run_migrations :: "ddl list \<Rightarrow> catalog \<times> tables \<Rightarrow> py_str option \<times> (catalog \<times> tables)" where
  "run_migrations ds db = (case alter_all ds db of Inl e \<Rightarrow> (Some e, db) | Inr db' \<Rightarrow> (None, db'))"

section \<open>Catalog and rows separately\<close>

fun alter_catalog_all :: "ddl list \<Rightarrow> catalog \<Rightarrow> py_str + catalog" where
  "alter_catalog_all [] c = Inr c"
| "alter_catalog_all (d # ds) c = and_then (alter_catalog d c) (alter_catalog_all ds)"

fun alter_rows_all :: "ddl list \<Rightarrow> tables \<Rightarrow> py_str + tables" where
  "alter_rows_all [] t = Inr t"
| "alter_rows_all (d # ds) t = and_then (alter_rows d t) (alter_rows_all ds)"

lemma alter_all_split:
  assumes "alter_catalog_all ds c = Inr c'"
  shows "alter_all ds (c, t) = and_then (alter_rows_all ds t) (\<lambda>t'. Inr (c', t'))"
  using assms
  by (induction ds arbitrary: c t) (auto simp: alter_def and_then_def split: sum.splits)

lemma alter_all_append: "alter_all (ds @ es) db = and_then (alter_all ds db) (alter_all es)"
  by (induction ds arbitrary: db) (auto simp: and_then_def split: sum.splits)

section \<open>What the constraints say of the rows\<close>

fun holds :: "tables \<Rightarrow> row list \<Rightarrow> constraint \<Rightarrow> bool" where
  "holds t rs (Primary_Key _ cs) = (distinct (map (\<lambda>r. map (\<lambda>c. value_of c r) cs) rs)
     \<and> list_all (\<lambda>r. list_all (\<lambda>c. value_of c r \<noteq> VNull) cs) rs)"
| "holds t rs (Unique _ cs) = distinct (filter (\<lambda>k. VNull \<notin> set k) (map (\<lambda>r. map (\<lambda>c. value_of c r) cs) rs))"
| "holds t rs (Check _ c b) = list_all (\<lambda>r. case value_of c r of VInt i \<Rightarrow> b \<le> i | v \<Rightarrow> v = VNull) rs"
| "holds t rs (Foreign_Key _ c (n, k) _) =
     list_all (\<lambda>r. value_of c r = VNull \<or> value_of c r \<in> set (map (value_of k) (rows_of t n))) rs"

definition satisfies :: "catalog \<Rightarrow> tables \<Rightarrow> bool" where
  "satisfies c t \<longleftrightarrow> list_all (\<lambda>td. list_all (holds t (rows_of t (td_name td))) (td_constraints td)) (ct_tables c)"

text \<open>A row has the columns of its table in order, nulls only where they may be, and values of the declared types.\<close>

fun of_type :: "catalog \<Rightarrow> sql_type \<Rightarrow> sql_value \<Rightarrow> bool" where
  "of_type c BigInteger (VInt _) = True"
| "of_type c Integer (VInt _) = True"
| "of_type c Text (VText _) = True"
| "of_type c Varchar (VText _) = True"
| "of_type c Boolean (VBool _) = True"
| "of_type c Timestamptz (VTime _) = True"
| "of_type c Jsonb (VJson _) = True"
| "of_type c (Enum_type n) (VEnum v) = (case map_of (ct_enums c) n of None \<Rightarrow> False | Some vs \<Rightarrow> v \<in> set vs)"
| "of_type c _ _ = False"

definition row_fits :: "catalog \<Rightarrow> table_def \<Rightarrow> row \<Rightarrow> bool" where
  "row_fits c td r \<longleftrightarrow> map fst r = column_names td
     \<and> list_all2 (\<lambda>k (_, v). if v = VNull then cl_nullable k else of_type c (cl_type k) v) (td_columns td) r"

end
