(* ===== verification/Migrations.thy ===== *)
theory Migrations
  imports Catalog
begin

text \<open>
  The three versions under \<open>migrations/versions\<close> as sequences of catalog operations, both ways, and the
  splitting of the scripts of version 0003. Executed from an empty database they succeed in order; undone in
  reverse they leave nothing -- unless a stored version no longer fits the narrow column,
  in which case nothing happens at all; and no version can be undone before the ones after it.
\<close>

section \<open>Version 0001\<close>

definition WEBHOOK_STATUS :: "py_str \<times> py_str list" where
  "WEBHOOK_STATUS = (''webhook_status'', [''pending'', ''processing'', ''succeeded'', ''dead_lettered''])"

definition ATTEMPT_OUTCOME :: "py_str \<times> py_str list" where
  "ATTEMPT_OUTCOME = (''attempt_outcome'', [''succeeded'', ''superseded'', ''retryable_error'', ''non_retryable_error''])"

definition DLQ_STATUS :: "py_str \<times> py_str list" where
  "DLQ_STATUS = (''dlq_status'', [''needs_review'', ''replaying'', ''resolved'', ''discarded''])"

definition REPLAY_OUTCOME :: "py_str \<times> py_str list" where
  "REPLAY_OUTCOME = (''replay_outcome'', [''succeeded'', ''skipped_already_processed'', ''failed''])"

definition ENUMS :: "(py_str \<times> py_str list) list" where
  "ENUMS = [WEBHOOK_STATUS, ATTEMPT_OUTCOME, DLQ_STATUS, REPLAY_OUTCOME]"

text \<open>Alembic names a check after the naming convention of the target metadata.\<close>

definition ck :: "py_str \<Rightarrow> py_str \<Rightarrow> py_str \<Rightarrow> int \<Rightarrow> constraint" where
  "ck table name column bound = Check (''ck_'' @ table @ ''_'' @ name) column bound"

definition webhook_event_0001 :: table_def where
  "webhook_event_0001 = \<lparr>td_name = ''webhook_event'',
     td_columns = [id_column, col ''source'' Text False, col ''external_id'' Text False, col ''idempotency_key'' Text False,
       col ''event_type'' Text False, col ''entity_type'' Text False, col ''entity_id'' Text False,
       col ''payload'' Jsonb False, col ''headers'' Jsonb False, col ''signature_verified'' Boolean False,
       col ''occurred_at'' Timestamptz False, col ''provider_sequence'' BigInteger True,
       with_default (col ''received_at'' Timestamptz False) (sa_text ''now()''),
       with_default (col ''status'' (Enum_type (fst WEBHOOK_STATUS)) False) (plain ''pending''),
       with_default (col ''attempt_count'' Integer False) (sa_text ''0''),
       with_default (col ''next_attempt_at'' Timestamptz False) (sa_text ''now()''),
       col ''processed_at'' Timestamptz True, col ''last_error'' Text True],
     td_constraints = [Primary_Key ''pk_webhook_event'' [''id''],
       Unique ''uq_webhook_event_source_idempotency_key'' [''source'', ''idempotency_key''],
       ck ''webhook_event'' ''attempt_count_non_negative'' ''attempt_count'' 0]\<rparr>"

definition processing_attempt_0001 :: table_def where
  "processing_attempt_0001 = \<lparr>td_name = ''processing_attempt'',
     td_columns = [id_column, col ''event_id'' BigInteger False, col ''attempt_number'' Integer False,
       with_default (col ''started_at'' Timestamptz False) (sa_text ''now()''), col ''finished_at'' Timestamptz True,
       col ''outcome'' (Enum_type (fst ATTEMPT_OUTCOME)) True, col ''error_class'' Text True,
       col ''error_detail'' Text True, col ''duration_ms'' Integer True],
     td_constraints = [Primary_Key ''pk_processing_attempt'' [''id''],
       Foreign_Key ''fk_processing_attempt_event_id_webhook_event'' ''event_id'' (''webhook_event'', ''id'') CASCADE,
       Unique ''uq_processing_attempt_event_id_attempt_number'' [''event_id'', ''attempt_number''],
       ck ''processing_attempt'' ''attempt_number_positive'' ''attempt_number'' 1]\<rparr>"

definition dead_letter_entry_0001 :: table_def where
  "dead_letter_entry_0001 = \<lparr>td_name = ''dead_letter_entry'',
     td_columns = [id_column, col ''event_id'' BigInteger False, col ''reason'' Text False, col ''attempts_made'' Integer False,
       with_default (col ''dead_lettered_at'' Timestamptz False) (sa_text ''now()''),
       with_default (col ''status'' (Enum_type (fst DLQ_STATUS)) False) (plain ''needs_review''),
       col ''resolved_at'' Timestamptz True, col ''resolution_note'' Text True],
     td_constraints = [Primary_Key ''pk_dead_letter_entry'' [''id''],
       Foreign_Key ''fk_dead_letter_entry_event_id_webhook_event'' ''event_id'' (''webhook_event'', ''id'') CASCADE,
       Unique ''uq_dead_letter_entry_event_id'' [''event_id''],
       ck ''dead_letter_entry'' ''attempts_made_non_negative'' ''attempts_made'' 0]\<rparr>"

definition replay_request_0001 :: table_def where
  "replay_request_0001 = \<lparr>td_name = ''replay_request'',
     td_columns = [id_column, col ''event_id'' BigInteger False, col ''requested_by'' Text False,
       with_default (col ''requested_at'' Timestamptz False) (sa_text ''now()''), col ''reason'' Text True,
       col ''outcome'' (Enum_type (fst REPLAY_OUTCOME)) True, col ''resulting_attempt_id'' BigInteger True],
     td_constraints = [Primary_Key ''pk_replay_request'' [''id''],
       Foreign_Key ''fk_replay_request_event_id_webhook_event'' ''event_id'' (''webhook_event'', ''id'') CASCADE,
       Foreign_Key ''fk_replay_request_resulting_attempt_id_processing_attempt'' ''resulting_attempt_id''
         (''processing_attempt'', ''id'') SET_NULL]\<rparr>"

definition account_0001 :: table_def where
  "account_0001 = \<lparr>td_name = ''account'',
     td_columns = [id_column, col ''external_ref'' Text False,
       with_default (col ''balance_minor'' BigInteger False) (sa_text ''0''),
       with_default (col ''version'' Integer False) (sa_text ''0''),
       with_default (col ''updated_at'' Timestamptz False) (sa_text ''now()'')],
     td_constraints = [Primary_Key ''pk_account'' [''id''], Unique ''uq_account_external_ref'' [''external_ref''],
       ck ''account'' ''version_non_negative'' ''version'' 0]\<rparr>"

definition ledger_entry_0001 :: table_def where
  "ledger_entry_0001 = \<lparr>td_name = ''ledger_entry'',
     td_columns = [id_column, col ''account_id'' BigInteger False, col ''event_id'' BigInteger False,
       col ''amount_minor'' BigInteger False, with_default (col ''created_at'' Timestamptz False) (sa_text ''now()'')],
     td_constraints = [Primary_Key ''pk_ledger_entry'' [''id''],
       Foreign_Key ''fk_ledger_entry_account_id_account'' ''account_id'' (''account'', ''id'') RESTRICT,
       Foreign_Key ''fk_ledger_entry_event_id_webhook_event'' ''event_id'' (''webhook_event'', ''id'') CASCADE,
       Unique ''uq_ledger_entry_event_id'' [''event_id'']]\<rparr>"

definition index_on :: "py_str \<Rightarrow> py_str \<Rightarrow> py_str list \<Rightarrow> ddl" where
  "index_on n table columns = Create_Index \<lparr>ix_name = n, ix_table = table, ix_columns = columns\<rparr>"

definition upgrade_0001 :: "ddl list" where
  "upgrade_0001 = map (\<lambda>(n, vs). Create_Enum n vs) ENUMS @
    [Create_Table webhook_event_0001,
     index_on ''ix_webhook_event_status_next_attempt_at'' ''webhook_event'' [''status'', ''next_attempt_at''],
     index_on ''ix_webhook_event_entity_type_entity_id'' ''webhook_event'' [''entity_type'', ''entity_id''],
     Create_Table processing_attempt_0001,
     index_on ''ix_processing_attempt_event_id'' ''processing_attempt'' [''event_id''],
     Create_Table dead_letter_entry_0001,
     index_on ''ix_dead_letter_entry_status'' ''dead_letter_entry'' [''status''],
     Create_Table replay_request_0001,
     index_on ''ix_replay_request_event_id'' ''replay_request'' [''event_id''],
     Create_Table account_0001,
     Create_Table ledger_entry_0001,
     index_on ''ix_ledger_entry_account_id'' ''ledger_entry'' [''account_id'']]"

definition downgrade_0001 :: "ddl list" where
  "downgrade_0001 = map Drop_Table [''ledger_entry'', ''account'', ''replay_request'', ''dead_letter_entry'',
      ''processing_attempt'', ''webhook_event''] @ map (\<lambda>(n, _). Drop_Enum n) (rev ENUMS)"

section \<open>Version 0002\<close>

definition upgrade_0002 :: "ddl list" where
  "upgrade_0002 = [Alter_Type ''account'' ''version'' BigInteger]"

definition downgrade_0002 :: "ddl list" where
  "downgrade_0002 = [Alter_Type ''account'' ''version'' Integer]"

section \<open>Version 0003\<close>

text \<open>\<open>_statements\<close>: the chunks between marker lines, stripped, without empty ones.\<close>

definition MARKER :: py_str where
  "MARKER = CHR 0x0A # ''--@@'' @ [CHR 0x0A]"

function split_on :: "py_str \<Rightarrow> py_str \<Rightarrow> py_str \<Rightarrow> py_str list" where
  "split_on sep acc [] = [acc]"
| "split_on sep acc (c # cs) =
     (if sep \<noteq> [] \<and> take (length sep) (c # cs) = sep then acc # split_on sep [] (drop (length sep) (c # cs))
      else split_on sep (acc @ [c]) cs)"
  by pat_completeness auto
termination
  by (relation "measure (\<lambda>(sep, acc, s). length s)") (auto simp: Suc_le_eq)

definition statements :: "py_str \<Rightarrow> py_str list" where
  "statements script = map py_strip (filter (\<lambda>chunk. py_strip chunk \<noteq> []) (split_on MARKER [] script))"

text \<open>The scripts, as the objects their statements create.\<close>

definition TRIGGER_FUNCTIONS :: "db_object list" where
  "TRIGGER_FUNCTIONS = [Trigger_Function ''fn_set_updated_at()'', Trigger_Function ''fn_ledger_entry_immutable()'',
     Trigger_Function ''fn_processing_attempt_immutable()'', Trigger_Function ''fn_dlq_terminal_is_terminal()'']"

definition TRIGGERS :: "db_object list" where
  "TRIGGERS = [Trigger ''trg_account_set_updated_at'' ''account'' ''fn_set_updated_at()'',
     Trigger ''trg_ledger_entry_immutable'' ''ledger_entry'' ''fn_ledger_entry_immutable()'',
     Trigger ''trg_processing_attempt_immutable'' ''processing_attempt'' ''fn_processing_attempt_immutable()'',
     Trigger ''trg_dlq_terminal_is_terminal'' ''dead_letter_entry'' ''fn_dlq_terminal_is_terminal()'']"

definition VIEWS :: "db_object list" where
  "VIEWS =
    [View ''v_queue_health'' [(''webhook_event'', [''status'', ''next_attempt_at''])],
     View ''v_account_reconciliation''
       [(''account'', [''id'', ''external_ref'', ''balance_minor'', ''version'']), (''ledger_entry'', [''id'', ''amount_minor'', ''account_id''])],
     View ''v_dlq_open''
       [(''dead_letter_entry'', [''id'', ''event_id'', ''reason'', ''attempts_made'', ''status'', ''dead_lettered_at'']),
        (''webhook_event'', [''id'', ''source'', ''external_id'', ''event_type'', ''entity_type'', ''entity_id''])],
     View ''v_event_overview''
       [(''webhook_event'', [''id'', ''source'', ''external_id'', ''event_type'', ''entity_type'', ''entity_id'', ''status'',
          ''attempt_count'', ''received_at'', ''occurred_at'', ''next_attempt_at'', ''processed_at'', ''last_error'']),
        (''processing_attempt'', [''event_id'', ''finished_at'', ''outcome'', ''attempt_number'']),
        (''ledger_entry'', [''event_id''])],
     View ''v_processing_outcomes''
       [(''processing_attempt'', [''outcome'', ''duration_ms'', ''event_id'']), (''webhook_event'', [''event_type'', ''id''])]]"

definition FUNCTIONS :: "db_object list" where
  "FUNCTIONS = [Sql_Function ''fn_account_balance(text)'' [''ledger_entry'', ''account''],
     Sql_Function ''fn_ledger_invariant_ok()'' [''v_account_reconciliation''],
     Sql_Function ''fn_queue_lag()'' [''webhook_event'']]"

definition PROCEDURE :: "db_object list" where
  "PROCEDURE = [Procedure ''sp_purge_history(interval, bigint, bigint)'']"

definition upgrade_0003 :: "ddl list" where
  "upgrade_0003 = concat (map (map Create_Object) [TRIGGER_FUNCTIONS, TRIGGERS, VIEWS, FUNCTIONS, PROCEDURE])"

definition downgrade_0003 :: "ddl list" where
  "downgrade_0003 =
    [Drop_Routine_If_Exists ''sp_purge_history(interval, bigint, bigint)'',
     Drop_Routine_If_Exists ''fn_queue_lag()'', Drop_Routine_If_Exists ''fn_ledger_invariant_ok()'',
     Drop_Routine_If_Exists ''fn_account_balance(text)'',
     Drop_View_If_Exists ''v_processing_outcomes'', Drop_View_If_Exists ''v_event_overview'', Drop_View_If_Exists ''v_dlq_open'',
     Drop_View_If_Exists ''v_account_reconciliation'', Drop_View_If_Exists ''v_queue_health'',
     Drop_Trigger_If_Exists ''trg_dlq_terminal_is_terminal'' ''dead_letter_entry'',
     Drop_Trigger_If_Exists ''trg_processing_attempt_immutable'' ''processing_attempt'',
     Drop_Trigger_If_Exists ''trg_ledger_entry_immutable'' ''ledger_entry'',
     Drop_Trigger_If_Exists ''trg_account_set_updated_at'' ''account'',
     Drop_Routine_If_Exists ''fn_dlq_terminal_is_terminal()'', Drop_Routine_If_Exists ''fn_processing_attempt_immutable()'',
     Drop_Routine_If_Exists ''fn_ledger_entry_immutable()'', Drop_Routine_If_Exists ''fn_set_updated_at()'']"

definition all_upgrades :: "ddl list" where
  "all_upgrades = upgrade_0001 @ upgrade_0002 @ upgrade_0003"

definition all_downgrades :: "ddl list" where
  "all_downgrades = downgrade_0003 @ downgrade_0002 @ downgrade_0001"

definition deployed :: catalog where
  "deployed = projr (alter_catalog_all all_upgrades empty_catalog)"

section \<open>Laws\<close>

lemma upgrades_run: "alter_catalog_all all_upgrades empty_catalog = Inr deployed"
proof -
  have "\<not> isl (alter_catalog_all all_upgrades empty_catalog)" by code_simp
  then show ?thesis unfolding deployed_def by (cases "alter_catalog_all all_upgrades empty_catalog") simp_all
qed

lemma downgrades_run: "alter_catalog_all all_downgrades deployed = Inr empty_catalog"
  by code_simp

lemma split_on_chunk:
  assumes "sep \<noteq> []" and "\<And>a b. s \<noteq> a @ sep @ b"
  shows "split_on sep acc s = [acc @ s]"
  using assms(2)
proof (induction sep acc s rule: split_on.induct)
  case (2 sep acc c cs)
  have no: "take (length sep) (c # cs) \<noteq> sep" using 2(3) [of "[]" "drop (length sep) (c # cs)"] by (metis append_Nil append_take_drop_id)
  have "cs \<noteq> a @ sep @ b" for a b using 2(3) [of "c # a" b] by auto
  with 2(2) no show ?case by simp
qed simp

text \<open>A script without a marker is one statement.\<close>

lemma statements_single:
  assumes "\<And>a b. script \<noteq> a @ MARKER @ b" and "py_strip script \<noteq> []"
  shows "statements script = [py_strip script]"
proof -
  have "split_on MARKER [] script = [[] @ script]" using assms(1) by (intro split_on_chunk) (simp_all add: MARKER_def)
  with assms(2) show ?thesis by (simp add: statements_def)
qed

lemma blocked: "alter_catalog d c = Inl e \<Longrightarrow> run_migrations (d # ds) (c, t) = (Some e, (c, t))"
  by (simp add: run_migrations_def alter_def and_then_def)

lemma upgrade_rows: "alter_rows_all all_upgrades t = Inr t"
  if "t = no_rows"
  using that
  by (simp add: all_upgrades_def upgrade_0001_def upgrade_0002_def upgrade_0003_def ENUMS_def and_then_def
      TRIGGER_FUNCTIONS_def TRIGGERS_def VIEWS_def FUNCTIONS_def PROCEDURE_def index_on_def rows_of_def no_rows_def
      WEBHOOK_STATUS_def ATTEMPT_OUTCOME_def DLQ_STATUS_def REPLAY_OUTCOME_def)

lemma account_rows: "list_all (\<lambda>r. castable Integer (value_of ''version'' r)) (rows_of t ''account'')
    \<longleftrightarrow> list_all (\<lambda>a. int4_ok (ac_version a)) (account_t t)"
  by (simp add: rows_of_def list_all_length value_of_def account_values_def)

lemma downgrade_rows:
  "alter_rows_all all_downgrades t =
     (if list_all (\<lambda>a. int4_ok (ac_version a)) (account_t t) then Inr no_rows else Inl ''22003'')"
  by (simp add: all_downgrades_def downgrade_0001_def downgrade_0002_def downgrade_0003_def ENUMS_def and_then_def account_rows
      WEBHOOK_STATUS_def ATTEMPT_OUTCOME_def DLQ_STATUS_def REPLAY_OUTCOME_def)
    (simp add: clear_rows_def no_rows_def)

text \<open>C37. The migrations run, and can be undone. From an empty database the three upgrades succeed in order; the three
  downgrades, latest first, leave the empty database again -- when every stored account version fits
  the narrow column, and otherwise refuse with an out-of-range error and change nothing; and neither the second nor the
  first version can be undone while the later ones stand: the reconciliation view holds the
  column, the views hold the tables.\<close>

theorem migrations_reversible:
  "run_migrations all_upgrades (empty_catalog, no_rows) = (None, (deployed, no_rows))
   \<and> run_migrations all_downgrades (deployed, t) =
       (if list_all (\<lambda>a. int4_ok (ac_version a)) (account_t t) then (None, (empty_catalog, no_rows))
        else (Some ''22003'', (deployed, t)))
   \<and> run_migrations downgrade_0002 (deployed, t) = (Some ''0A000'', (deployed, t))
   \<and> run_migrations downgrade_0001 (deployed, t) = (Some ''2BP01'', (deployed, t))"
proof -
  have up: "alter_all all_upgrades (empty_catalog, no_rows) = Inr (deployed, no_rows)"
    by (simp add: alter_all_split [OF upgrades_run] upgrade_rows and_then_def)
  have down: "alter_all all_downgrades (deployed, t)
      = (if list_all (\<lambda>a. int4_ok (ac_version a)) (account_t t) then Inr (empty_catalog, no_rows) else Inl ''22003'')"
    by (simp add: alter_all_split [OF downgrades_run] downgrade_rows and_then_def)
  have "run_migrations downgrade_0002 (deployed, t) = (Some ''0A000'', (deployed, t))"
    unfolding downgrade_0002_def by (rule blocked) code_simp
  moreover have "run_migrations downgrade_0001 (deployed, t) = (Some ''2BP01'', (deployed, t))"
    unfolding downgrade_0001_def list.map append_Cons by (rule blocked) code_simp
  ultimately show ?thesis using up down by (simp add: run_migrations_def)
qed

end
