(* ===== verification/Wiring.thy ===== *)
theory Wiring
  imports Worker Support Migrations Wire
begin

text \<open>
  How the processes are put together: the options of the engine and of its sessions (\<open>adapters/database.py\<close>), the logging
  pipeline (\<open>obs/logging.py\<close>), the worker process around its loops (\<open>worker/main.py\<close>: \<open>_wait\<close>, the signal handlers,
  \<open>_main\<close>), and a migration run, offline and online, along the chain of revisions (\<open>migrations/env.py\<close>).
\<close>

section \<open>The engine\<close>

record engine_options =
  eo_url :: py_str
  eo_pool_size :: int
  eo_max_overflow :: int
  eo_pool_pre_ping :: bool
  eo_hide_parameters :: bool
  eo_future :: bool

definition create_engine :: "settings \<Rightarrow> engine_options" where
  "create_engine settings = \<lparr>eo_url = database_url settings, eo_pool_size = db_pool_size settings,
     eo_max_overflow = db_max_overflow settings, eo_pool_pre_ping = True, eo_hide_parameters = True, eo_future = True\<rparr>"

record session_factory =
  sf_bind :: engine_options
  sf_expire_on_commit :: bool
  sf_autoflush :: bool

definition create_session_factory :: "engine_options \<Rightarrow> session_factory" where
  "create_session_factory engine = \<lparr>sf_bind = engine, sf_expire_on_commit = False, sf_autoflush = False\<rparr>"

section \<open>Logging\<close>

datatype processor =
    Merge_Contextvars | Add_Log_Level | Add_Logger_Name | Time_Stamper py_str bool | Stack_Info_Renderer | Unicode_Decoder
  | Format_Exc_Info | Console_Renderer | JSON_Renderer

text \<open>\<open>logging.getLevelNamesMapping()\<close>.\<close>

definition level_names :: "(py_str \<times> int) list" where
  "level_names = [(''CRITICAL'', 50), (''FATAL'', 50), (''ERROR'', 40), (''WARN'', 30), (''WARNING'', 30), (''INFO'', 20),
     (''DEBUG'', 10), (''NOTSET'', 0)]"

fun log_level_value :: "log_level \<Rightarrow> py_str" where
  "log_level_value DEBUG = ''DEBUG''"
| "log_level_value INFO = ''INFO''"
| "log_level_value WARNING = ''WARNING''"
| "log_level_value ERROR = ''ERROR''"

definition level_number :: "log_level \<Rightarrow> exc + int" where
  "level_number l = (case map_of level_names (log_level_value l) of
     None \<Rightarrow> Inl (OtherError ''KeyError'' (py_repr (log_level_value l))) | Some n \<Rightarrow> Inr n)"

record log_config =
  lc_format :: py_str
  lc_root_level :: int
  lc_processors :: "processor list"
  lc_min_level :: int
  lc_cache_logger :: bool

text \<open>\<open>force=True\<close>: what was configured before does not matter.\<close>

definition configure_logging :: "log_level \<Rightarrow> environment \<Rightarrow> log_config option \<Rightarrow> exc + log_config" where
  "configure_logging level env_name before =
     (let shared = [Merge_Contextvars, Add_Log_Level, Add_Logger_Name, Time_Stamper ''iso'' True, Stack_Info_Renderer, Unicode_Decoder];
          renderer = (if env_name = LOCAL then Console_Renderer else JSON_Renderer)
      in bind_exc (level_number level) (\<lambda>n.
         Inr \<lparr>lc_format = ''%(message)s'', lc_root_level = n, lc_processors = shared @ [Format_Exc_Info, renderer],
              lc_min_level = n, lc_cache_logger = True\<rparr>))"

text \<open>It never fails, calling it again changes nothing, and both filters agree; the last processor, and only it, renders.\<close>

lemma configure_logging_idempotent:
  "\<exists>c. configure_logging level e before = Inr c \<and> configure_logging level e (Some c) = Inr c \<and> lc_root_level c = lc_min_level c
     \<and> filter (\<lambda>p. p = Console_Renderer \<or> p = JSON_Renderer) (lc_processors c) = [last (lc_processors c)]
     \<and> (last (lc_processors c) = JSON_Renderer \<longleftrightarrow> e \<noteq> LOCAL)"
  by (cases level) (auto simp: configure_logging_def level_number_def level_names_def bind_exc_def Let_def)

text \<open>Severity orders the levels; with a level configured, a record passes the filter exactly if it is at least that severe.\<close>

fun severity :: "log_level \<Rightarrow> int" where
  "severity DEBUG = 10"
| "severity INFO = 20"
| "severity WARNING = 30"
| "severity ERROR = 40"

instantiation log_level :: linorder
begin

definition less_eq_log_level :: "log_level \<Rightarrow> log_level \<Rightarrow> bool" where
  "a \<le> b \<longleftrightarrow> severity a \<le> severity b"

definition less_log_level :: "log_level \<Rightarrow> log_level \<Rightarrow> bool" where
  "a < b \<longleftrightarrow> severity a < severity b"

instance
proof
  fix a b :: log_level
  show "a \<le> b \<Longrightarrow> b \<le> a \<Longrightarrow> a = b" by (cases a; cases b; simp add: less_eq_log_level_def)
qed (auto simp: less_eq_log_level_def less_log_level_def)

end

definition passes :: "log_config \<Rightarrow> log_level \<Rightarrow> bool" where
  "passes c l \<longleftrightarrow> (case level_number l of Inl _ \<Rightarrow> False | Inr n \<Rightarrow> lc_min_level c \<le> n \<and> lc_root_level c \<le> n)"

lemma level_number_severity: "level_number l = Inr (severity l)"
  by (cases l) (simp_all add: level_number_def level_names_def)

lemma passes_iff: "configure_logging level e before = Inr c \<Longrightarrow> passes c l \<longleftrightarrow> level \<le> l"
  by (auto simp: configure_logging_def Let_def bind_exc_def passes_def level_number_severity less_eq_log_level_def)

section \<open>The worker process\<close>

text \<open>\<open>_wait\<close>: how long it sleeps when the flag is set after some time, or not at all; \<open>wait_for\<close> does not wait for less than
  nothing.\<close>

definition wait_for :: "rat option \<Rightarrow> rat \<Rightarrow> rat" where
  "wait_for set_after seconds =
     max 0 (case set_after of None \<Rightarrow> seconds | Some t \<Rightarrow> if t \<le> seconds then t else seconds)"

lemma wait_prompt:
  "0 \<le> seconds \<Longrightarrow> wait_for set_after seconds \<le> seconds"
  "0 \<le> t \<Longrightarrow> wait_for (Some t) seconds \<le> t"
  by (auto simp: wait_for_def split: option.splits)

datatype signal = SIGINT | SIGTERM | Other_Signal int

definition handled_signals :: "signal list" where
  "handled_signals = [SIGINT, SIGTERM]"

text \<open>\<open>arrived k\<close> are the signals the event loop has delivered between the reads \<open>k - 1\<close> and \<open>k\<close> of the flag; a handled one sets it,
  and nothing clears it.\<close>

definition shutdown_flag :: "(nat \<Rightarrow> signal list) \<Rightarrow> nat \<Rightarrow> bool" where
  "shutdown_flag arrived k = list_ex (\<lambda>j. list_ex (\<lambda>s. s \<in> set handled_signals) (arrived j)) [0..<Suc k]"

lemma shutdown_flag_stays: "s \<in> set (arrived j) \<Longrightarrow> s \<in> {SIGINT, SIGTERM} \<Longrightarrow> j \<le> k \<Longrightarrow> shutdown_flag arrived k"
  unfolding shutdown_flag_def list_ex_iff by (intro bexI [of _ j] bexI [of _ s]) (auto simp: handled_signals_def)

datatype lifecycle =
    Logging_Configured log_config
  | Metrics_Listening int
  | Engine_Created engine_options
  | Jitter_Seeded int
  | Engine_Disposed

text \<open>\<open>run\<close> with the engine it creates and disposes of, however its loops end.\<close>

definition run_worker ::
  "nat \<Rightarrow> (nat \<Rightarrow> bool) \<Rightarrow> (nat \<Rightarrow> bool) \<Rightarrow> (int \<Rightarrow> nat \<Rightarrow> 53 word) \<Rightarrow> (nat \<Rightarrow> 53 word) \<Rightarrow> settings \<Rightarrow> world
     \<Rightarrow> (((exc + loop_state) \<times> world) \<times> lifecycle list) option" where
  "run_worker fuel shutdown present mt entropy settings w =
     (let engine = create_engine settings;
          w1 = w\<lparr>rng := create_rng mt entropy (jitter_seed settings)\<rparr>;
          seeded = (case jitter_seed settings of None \<Rightarrow> [] | Some s \<Rightarrow> [Jitter_Seeded s])
      in map_option (\<lambda>r. (r, [Engine_Created engine] @ seeded @ [Engine_Disposed]))
           (worker_run fuel shutdown present settings balance_registry w1))"

text \<open>\<open>_main\<close>. \<open>env_settings\<close> is \<open>get_settings()\<close>; \<open>listen\<close> is whether the metrics server can bind its port.\<close>

definition worker_main ::
  "nat \<Rightarrow> exc + settings \<Rightarrow> (int \<Rightarrow> exc + unit) \<Rightarrow> (nat \<Rightarrow> signal list) \<Rightarrow> (nat \<Rightarrow> bool) \<Rightarrow> (int \<Rightarrow> nat \<Rightarrow> 53 word)
     \<Rightarrow> (nat \<Rightarrow> 53 word) \<Rightarrow> world \<Rightarrow> (((exc + loop_state) \<times> world) \<times> lifecycle list) option" where
  "worker_main fuel env_settings listen arrived present mt entropy w =
     (case env_settings of
        Inl e \<Rightarrow> Some ((Inl e, w), [])
      | Inr settings \<Rightarrow>
          (case configure_logging (log_level settings) (environment settings) None of
             Inl e \<Rightarrow> Some ((Inl e, w), [])
           | Inr logging \<Rightarrow>
               (case listen (worker_metrics_port settings) of
                  Inl e \<Rightarrow> Some ((Inl e, w), [Logging_Configured logging])
                | Inr _ \<Rightarrow>
                    map_option (\<lambda>(r, trace). (r, [Logging_Configured logging, Metrics_Listening (worker_metrics_port settings)] @ trace))
                      (run_worker fuel (shutdown_flag arrived) present mt entropy settings w))))"

text \<open>C12. A signal ends the worker. Once a SIGTERM or SIGINT has been delivered by the \<open>m\<close>-th read of the shutdown flag, the whole
  process has ended within \<open>m + 1\<close> turns of either of its loops, the wait for the schema and the polls, whatever the database does
  meanwhile; and however it ends, an engine it created is disposed of last.\<close>

theorem worker_main_stops:
  assumes arrived: "j \<le> m" "s \<in> set (arrived j)" "s \<in> {SIGINT, SIGTERM}" and fuel: "m < fuel"
  shows "\<exists>r trace. worker_main fuel env_settings listen arrived present mt entropy w = Some (r, trace)
    \<and> (if \<exists>x. Engine_Created x \<in> set trace then last trace = Engine_Disposed else \<exists>e. fst r = Inl e)"
proof (cases env_settings)
  case (Inr st)
  obtain c where c: "configure_logging (log_level st) (environment st) None = Inr c"
    using configure_logging_idempotent [of "log_level st" "environment st" None] by blast
  show ?thesis
  proof (cases "listen (worker_metrics_port st)")
    case l: (Inr u)
    have flag: "shutdown_flag arrived k" if "m \<le> k" for k
      using shutdown_flag_stays [of s arrived j k] arrived(2,3) arrived(1) that by simp
    from worker_stops [of m "shutdown_flag arrived" fuel, OF flag fuel] obtain r
      where "worker_run fuel (shutdown_flag arrived) present st balance_registry (w\<lparr>rng := create_rng mt entropy (jitter_seed st)\<rparr>) = Some r"
      by blast
    then show ?thesis by (simp add: worker_main_def run_worker_def Inr c l)
  qed (simp add: worker_main_def Inr c)
qed (simp add: worker_main_def)

section \<open>A migration run\<close>

text \<open>The revisions: identifier, the one it revises, and the operations both ways.\<close>

record revision =
  rv_id :: py_str
  rv_down :: "py_str option"
  rv_upgrade :: "ddl list"
  rv_downgrade :: "ddl list"

definition revision_0001 :: revision where
  "revision_0001 = \<lparr>rv_id = ''0001'', rv_down = None, rv_upgrade = upgrade_0001, rv_downgrade = downgrade_0001\<rparr>"

definition revision_0002 :: revision where
  "revision_0002 = \<lparr>rv_id = ''0002'', rv_down = Some ''0001'', rv_upgrade = upgrade_0002, rv_downgrade = downgrade_0002\<rparr>"

definition revision_0003 :: revision where
  "revision_0003 = \<lparr>rv_id = ''0003'', rv_down = Some ''0002'', rv_upgrade = upgrade_0003, rv_downgrade = downgrade_0003\<rparr>"

definition revisions :: "revision list" where
  "revisions = [revision_0001, revision_0002, revision_0003]"

text \<open>The chain from a version up to the head, and from a version down to the base.\<close>

fun to_head :: "nat \<Rightarrow> revision list \<Rightarrow> py_str option \<Rightarrow> revision list" where
  "to_head 0 rs current = []"
| "to_head (Suc n) rs current =
     (case filter (\<lambda>r. rv_down r = current) rs of [] \<Rightarrow> [] | r # _ \<Rightarrow> r # to_head n rs (Some (rv_id r)))"

fun to_base :: "nat \<Rightarrow> revision list \<Rightarrow> py_str option \<Rightarrow> revision list" where
  "to_base 0 rs current = []"
| "to_base (Suc n) rs current =
     (case filter (\<lambda>r. Some (rv_id r) = current) rs of [] \<Rightarrow> [] | r # _ \<Rightarrow> r # to_base n rs (rv_down r))"

lemmas revision_defs = revisions_def revision_0001_def revision_0002_def revision_0003_def

text \<open>The revisions form one line: \<open>upgrade head\<close> from nothing runs all upgrades in order, \<open>downgrade base\<close> from the head all
  downgrades in reverse.\<close>

lemma one_line:
  "concat (map rv_upgrade (to_head (length revisions) revisions None)) = all_upgrades"
  "concat (map rv_downgrade (to_base (length revisions) revisions (Some ''0003''))) = all_downgrades"
  "distinct (map rv_id revisions)" "distinct (map rv_down revisions)"
  by (simp_all add: revision_defs all_upgrades_def all_downgrades_def)

record migration_options =
  mo_literal_binds :: bool
  mo_paramstyle :: "py_str option"
  mo_compare_type :: bool
  mo_compare_server_default :: bool
  mo_include_schemas :: bool

text \<open>Offline: the statements are printed for a URL, no database is touched.\<close>

definition run_migrations_offline ::
  "json option \<Rightarrow> (py_str \<times> py_str) list \<Rightarrow> exc + settings \<Rightarrow> ddl list \<Rightarrow> exc + (py_str \<times> migration_options \<times> ddl list)" where
  "run_migrations_offline programmatic overrides env_settings ds =
     bind_exc (migration_url programmatic overrides env_settings) (\<lambda>url.
       Inr (url, \<lparr>mo_literal_binds = True, mo_paramstyle = Some ''named'', mo_compare_type = True,
                  mo_compare_server_default = True, mo_include_schemas = False\<rparr>, ds))"

definition do_run_migrations :: "ddl list \<Rightarrow> catalog \<times> tables \<Rightarrow> migration_options \<times> (py_str option \<times> (catalog \<times> tables))" where
  "do_run_migrations ds db =
     (\<lparr>mo_literal_binds = False, mo_paramstyle = None, mo_compare_type = True, mo_compare_server_default = True,
       mo_include_schemas = False\<rparr>, run_migrations ds db)"

datatype migration_end = Not_Started exc | No_Connection exc | Rolled_Back py_str | Migrated

text \<open>Online: the URL goes into the section of the ini file that configures the engine; \<open>connect\<close> is the driver. The engine is
  disposed of on every way out, once it exists.\<close>

definition run_migrations_online ::
  "(py_str \<times> py_str) list \<Rightarrow> json option \<Rightarrow> (py_str \<times> py_str) list \<Rightarrow> exc + settings \<Rightarrow> ((py_str \<times> py_str) list \<Rightarrow> exc + unit)
     \<Rightarrow> ddl list \<Rightarrow> catalog \<times> tables \<Rightarrow> migration_end \<times> (catalog \<times> tables)" where
  "run_migrations_online ini_section programmatic overrides env_settings connect ds db =
     (case migration_url programmatic overrides env_settings of
        Inl e \<Rightarrow> (Not_Started e, db)
      | Inr url \<Rightarrow>
          (case connect (dict_set ini_section ''sqlalchemy.url'' url) of
             Inl e \<Rightarrow> (No_Connection e, db)
           | Inr _ \<Rightarrow> (case do_run_migrations ds db of
               (_, (Some code, db')) \<Rightarrow> (Rolled_Back code, db')
             | (_, (None, db')) \<Rightarrow> (Migrated, db'))))"

text \<open>A migration run is all or nothing: it reports success exactly when every statement ran, and otherwise leaves the database as
  it was.\<close>

lemma online_all_or_nothing:
  assumes "run_migrations_online sect programmatic overrides env_settings connect ds db = (out, db')"
  shows "if out = Migrated then alter_all ds db = Inr db' else db' = db"
  using assms
  by (auto simp: run_migrations_online_def do_run_migrations_def run_migrations_def split: sum.splits option.splits)

end
