(* ===== verification/App.thy ===== *)
theory App
  imports System Wiring
begin

text \<open>
  The HTTP application (\<open>api/app.py\<close>): the route tables of the four routers, the composition that dispatches a call to its
  endpoint, the correlation id around it (\<open>api/middleware.py\<close>), and the answer of every way out. What FastAPI and Starlette do
  -- matching a path against a template, converting and validating parameters and bodies, answering what no route takes, answering an
  exception -- is a record of parameters.
\<close>

section \<open>Calls and replies\<close>

text \<open>Header names are in lower case, as ASGI delivers them.\<close>

record http_call =
  hc_method :: py_str
  hc_path :: py_str
  hc_query :: py_str
  hc_headers :: "(py_str \<times> py_str) list"
  hc_body :: bytes

datatype payload = No_Body | Json_Body json | Text_Body py_str

record reply =
  re_status :: int
  re_headers :: "(py_str \<times> py_str) list"
  re_body :: payload

text \<open>The framework. \<open>fw_match template path\<close> are the path parameters when the path fits the template; the parsers answer \<open>None\<close> when
  validation of the types fails; \<open>fw_undecodable\<close> is the answer to a body that is no JSON where the endpoint declares one.\<close>

record framework =
  fw_match :: "py_str \<Rightarrow> py_str \<Rightarrow> (py_str \<times> py_str) list option"
  fw_unrouted :: "http_call \<Rightarrow> reply"
  fw_undecodable :: "http_call \<Rightarrow> reply option"
  fw_int :: "py_str \<Rightarrow> int option"
  fw_events_query :: "http_call \<Rightarrow> (event_filter \<times> int option \<times> int) option"
  fw_dlq_query :: "http_call \<Rightarrow> (dlq_status option \<times> int option \<times> int) option"
  fw_triage_in :: "http_call \<Rightarrow> py_str option option"
  fw_replay_in :: "http_call \<Rightarrow> replay_in option"
  fw_invalid :: "http_call \<Rightarrow> json"
  fw_server_error :: reply
  fw_exposition :: "metric list \<Rightarrow> py_str"
  fw_content_type :: py_str
  fw_isoformat :: "datetime \<Rightarrow> py_str"

section \<open>Routes\<close>

datatype endpoint =
    Healthz | Readyz | Ingest_Endpoint | List_Events | Get_Event | List_Dlq | Triage_Entry | Replay_Batch | Scrape

record route =
  rt_method :: py_str
  rt_template :: py_str
  rt_endpoint :: endpoint

definition route_of :: "py_str \<Rightarrow> py_str \<Rightarrow> endpoint \<Rightarrow> route" where
  "route_of m t e = \<lparr>rt_method = m, rt_template = t, rt_endpoint = e\<rparr>"

text \<open>\<open>APIRouter(prefix=...)\<close>.\<close>

definition api_router :: "py_str \<Rightarrow> route list \<Rightarrow> route list" where
  "api_router pre rs = map (\<lambda>r. r\<lparr>rt_template := pre @ rt_template r\<rparr>) rs"

definition health_router :: "route list" where
  "health_router = api_router [] [route_of ''GET'' ''/healthz'' Healthz, route_of ''GET'' ''/readyz'' Readyz]"

definition webhooks_router :: "route list" where
  "webhooks_router = api_router ''/v1/webhooks'' [route_of ''POST'' ''/{source}'' Ingest_Endpoint]"

definition admin_router :: "route list" where
  "admin_router = api_router ''/v1/admin''
     [route_of ''GET'' ''/events'' List_Events, route_of ''GET'' ''/events/{event_id}'' Get_Event,
      route_of ''GET'' ''/dlq'' List_Dlq, route_of ''POST'' ''/dlq/{entry_id}/{action}'' Triage_Entry,
      route_of ''POST'' ''/replay'' Replay_Batch]"

definition metrics_router :: "route list" where
  "metrics_router = api_router [] [route_of ''GET'' ''/metrics'' Scrape]"

definition routes :: "route list" where
  "routes = health_router @ webhooks_router @ admin_router @ metrics_router"

text \<open>The first route whose template and method fit, with its path parameters.\<close>

fun find_route :: "framework \<Rightarrow> http_call \<Rightarrow> route list \<Rightarrow> (endpoint \<times> (py_str \<times> py_str) list) option" where
  "find_route fw call [] = None"
| "find_route fw call (r # rs) =
     (case fw_match fw (rt_template r) (hc_path call) of
        Some params \<Rightarrow> if rt_method r = hc_method call then Some (rt_endpoint r, params) else find_route fw call rs
      | None \<Rightarrow> find_route fw call rs)"

definition path_param :: "(py_str \<times> py_str) list \<Rightarrow> py_str \<Rightarrow> py_str" where
  "path_param params name = (case map_of params name of None \<Rightarrow> [] | Some v \<Rightarrow> v)"

definition is_admin :: "endpoint \<Rightarrow> bool" where
  "is_admin e \<longleftrightarrow> e \<in> set (map rt_endpoint admin_router)"

text \<open>The endpoints with a JSON body parameter, which the framework decodes before it runs any dependency.\<close>

definition takes_json :: "endpoint \<Rightarrow> bool" where
  "takes_json e \<longleftrightarrow> e = Triage_Entry \<or> e = Replay_Batch"

section \<open>Answers as replies\<close>

definition reply_of :: "http_response \<Rightarrow> reply" where
  "reply_of r = \<lparr>re_status = rs_status r, re_headers = [],
     re_body = (case rs_body r of None \<Rightarrow> No_Body | Some j \<Rightarrow> Json_Body j)\<rparr>"

definition invalid_reply :: "framework \<Rightarrow> http_call \<Rightarrow> reply" where
  "invalid_reply fw call = \<lparr>re_status = 422, re_headers = [], re_body = Json_Body (fw_invalid fw call)\<rparr>"

text \<open>An \<open>HTTPException\<close> becomes its status and detail; the one of the admin guard also names the scheme it wants.\<close>

definition refusal_headers :: "int \<Rightarrow> (py_str \<times> py_str) list" where
  "refusal_headers code = (if code = 401 then [(''www-authenticate'', ADMIN_KEY_HEADER)] else [])"

definition reply_of_answer :: "framework \<Rightarrow> http_call \<Rightarrow> ('a \<Rightarrow> json) \<Rightarrow> 'a answer \<Rightarrow> reply" where
  "reply_of_answer fw call to_json a =
     (case a of
        Answer v \<Rightarrow> \<lparr>re_status = 200, re_headers = [], re_body = Json_Body (to_json v)\<rparr>
      | Refused code detail \<Rightarrow> \<lparr>re_status = code, re_headers = refusal_headers code,
          re_body = Json_Body (JObj [(''detail'', JStr detail)])\<rparr>
      | Invalid \<Rightarrow> invalid_reply fw call)"

definition answering :: "framework \<Rightarrow> http_call \<Rightarrow> ('a \<Rightarrow> json) \<Rightarrow> 'a answer prog \<Rightarrow> reply prog" where
  "answering fw call to_json p = bind_tx p (\<lambda>a. return_tx (reply_of_answer fw call to_json a))"

text \<open>A request whose parameters do not have the declared types: the guard runs, the handler does not.\<close>

definition guard_only :: "settings \<Rightarrow> py_str option \<Rightarrow> json_object answer prog" where
  "guard_only settings key = guarded settings key (Inl (ValueError ''validation'')) (\<lambda>_. return_tx [])"

section \<open>The endpoints\<close>

definition admin_key :: "http_call \<Rightarrow> py_str option" where
  "admin_key call = get_header (hc_headers call) ADMIN_KEY_HEADER"

definition json_list :: "json_object list \<Rightarrow> json" where
  "json_list os = JArr (map JObj os)"

fun triage_action_of :: "py_str \<Rightarrow> triage_action option" where
  "triage_action_of s = (if s = ''resolve'' then Some Resolve else if s = ''discard'' then Some Discard else None)"

definition to_request :: "http_call \<Rightarrow> py_str \<Rightarrow> http_request" where
  "to_request call source = \<lparr>rq_source = source, rq_body = hc_body call, rq_headers = hc_headers call\<rparr>"

definition scrape :: "framework \<Rightarrow> reply prog" where
  "scrape fw w = (Inr \<lparr>re_status = 200, re_headers = [(''content-type'', fw_content_type fw)],
     re_body = Text_Body (fw_exposition fw (metrics w))\<rparr>, w)"

definition list_events_endpoint :: "framework \<Rightarrow> settings \<Rightarrow> http_call \<Rightarrow> reply prog" where
  "list_events_endpoint fw settings call =
     (case fw_events_query fw call of
        None \<Rightarrow> answering fw call JObj (guard_only settings (admin_key call))
      | Some (f, limit, offset) \<Rightarrow>
          answering fw call json_list (list_events_route (fw_isoformat fw) settings (admin_key call) f limit offset))"

definition get_event_endpoint :: "framework \<Rightarrow> settings \<Rightarrow> http_call \<Rightarrow> py_str \<Rightarrow> reply prog" where
  "get_event_endpoint fw settings call event_id = answering fw call JObj
     (case fw_int fw event_id of
        None \<Rightarrow> guard_only settings (admin_key call)
      | Some i \<Rightarrow> get_event_route (fw_isoformat fw) settings (admin_key call) i)"

definition list_dlq_endpoint :: "framework \<Rightarrow> settings \<Rightarrow> http_call \<Rightarrow> reply prog" where
  "list_dlq_endpoint fw settings call =
     (case fw_dlq_query fw call of
        None \<Rightarrow> answering fw call JObj (guard_only settings (admin_key call))
      | Some (status, limit, offset) \<Rightarrow>
          answering fw call json_list (list_dlq_route (fw_isoformat fw) settings (admin_key call) status limit offset))"

definition triage_endpoint :: "framework \<Rightarrow> settings \<Rightarrow> http_call \<Rightarrow> py_str \<Rightarrow> py_str \<Rightarrow> reply prog" where
  "triage_endpoint fw settings call entry_id action = answering fw call JObj
     (case (fw_int fw entry_id, triage_action_of action, fw_triage_in fw call) of
        (Some i, Some a, Some nt) \<Rightarrow> triage_route (fw_isoformat fw) settings (admin_key call) i a nt
      | _ \<Rightarrow> guard_only settings (admin_key call))"

definition replay_endpoint ::
  "framework \<Rightarrow> (int \<Rightarrow> nat \<Rightarrow> 53 word) \<Rightarrow> (nat \<Rightarrow> 53 word) \<Rightarrow> settings \<Rightarrow> http_call \<Rightarrow> reply prog" where
  "replay_endpoint fw mt entropy settings call = answering fw call JObj
     (case fw_replay_in fw call of
        None \<Rightarrow> guard_only settings (admin_key call)
      | Some req \<Rightarrow> replay_route mt entropy settings (admin_key call) req)"

text \<open>What the endpoints use beside the framework: the primitives of the ingestion endpoint and of the generator of a replay.\<close>

record primitives =
  pm_hmac :: hmac
  pm_codecs :: codecs
  pm_mt :: "int \<Rightarrow> nat \<Rightarrow> 53 word"
  pm_entropy :: "nat \<Rightarrow> 53 word"

fun endpoint_prog :: "framework \<Rightarrow> primitives \<Rightarrow> settings \<Rightarrow> http_call \<Rightarrow> (py_str \<times> py_str) list \<Rightarrow> endpoint \<Rightarrow> reply prog" where
  "endpoint_prog fw pm st call ps Healthz = return_tx (reply_of healthz)"
| "endpoint_prog fw pm st call ps Readyz = bind_tx readyz (\<lambda>r. return_tx (reply_of r))"
| "endpoint_prog fw pm st call ps Ingest_Endpoint =
     bind_tx (ingest (pm_hmac pm) (pm_codecs pm) st (to_request call (path_param ps ''source''))) (\<lambda>r. return_tx (reply_of r))"
| "endpoint_prog fw pm st call ps List_Events = list_events_endpoint fw st call"
| "endpoint_prog fw pm st call ps Get_Event = get_event_endpoint fw st call (path_param ps ''event_id'')"
| "endpoint_prog fw pm st call ps List_Dlq = list_dlq_endpoint fw st call"
| "endpoint_prog fw pm st call ps Triage_Entry = triage_endpoint fw st call (path_param ps ''entry_id'') (path_param ps ''action'')"
| "endpoint_prog fw pm st call ps Replay_Batch = replay_endpoint fw (pm_mt pm) (pm_entropy pm) st call"
| "endpoint_prog fw pm st call ps Scrape = scrape fw"

definition dispatch_call :: "framework \<Rightarrow> primitives \<Rightarrow> settings \<Rightarrow> http_call \<Rightarrow> reply prog" where
  "dispatch_call fw pm st call =
     (case find_route fw call routes of
        None \<Rightarrow> return_tx (fw_unrouted fw call)
      | Some (e, ps) \<Rightarrow>
          (case if takes_json e then fw_undecodable fw call else None of
             Some rep \<Rightarrow> return_tx rep
           | None \<Rightarrow> endpoint_prog fw pm st call ps e))"

section \<open>The correlation id around a call\<close>

text \<open>The log context is the set of key-value pairs that go into every log record of the task. The middleware hands the
  application a context with the id alone, and leaves an empty one behind, exception or not. Anything but an HTTP scope passes.\<close>

type_synonym log_context = "(py_str \<times> py_str) list"

datatype scope = Http http_call | Lifespan

definition correlate ::
  "py_str \<Rightarrow> (scope \<Rightarrow> log_context \<Rightarrow> reply prog) \<Rightarrow> scope \<Rightarrow> log_context \<Rightarrow> world \<Rightarrow> ((exc + reply) \<times> log_context) \<times> world" where
  "correlate fresh app scope ctx w =
     (case scope of
        Http call \<Rightarrow>
          let cid = correlation_id (hc_headers call) fresh;
              (r, w') = app scope [(''correlation_id'', cid)] w
          in case r of
               Inl e \<Rightarrow> ((Inl e, []), w')
             | Inr rep \<Rightarrow> ((Inr (rep\<lparr>re_headers := response_headers (hc_headers call) fresh (re_headers rep)\<rparr>), []), w')
      | _ \<Rightarrow> let (r, w') = app scope ctx w in ((r, ctx), w'))"

text \<open>One call, from the outside: an exception that escapes the middleware is answered by the server-error layer around it; what is
  no \<open>Exception\<close>, a cancellation, is answered by nobody.\<close>

definition serve ::
  "framework \<Rightarrow> primitives \<Rightarrow> settings \<Rightarrow> py_str \<Rightarrow> http_call \<Rightarrow> log_context \<Rightarrow> world \<Rightarrow> (reply option \<times> log_context) \<times> world" where
  "serve fw pm st fresh call ctx w =
     (case correlate fresh (\<lambda>_ _. dispatch_call fw pm st call) (Http call) ctx w of
        ((Inl e, ctx'), w') \<Rightarrow> ((if is_Exception e then Some (fw_server_error fw) else None, ctx'), w')
      | ((Inr rep, ctx'), w') \<Rightarrow> ((Some rep, ctx'), w'))"

section \<open>The process\<close>

text \<open>\<open>AppState\<close> in the bag of the application, and its lookup.\<close>

record app_state =
  as_settings :: settings
  as_engine :: engine_options
  as_session_factory :: session_factory

definition STATE_ATTR :: py_str where "STATE_ATTR = ''webhook_receiver_state''"

definition get_app_state :: "(py_str \<times> app_state) list \<Rightarrow> exc + app_state" where
  "get_app_state bag = (case map_of bag STATE_ATTR of
     None \<Rightarrow> Inl (OtherError ''AttributeError'' STATE_ATTR) | Some s \<Rightarrow> Inr s)"

record application =
  ap_title :: py_str
  ap_version :: py_str
  ap_settings :: settings
  ap_routes :: "route list"

text \<open>\<open>create_app\<close>: the settings given, or those of the environment; logging; the routers in their order.\<close>

definition create_app :: "settings option \<Rightarrow> exc + settings \<Rightarrow> log_config option \<Rightarrow> exc + (application \<times> log_config)" where
  "create_app given env_settings before =
     bind_exc (case given of Some s \<Rightarrow> Inr s | None \<Rightarrow> env_settings) (\<lambda>resolved.
     bind_exc (configure_logging (log_level resolved) (environment resolved) before) (\<lambda>logging.
     Inr (\<lparr>ap_title = ''Idempotent Webhook Receiver'', ap_version = ''0.1.0'', ap_settings = resolved,
            ap_routes = health_router @ webhooks_router @ admin_router @ metrics_router\<rparr>, logging)))"

definition lifespan_startup :: "application \<Rightarrow> (py_str \<times> app_state) list \<Rightarrow> (py_str \<times> app_state) list \<times> lifecycle list" where
  "lifespan_startup app bag =
     (let engine = create_engine (ap_settings app);
          state = \<lparr>as_settings = ap_settings app, as_engine = engine, as_session_factory = create_session_factory engine\<rparr>
      in (dict_set bag STATE_ATTR state, [Engine_Created engine]))"

definition lifespan_shutdown :: "lifecycle list" where
  "lifespan_shutdown = [Engine_Disposed]"

text \<open>The calls one task serves one after the other, each with the id it may have to mint; the log context is handed on.\<close>

fun serve_all ::
  "framework \<Rightarrow> primitives \<Rightarrow> settings \<Rightarrow> (py_str \<times> http_call) list \<Rightarrow> log_context \<Rightarrow> world \<Rightarrow> (reply option list \<times> log_context) \<times> world" where
  "serve_all fw pm st [] ctx w = (([], ctx), w)"
| "serve_all fw pm st ((fresh, call) # calls) ctx w =
     (let ((rep, ctx1), w1) = serve fw pm st fresh call ctx w;
          ((reps, ctx2), w2) = serve_all fw pm st calls ctx1 w1
      in ((rep # reps, ctx2), w2))"

definition app_process ::
  "framework \<Rightarrow> primitives \<Rightarrow> application \<Rightarrow> (py_str \<times> http_call) list \<Rightarrow> world \<Rightarrow> exc + ((reply option list \<times> lifecycle list) \<times> world)" where
  "app_process fw pm app calls w =
     (let (bag, up) = lifespan_startup app []
      in bind_exc (get_app_state bag) (\<lambda>state.
         let ((reps, _), w') = serve_all fw pm (as_settings state) calls [] w
         in Inr ((reps, up @ lifespan_shutdown), w')))"

section \<open>Laws\<close>

lemma still_guarded: "(\<And>op. still (h op)) \<Longrightarrow> still (guarded st key v h)"
proof -
  assume h: "\<And>op. still (h op)"
  have "db_of (snd (guarded st key v h w)) = db_of w" for w
  proof (cases "guarded st key v h w" rule: prod.exhaust)
    case (Pair x w')
    then have "db_of w' = db_of w" by (cases rule: guarded_cases) (auto dest: stillD [OF h])
    with Pair show ?thesis by simp
  qed
  then show ?thesis by (simp add: still_def)
qed

lemma still_stmt: "(\<And>w. db_of (snd (f w)) = db_of w) \<Longrightarrow> still (stmt f)"
  by (auto simp: still_def stmt_def Let_def split: option.splits)

lemma still_reads:
  "still (list_events f limit offset)" "still (get_event i)" "still (list_entries s limit offset)"
  unfolding list_events_def get_event_def list_entries_def
  by (auto intro!: still_intros still_stmt split: option.splits)

lemma still_read_routes:
  "still (list_events_route fmt st key f limit offset)" "still (get_event_route fmt st key i)"
  "still (list_dlq_route fmt st key s limit offset)" "still (guard_only st key)"
  unfolding list_events_route_def get_event_route_def list_dlq_route_def guard_only_def
  by (auto intro!: still_guarded still_intros still_session_scope still_reads split: option.splits)

lemma still_readyz: "still readyz"
proof -
  have "still database_reachable"
    unfolding still_def database_reachable_def
    by (auto simp: query_def stmt_def Let_def split: option.splits)
  then show ?thesis unfolding readyz_def by (intro still_intros)
qed

lemma still_scrape: "still (scrape fw)"
  by (simp add: still_def scrape_def)

lemma still_answering: "still p \<Longrightarrow> still (answering fw call g p)"
  unfolding answering_def by (intro still_intros)

text \<open>Everything but a delivery, a triage and a replay only reads.\<close>

lemma still_endpoint:
  assumes "e \<notin> {Ingest_Endpoint, Triage_Entry, Replay_Batch}"
  shows "still (endpoint_prog fw pm st call ps e)"
  using assms
  by (cases e) (auto simp: list_events_endpoint_def get_event_endpoint_def list_dlq_endpoint_def
      intro!: still_intros still_answering still_read_routes still_readyz still_scrape split: option.splits prod.splits)

lemma moves_answering [moves_intros]: "moves reg st p \<Longrightarrow> moves reg st (answering fw call g p)"
  unfolding answering_def by (intro moves_intros)

lemma moves_endpoint: "moves balance_registry st (endpoint_prog fw pm st call ps e)"
proof (cases "e \<in> {Ingest_Endpoint, Triage_Entry, Replay_Batch}")
  case True
  then show ?thesis
    by (auto simp: triage_endpoint_def replay_endpoint_def
        intro!: moves_intros still_moves [OF still_read_routes(4)] split: option.splits)
next
  case False
  from still_moves [OF still_endpoint [OF this]] show ?thesis .
qed

lemma moves_dispatch_call: "moves balance_registry st (dispatch_call fw pm st call)"
  unfolding dispatch_call_def by (auto intro!: moves_intros moves_endpoint split: option.splits)

lemma serve_run:
  "serve fw pm st fresh call ctx w =
     (case dispatch_call fw pm st call w of
        (Inl e, w') \<Rightarrow> ((if is_Exception e then Some (fw_server_error fw) else None, []), w')
      | (Inr rep, w') \<Rightarrow> ((Some (rep\<lparr>re_headers := response_headers (hc_headers call) fresh (re_headers rep)\<rparr>), []), w'))"
  by (simp add: serve_def correlate_def Let_def split: prod.splits sum.splits)

lemma serve_state: "snd (serve fw pm st fresh call ctx w) = snd (dispatch_call fw pm st call w)"
  by (simp add: serve_run split: prod.splits sum.splits)

text \<open>What changes the database behind the guard holds the key.\<close>

lemma guarded_key:
  assumes "tables (snd (guarded st key v h w)) \<noteq> tables w"
  shows "key = Some (admin_api_key st)"
proof -
  obtain x w' where r: "guarded st key v h w = (x, w')" by (cases "guarded st key v h w")
  then show ?thesis by (cases rule: guarded_cases) (use assms r in auto)
qed

lemma answering_state: "snd (answering fw call g p w) = snd (p w)"
  by (auto simp: answering_def bind_tx_def return_tx_def split: prod.splits sum.splits)

lemma find_route_sound:
  "find_route fw call rs = Some (e, ps) \<Longrightarrow>
     \<exists>r \<in> set rs. rt_endpoint r = e \<and> rt_method r = hc_method call \<and> fw_match fw (rt_template r) (hc_path call) = Some ps"
  by (induction rs) (auto split: option.splits if_splits)

lemmas routers = routes_def health_router_def webhooks_router_def admin_router_def metrics_router_def api_router_def route_of_def

lemma routes_methods:
  "r \<in> set routes \<Longrightarrow> rt_method r = (if rt_endpoint r \<in> {Ingest_Endpoint, Triage_Entry, Replay_Batch} then ''POST'' else ''GET'')"
  by (auto simp: routers)

lemma is_admin_iff: "is_admin e \<longleftrightarrow> e \<in> {List_Events, Get_Event, List_Dlq, Triage_Entry, Replay_Batch}"
  by (auto simp: is_admin_def routers)

section \<open>Properties\<close>

text \<open>C18. Nothing changes the database but an authenticated call: a call to the application after which a table differs was a POST,
  routed either to the ingestion endpoint, with a body within the limit and a valid signature of the source in its path, or to
  triage or replay, with the configured admin key in its header.\<close>

theorem app_authenticated:
  assumes changed: "tables (snd (serve fw pm st fresh call ctx w)) \<noteq> tables w"
  shows "hc_method call = ''POST'' \<and> (\<exists>e ps. find_route fw call routes = Some (e, ps) \<and>
      (if e = Ingest_Endpoint
       then int (length (hc_body call)) \<le> max_payload_bytes st
         \<and> (\<exists>secret now. secret_for_source st (path_param ps ''source'') = Some secret
              \<and> verify_signature (pm_hmac pm) secret (hc_body call) (get_header (hc_headers call) SIGNATURE_HEADER) now
                  (signature_timestamp_tolerance_seconds st) = Inr ())
       else e \<in> {Triage_Entry, Replay_Batch} \<and> get_header (hc_headers call) ADMIN_KEY_HEADER = Some (admin_api_key st)))"
proof -
  from changed have d: "tables (snd (dispatch_call fw pm st call w)) \<noteq> tables w" by (simp add: serve_state)
  then obtain e ps where f: "find_route fw call routes = Some (e, ps)"
    and c: "tables (snd (endpoint_prog fw pm st call ps e w)) \<noteq> tables w"
    by (auto simp: dispatch_call_def return_tx_def split: option.splits if_splits)
  have e: "e \<in> {Ingest_Endpoint, Triage_Entry, Replay_Batch}"
    using still_endpoint [of e fw pm st call ps] c by (auto simp: still_def)
  have post: "hc_method call = ''POST''"
    using find_route_sound [OF f] routes_methods e by fastforce
  show ?thesis
  proof (cases "e = Ingest_Endpoint")
    case True
    let ?rq = "to_request call (path_param ps ''source'')"
    obtain x w' where r: "ingest (pm_hmac pm) (pm_codecs pm) st ?rq w = (x, w')"
      by (cases "ingest (pm_hmac pm) (pm_codecs pm) st ?rq w")
    with c True have "tables w' \<noteq> tables w" by (auto simp: bind_tx_def return_tx_def split: sum.splits)
    from r this stored_only_if_authentic [OF r this] f post True show ?thesis by (auto simp: to_request_def)
  next
    case False
    with e c have "get_header (hc_headers call) ADMIN_KEY_HEADER = Some (admin_api_key st)"
      by (auto simp: triage_endpoint_def replay_endpoint_def answering_state triage_route_def replay_route_def guard_only_def
          admin_key_def dest!: guarded_key split: option.splits)
    with f post e False show ?thesis by auto
  qed
qed


text \<open>The reply is the endpoint's with the correlation id appended, and the log context is empty afterwards, so no id leaks into the
  next call of the task; but an endpoint that raises is answered by the server-error layer outside the middleware, whose reply carries
  no id.\<close>

theorem app_replies:
  "fst (serve fw pm st fresh call ctx w) =
      ((case fst (dispatch_call fw pm st call w) of
          Inr r \<Rightarrow> Some (r\<lparr>re_headers := re_headers r @ [(''x-request-id'', correlation_id (hc_headers call) fresh)]\<rparr>)
        | Inl e \<Rightarrow> if is_Exception e then Some (fw_server_error fw) else None), [])"
proof -
  have "py_lower CORRELATION_ID_HEADER = ''x-request-id''" by code_simp
  then show ?thesis by (simp add: serve_run response_headers_def split: prod.splits sum.splits)
qed

text \<open>Two calls crash instead of being refused: an admin key that is not ASCII, which the comparison of the guard rejects by raising, and
  a replay whose range has one end with and one without a time zone, which the validator compares.\<close>

lemma serve_raises:
  assumes "find_route fw call routes = Some (e, ps)" "fw_undecodable fw call = None" "is_Exception x"
    and "fst (endpoint_prog fw pm st call ps e w) = Inl x"
  shows "fst (serve fw pm st fresh call ctx w) = (Some (fw_server_error fw), [])"
  using assms by (auto simp: serve_run dispatch_call_def split: prod.splits)

theorem non_ascii_key_crashes:
  assumes route: "find_route fw call routes = Some (e, ps)" "is_admin e" "fw_undecodable fw call = None"
    and key: "get_header (hc_headers call) ADMIN_KEY_HEADER = Some k" "\<not> is_ascii k"
  shows "fst (serve fw pm st fresh call ctx w) = (Some (fw_server_error fw), [])"
proof -
  let ?x = "TypeError ''comparing strings with non-ASCII characters is not supported''"
  have guard: "require_admin st (admin_key call) = Raised ?x"
    using key by (simp add: require_admin_def admin_key_def compare_digest_def)
  have a: "fst (answering fw call g (guarded st (admin_key call) v h) w) = Inl ?x" for g :: "'z \<Rightarrow> json" and v h
    by (simp add: answering_def bind_tx_def guarded_def guard raise_tx_def)
  have "fst (endpoint_prog fw pm st call ps e w) = Inl ?x"
    using route(2) unfolding is_admin_iff
    by (auto simp: list_events_endpoint_def get_event_endpoint_def list_dlq_endpoint_def triage_endpoint_def replay_endpoint_def
        list_events_route_def get_event_route_def list_dlq_route_def triage_route_def replay_route_def guard_only_def a
        split: option.splits prod.splits)
  then show ?thesis by (rule serve_raises [OF route(1,3), rotated]) simp
qed

theorem mixed_range_crashes:
  assumes route: "find_route fw call routes = Some (Replay_Batch, ps)" "fw_undecodable fw call = None"
    and key: "get_header (hc_headers call) ADMIN_KEY_HEADER = Some (admin_api_key st)" "is_ascii (admin_api_key st)"
    and req: "fw_replay_in fw call = Some \<lparr>ri_event_ids = None, ri_dead_lettered = False, ri_since = Some (Aware a),
        ri_until = Some (Naive b), ri_reason = None\<rparr>"
  shows "fst (serve fw pm st fresh call ctx w) = (Some (fw_server_error fw), [])"
proof -
  let ?x = "TypeError ''can't compare offset-naive and offset-aware datetimes''"
  have "fst (endpoint_prog fw pm st call ps Replay_Batch w) = Inl ?x"
    using key
    by (simp add: replay_endpoint_def answering_def bind_tx_def replay_route_def req guarded_def require_admin_def admin_key_def
        compare_digest_def replay_valid_def note_valid_def bind_exc_def exactly_one_selector_def raise_tx_def)
  then show ?thesis by (rule serve_raises [OF route(1,2), rotated]) simp
qed

lemma serve_steps: "sys_steps balance_registry st (db_of w) (db_of (snd (serve fw pm st fresh call ctx w)))"
  using moves_dispatch_call [of st fw pm call] by (simp add: moves_def serve_state)

lemma serve_all_steps:
  "serve_all fw pm st calls ctx w = ((reps, ctx'), w') \<Longrightarrow>
     length reps = length calls \<and> sys_steps balance_registry st (db_of w) (db_of w')"
proof (induction calls arbitrary: ctx w reps ctx' w')
  case (Cons c calls)
  obtain fresh call where c: "c = (fresh, call)" by (cases c)
  obtain rep ctx1 w1 where s: "serve fw pm st fresh call ctx w = ((rep, ctx1), w1)" by (metis prod.exhaust)
  obtain reps2 ctx2 w2 where a: "serve_all fw pm st calls ctx1 w1 = ((reps2, ctx2), w2)" by (metis prod.exhaust)
  have "reps = rep # reps2" "w2 = w'" using Cons.prems by (simp_all add: c s a)
  with Cons.IH [OF a] serve_steps [of st w fw pm fresh call ctx] s show ?case by (auto intro: rtranclp_trans)
qed simp

lemma still_await_turn: "still (await_turn present st deadline)"
proof -
  have c: "still (catch_exception p h)" if "still p" "\<And>e. still (h e)" for p :: "'a prog" and h
    unfolding still_def
  proof
    fix w
    obtain r w1 where r: "p w = (r, w1)" by (cases "p w")
    show "db_of (snd (catch_exception p h w)) = db_of w"
      using stillD [OF that(1) r] r that(2) by (cases r) (auto simp: catch_exception_def still_def)
  qed
  show ?thesis unfolding await_turn_def schema_probe_def
    by (auto intro!: still_intros c still_session_scope)
qed

lemma await_loop_still:
  "await_loop fuel shutdown present st deadline k waits w = Some (r, w') \<Longrightarrow> db_of w' = db_of w"
proof (induction fuel arbitrary: k waits w)
  case (Suc fuel)
  obtain x w1 where x: "await_turn present st deadline w = (x, w1)" by (cases "await_turn present st deadline w")
  from stillD [OF still_await_turn x] Suc.prems Suc.IH [of "Suc k" _ w1] x show ?case
    by (auto split: if_splits sum.splits bool.splits)
qed simp

lemma worker_run_steps:
  assumes "worker_run fuel shutdown present st reg w = Some (r, w')"
  shows "sys_steps reg st (db_of w) (db_of w')"
proof -
  obtain x w1 where a: "await_schema fuel shutdown present st w = Some (x, w1)"
    using assms by (auto simp: worker_run_def split: option.splits)
  let ?d = "bind_tx clock_now (\<lambda>now. lift_exc (add_seconds now (schema_wait_timeout_seconds st)))"
  obtain y w2 where d: "?d w = (y, w2)" by (cases "?d w")
  have "still ?d" by (intro still_intros)
  from stillD [OF this d] have "db_of w1 = db_of w"
    using a d await_loop_still [of fuel shutdown present st _ 0 "[]" w2 x w1] by (cases y) (auto simp: await_schema_def)
  with assms a show ?thesis
    by (auto simp: worker_run_def dest: moves_poll_loop split: sum.splits)
qed

section \<open>The composition\<close>

text \<open>C27. Both processes are runs of the system. Whatever calls an application serves, one reply or dropped connection each, and
  however the worker's process ends, what they did to the database -- failing, crashing or succeeding -- is a sequence of transactions
  of the step relation; so what holds of all interleavings of steps holds of any number of these processes. The application's engine
  is created before the first call and disposed of after the last.\<close>

theorem processes_are_runs:
  "(\<exists>reps w'. app_process fw pm app calls w = Inr ((reps, [Engine_Created (create_engine (ap_settings app)), Engine_Disposed]), w')
      \<and> length reps = length calls \<and> sys_steps balance_registry (ap_settings app) (db_of w) (db_of w'))
   \<and> (case worker_main fuel (Inr st) listen arrived present mt entropy w of
        None \<Rightarrow> True
      | Some ((_, w'), _) \<Rightarrow> sys_steps balance_registry st (db_of w) (db_of w'))"
proof
  obtain reps ctx' w' where s: "serve_all fw pm (ap_settings app) calls [] w = ((reps, ctx'), w')" by (metis prod.exhaust)
  have "app_process fw pm app calls w = Inr ((reps, [Engine_Created (create_engine (ap_settings app)), Engine_Disposed]), w')"
    by (simp add: app_process_def lifespan_startup_def lifespan_shutdown_def get_app_state_def bind_exc_def Let_def s)
  with serve_all_steps [OF s] show "\<exists>reps w'. app_process fw pm app calls w =
        Inr ((reps, [Engine_Created (create_engine (ap_settings app)), Engine_Disposed]), w')
      \<and> length reps = length calls \<and> sys_steps balance_registry (ap_settings app) (db_of w) (db_of w')" by blast
next
  show "case worker_main fuel (Inr st) listen arrived present mt entropy w of
        None \<Rightarrow> True
      | Some ((_, w'), _) \<Rightarrow> sys_steps balance_registry st (db_of w) (db_of w')"
    by (auto simp: worker_main_def run_worker_def dest!: worker_run_steps split: option.splits sum.splits)
qed

end
