(* ===== verification/Instruments.thy ===== *)
theory Instruments
  imports System
begin

text \<open>
  The metrics (\<open>obs/metrics.py\<close>): the families with their label names and buckets, the time series an increment goes to, and
  the values read off the log of increments; and which series the services can create. A series, once created, is kept for the life
  of the process, so the set of label values has to be bounded.
\<close>

section \<open>Families\<close>

datatype family_kind = Counter | Histogram "rat list"

record metric_family =
  mf_name :: py_str
  mf_labelnames :: "py_str list"
  mf_kind :: family_kind

definition INGEST_BUCKETS :: "rat list" where
  "INGEST_BUCKETS = [5 / 1000, 1 / 100, 25 / 1000, 5 / 100, 1 / 10, 1 / 4, 1 / 2, 1, 5 / 2]"

definition PROCESS_BUCKETS :: "rat list" where
  "PROCESS_BUCKETS = [1 / 100, 5 / 100, 1 / 10, 1 / 4, 1 / 2, 1, 5 / 2, 5, 10, 30]"

definition events_ingested :: metric_family where
  "events_ingested = \<lparr>mf_name = ''webhook_events_ingested_total'', mf_labelnames = [''source'', ''duplicate''], mf_kind = Counter\<rparr>"

definition events_rejected :: metric_family where
  "events_rejected = \<lparr>mf_name = ''webhook_events_rejected_total'', mf_labelnames = [''source'', ''reason''], mf_kind = Counter\<rparr>"

definition events_processed :: metric_family where
  "events_processed = \<lparr>mf_name = ''webhook_events_processed_total'', mf_labelnames = [''event_type'', ''outcome''], mf_kind = Counter\<rparr>"

definition events_retried :: metric_family where
  "events_retried = \<lparr>mf_name = ''webhook_events_retried_total'', mf_labelnames = [''event_type'', ''error_class''], mf_kind = Counter\<rparr>"

definition events_dead_lettered :: metric_family where
  "events_dead_lettered =
     \<lparr>mf_name = ''webhook_events_dead_lettered_total'', mf_labelnames = [''event_type'', ''reason''], mf_kind = Counter\<rparr>"

definition events_replayed :: metric_family where
  "events_replayed = \<lparr>mf_name = ''webhook_events_replayed_total'', mf_labelnames = [''outcome''], mf_kind = Counter\<rparr>"

definition ingest_latency :: metric_family where
  "ingest_latency = \<lparr>mf_name = ''webhook_ingest_duration_seconds'', mf_labelnames = [''source''], mf_kind = Histogram INGEST_BUCKETS\<rparr>"

definition process_latency :: metric_family where
  "process_latency =
     \<lparr>mf_name = ''webhook_process_duration_seconds'', mf_labelnames = [''event_type''], mf_kind = Histogram PROCESS_BUCKETS\<rparr>"

definition families :: "metric_family list" where
  "families = [events_ingested, events_rejected, events_processed, events_retried, events_dead_lettered, events_replayed,
     ingest_latency, process_latency]"

section \<open>Series\<close>

text \<open>\<open>.labels(...)\<close>: the family and the label values of an increment, in the order of the label names.\<close>

fun series :: "metric \<Rightarrow> metric_family \<times> py_str list" where
  "series (EventsIngested source duplicate) = (events_ingested, [source, if duplicate then ''true'' else ''false''])"
| "series (EventsRejected source reason) = (events_rejected, [source, reason])"
| "series (EventsProcessed event_type outcome) = (events_processed, [event_type, outcome])"
| "series (EventsRetried event_type error_class) = (events_retried, [event_type, error_class])"
| "series (EventsDeadLettered event_type reason) = (events_dead_lettered, [event_type, reason])"
| "series (EventsReplayed outcome) = (events_replayed, [outcome])"
| "series (IngestLatency source) = (ingest_latency, [source])"
| "series (ProcessLatency event_type seconds) = (process_latency, [event_type])"

definition counter_value :: "metric list \<Rightarrow> metric_family \<times> py_str list \<Rightarrow> nat" where
  "counter_value incs s = length (filter (\<lambda>m. series m = s) incs)"

text \<open>The value an increment observes, where the model knows it, and the cumulative count of a bucket.\<close>

fun observed :: "metric \<Rightarrow> rat option" where
  "observed (ProcessLatency event_type seconds) = Some seconds"
| "observed _ = None"

definition bucket_value :: "metric list \<Rightarrow> py_str \<Rightarrow> rat \<Rightarrow> nat" where
  "bucket_value incs event_type le = length (filter (\<lambda>m. series m = (process_latency, [event_type])
     \<and> (case observed m of None \<Rightarrow> False | Some x \<Rightarrow> x \<le> le)) incs)"

lemmas family_defs = events_ingested_def events_rejected_def events_processed_def events_retried_def events_dead_lettered_def
  events_replayed_def ingest_latency_def process_latency_def

text \<open>Every increment names as many label values as its family has labels; the names are distinct; the buckets increase, as
  prometheus_client demands.\<close>

lemma families_well_formed:
  "length (snd (series m)) = length (mf_labelnames (fst (series m)))" "fst (series m) \<in> set families"
  "distinct (map mf_name families)" "sorted_wrt (<) INGEST_BUCKETS" "sorted_wrt (<) PROCESS_BUCKETS"
proof -
  show "length (snd (series m)) = length (mf_labelnames (fst (series m)))" by (cases m) (simp_all add: family_defs)
  show "fst (series m) \<in> set families" by (cases m) (simp_all add: families_def)
  show "distinct (map mf_name families)" by (simp add: families_def family_defs)
  show "sorted_wrt (<) INGEST_BUCKETS" "sorted_wrt (<) PROCESS_BUCKETS" by (simp_all add: INGEST_BUCKETS_def PROCESS_BUCKETS_def)
qed

lemma bucket_mono: "a \<le> b \<Longrightarrow> bucket_value incs ty a \<le> bucket_value incs ty b"
  unfolding bucket_value_def by (induction incs) (auto split: option.splits)

lemma bucket_counter: "bucket_value incs ty b \<le> counter_value incs (process_latency, [ty])"
  unfolding bucket_value_def counter_value_def by (induction incs) auto

section \<open>What a program may count\<close>

definition emits :: "(metric \<Rightarrow> bool) \<Rightarrow> 'a prog \<Rightarrow> bool" where
  "emits P p \<longleftrightarrow> (\<forall>w. \<exists>new. metrics (snd (p w)) = metrics w @ new \<and> list_all P new)"

named_theorems emits_intros "programs whose increments satisfy a predicate"

lemma emitsD: "emits P p \<Longrightarrow> p w = (r, w') \<Longrightarrow> \<exists>new. metrics w' = metrics w @ new \<and> list_all P new"
  unfolding emits_def by (metis snd_conv)

lemma emits_quiet: "(\<And>w. metrics (snd (p w)) = metrics w) \<Longrightarrow> emits P p"
  unfolding emits_def by auto

lemma emits_append:
  assumes "\<exists>new. metrics v = metrics u @ new \<and> list_all P new" "\<exists>new. metrics w = metrics v @ new \<and> list_all P new"
  shows "\<exists>new. metrics w = metrics u @ new \<and> list_all P new"
  using assms by (metis append_assoc list_all_append)

lemma emits_bind [emits_intros]:
  assumes m: "emits P m" and f: "\<And>a. emits P (f a)"
  shows "emits P (bind_tx m f)"
  unfolding emits_def
proof
  fix w
  obtain r w1 where r: "m w = (r, w1)" by (cases "m w")
  show "\<exists>new. metrics (snd (bind_tx m f w)) = metrics w @ new \<and> list_all P new"
  proof (cases r)
    case (Inl e)
    with r emitsD [OF m r] show ?thesis by (simp add: bind_tx_def)
  next
    case (Inr a)
    have "\<exists>new. metrics (snd (f a w1)) = metrics w1 @ new \<and> list_all P new" using f [of a] by (simp add: emits_def)
    from emits_append [OF emitsD [OF m r] this] r Inr show ?thesis by (simp add: bind_tx_def)
  qed
qed

lemma emits_catch [emits_intros]:
  assumes m: "emits P m" and h: "\<And>e. emits P (h e)"
  shows "emits P (catch_exception m h)"
  unfolding emits_def
proof
  fix w
  obtain r w1 where r: "m w = (r, w1)" by (cases "m w")
  have "\<exists>new. metrics (snd (h e w1)) = metrics w1 @ new \<and> list_all P new" for e using h [of e] by (simp add: emits_def)
  from emits_append [OF emitsD [OF m r] this] emitsD [OF m r] r
  show "\<exists>new. metrics (snd (catch_exception m h w)) = metrics w @ new \<and> list_all P new"
    by (cases r) (simp_all add: catch_exception_def)
qed

text \<open>A rollback takes back rows, not increments.\<close>

lemma emits_session_scope [emits_intros]:
  assumes p: "emits P p" shows "emits P (session_scope p)"
  unfolding emits_def
proof
  fix w
  obtain r w1 where r: "p (begin_tx w) = (r, w1)" by (cases "p (begin_tx w)")
  have "metrics (snd (session_scope p w)) = metrics w1"
    using r by (cases r) (auto simp: session_scope_def Let_def split: option.splits fault.splits)
  with emitsD [OF p r] show "\<exists>new. metrics (snd (session_scope p w)) = metrics w @ new \<and> list_all P new" by simp
qed

lemma emits_inc [emits_intros]: "P m \<Longrightarrow> emits P (inc m)"
  by (simp add: emits_def inc_def)

lemma quiet_stmt: "(\<And>w. metrics (snd (f w)) = metrics w) \<Longrightarrow> metrics (snd (stmt f w)) = metrics w"
  by (auto simp: stmt_def Let_def split: option.splits)

lemma emits_simple [emits_intros]:
  "emits P (return_tx a)" "emits P (raise_tx e)" "emits P (lift_exc r)" "emits P clock_now" "emits P (draw_delay att b c)"
  "emits P (query q)" "emits P (query_by_id i g)" "emits P (modify u)"
  by (rule emits_quiet; auto simp: return_tx_def raise_tx_def lift_exc_def clock_now_def draw_delay_def query_def query_by_id_def
      modify_def intro!: quiet_stmt split: sum.splits option.splits)+

lemma emits_statements [emits_intros]:
  "emits P (record_attempt i n s f out c d)" "emits P (record_replay_request i who reason out2 now att)"
  "emits P (insert_dead_letter i why n)" "emits P (insert_account ref)" "emits P (claim_ledger_row i j k)"
  unfolding record_attempt_def record_replay_request_def insert_dead_letter_def insert_account_def claim_ledger_row_def
  by (rule emits_quiet; rule quiet_stmt; auto simp: Let_def split: prod.splits option.splits)+

lemma emits_queue [emits_intros]:
  "emits P (due_event_ids now limit)" "emits P (claim i now)" "emits P (load_for_update i)" "emits P (next_attempt_number i)"
  "emits P (requeue i now)" "emits P (mark_succeeded i n now)" "emits P (reschedule i n now err)" "emits P (latest_attempt_id i)"
  "emits P (dead_letter i n why)"
  unfolding due_event_ids_def claim_def load_for_update_def next_attempt_number_def requeue_def mark_succeeded_def reschedule_def
    latest_attempt_id_def dead_letter_def
  by (intro emits_intros)+

lemma emits_lock_entity [emits_intros]: "emits P (lock_entity ty i timeout)"
proof -
  have "metrics (snd (set_lock_timeout t w)) = metrics w" "metrics (snd (take_advisory_lock k w)) = metrics w" for t k w
    unfolding set_lock_timeout_def take_advisory_lock_def by (auto simp: Let_def return_tx_def raise_tx_def query_def intro!: quiet_stmt)
  then have q: "emits P (set_lock_timeout t)" "emits P (take_advisory_lock k)" for t k by (auto intro: emits_quiet)
  have e: "emits P (\<lambda>w. f (env w) w)" if "\<And>v. emits P (f v)" for f :: "env \<Rightarrow> unit prog"
    using that by (auto simp: emits_def)
  have "emits P (\<lambda>w. catch_exception (take_advisory_lock (advisory_lock_key (blake2b8 (env w)) ty i))
      (\<lambda>e. if is_lock_timeout e then raise_tx (LockContentionError (contention_message timeout ty i)) else raise_tx e) w)"
    by (rule e) (auto intro!: emits_intros q)
  then show ?thesis unfolding lock_entity_def by (intro emits_intros q)
qed

lemma emits_effect [emits_intros]: "emits P (apply_effect ev eff)"
  unfolding apply_effect_def apply_credit_def apply_set_balance_def account_id_def add_to_balance_def set_balance_def Let_def
  by (auto intro!: emits_intros split: effect.splits option.splits)

lemma emits_transitions [emits_intros]:
  "emits P (transition i target now nt)" "emits P (entry_for_event i)" "emits P (get_entry i)"
  unfolding transition_def get_entry_def entry_for_event_def update_entry_def
  by (auto intro!: emits_intros split: option.splits)

section \<open>Bounded labels\<close>

text \<open>The closed set of values of every label but the class of an error; a reason of the failure path is one of two.\<close>

fun bounded_labels :: "py_str set \<Rightarrow> metric \<Rightarrow> bool" where
  "bounded_labels known (EventsProcessed ty out) \<longleftrightarrow>
     ty \<in> insert UNKNOWN_EVENT_TYPE known \<and> out \<in> {''succeeded'', ''superseded''}"
| "bounded_labels known (EventsRetried ty cls) \<longleftrightarrow> ty \<in> insert UNKNOWN_EVENT_TYPE known"
| "bounded_labels known (EventsDeadLettered ty reason) \<longleftrightarrow>
     ty \<in> insert UNKNOWN_EVENT_TYPE known \<and> reason \<in> {''attempts exhausted'', ''non-retryable failure''}"
| "bounded_labels known (ProcessLatency ty s) \<longleftrightarrow> ty \<in> insert UNKNOWN_EVENT_TYPE known"
| "bounded_labels known (EventsReplayed out) \<longleftrightarrow> out \<in> {''succeeded'', ''skipped_already_processed'', ''failed''}"
| "bounded_labels known (EventsIngested s d) \<longleftrightarrow> False"
| "bounded_labels known (EventsRejected s r) \<longleftrightarrow> False"
| "bounded_labels known (IngestLatency s) \<longleftrightarrow> False"

lemma known_label: "known_event_type ty known \<in> insert UNKNOWN_EVENT_TYPE known"
  by (simp add: known_event_type_def)

lemma success_label: "attempt_outcome_value (SUCCESS r) \<in> {''succeeded'', ''superseded''}"
  by (cases r) simp_all

lemma replay_label: "replay_outcome_value r \<in> {''succeeded'', ''skipped_already_processed'', ''failed''}"
  by (cases r) simp_all

lemma emits_process_event [emits_intros]: "emits (bounded_labels (event_types reg)) (process_event i reg st)"
proof -
  let ?P = "bounded_labels (event_types reg)"
  have 1: "emits ?P (process_body i reg st s)" for s
    unfolding process_body_def process_apply_def Let_def
    using known_label success_label by (auto intro!: emits_intros split: option.splits)
  have 2: "emits ?P (record_failure i e reg st s)" for e s
    unfolding record_failure_def record_failure_body_def retry_or_bury_def Let_def
    using known_label by (auto intro!: emits_intros split: option.splits)
  show ?thesis unfolding process_event_def by (intro emits_intros 1 2)
qed

lemma emits_replay_event [emits_intros]: "emits (bounded_labels (event_types reg)) (replay_event i who why reg st)"
  unfolding replay_event_def replay_open_def replay_close_def mark_dlq_replaying_def settle_dlq_def
  using replay_label by (auto intro!: emits_intros simp: Let_def split: option.splits prod.splits)

lemma emits_replay_events [emits_intros]: "emits (bounded_labels (event_types reg)) (replay_events is who why reg st)"
  by (induction "is") (auto intro!: emits_intros)

lemma emits_poll_once [emits_intros]: "emits (bounded_labels (event_types reg)) (poll_once st reg)"
proof -
  have "emits (bounded_labels (event_types reg)) (process_batch ids reg st)" for ids
    by (induction ids) (auto intro!: emits_intros)
  then show ?thesis unfolding poll_once_def by (intro emits_intros)
qed

text \<open>The series a worker can create beside those of retries.\<close>

definition series_of_type :: "py_str \<Rightarrow> (metric_family \<times> py_str list) list" where
  "series_of_type ty =
     [(events_processed, [ty, ''succeeded'']), (events_processed, [ty, ''superseded'']),
      (events_dead_lettered, [ty, ''attempts exhausted'']), (events_dead_lettered, [ty, ''non-retryable failure'']),
      (process_latency, [ty])]"

definition series_of_replays :: "(metric_family \<times> py_str list) list" where
  "series_of_replays =
     [(events_replayed, [''succeeded'']), (events_replayed, [''skipped_already_processed'']), (events_replayed, [''failed''])]"

definition worker_series :: "py_str set \<Rightarrow> (metric_family \<times> py_str list) set" where
  "worker_series known = (\<Union>ty \<in> insert UNKNOWN_EVENT_TYPE known. set (series_of_type ty)) \<union> set series_of_replays"

lemma series_of_typeI:
  "out = ''succeeded'' \<or> out = ''superseded'' \<Longrightarrow> (events_processed, [ty, out]) \<in> set (series_of_type ty)"
  "out = ''attempts exhausted'' \<or> out = ''non-retryable failure'' \<Longrightarrow> (events_dead_lettered, [ty, out]) \<in> set (series_of_type ty)"
  "(process_latency, [ty]) \<in> set (series_of_type ty)"
  unfolding series_of_type_def by (elim disjE; simp only: list.set insert_iff simp_thms)+ simp

lemma series_of_replaysI:
  "out = ''succeeded'' \<or> out = ''skipped_already_processed'' \<or> out = ''failed'' \<Longrightarrow> (events_replayed, [out]) \<in> set series_of_replays"
  unfolding series_of_replays_def by (elim disjE; simp only: list.set insert_iff simp_thms)

lemma bounded_series:
  assumes "bounded_labels known m" shows "fst (series m) = events_retried \<or> series m \<in> worker_series known"
  using assms unfolding worker_series_def
  by (cases m) (simp_all only: bounded_labels.simps series.simps insert_iff empty_iff simp_thms fst_conv,
    (blast intro: series_of_typeI series_of_replaysI)+)

lemma card_worker_series:
  assumes "finite known"
  shows "finite (worker_series known)" "card (worker_series known) \<le> 5 * (card known + 1) + 3"
proof -
  let ?K = "insert UNKNOWN_EVENT_TYPE known"
  show "finite (worker_series known)" using assms by (simp add: worker_series_def)
  have five: "card (set (series_of_type ty)) \<le> 5" for ty
    by (rule order_trans [OF card_length]) (simp add: series_of_type_def)
  have three: "card (set series_of_replays) \<le> 3"
    by (rule order_trans [OF card_length]) (simp add: series_of_replays_def)
  have "card (\<Union>ty \<in> ?K. set (series_of_type ty)) \<le> (\<Sum>ty \<in> ?K. card (set (series_of_type ty)))" using assms by (intro card_UN_le) simp
  also have "\<dots> \<le> card ?K * 5" using sum_bounded_above [of ?K "\<lambda>ty. card (set (series_of_type ty))" 5] five by simp
  also have "\<dots> \<le> (card known + 1) * 5" using assms by (simp add: card_insert_if)
  finally have "card (\<Union>ty \<in> ?K. set (series_of_type ty)) \<le> (card known + 1) * 5" .
  moreover have "card (worker_series known) \<le> card (\<Union>ty \<in> ?K. set (series_of_type ty)) + card (set series_of_replays)"
    unfolding worker_series_def by (rule card_Un_le)
  ultimately show "card (worker_series known) \<le> 5 * (card known + 1) + 3" using three by simp
qed

lemma few_series:
  assumes "emits (bounded_labels (event_types reg)) p"
  shows "\<exists>new. metrics (snd (p w)) = metrics w @ new
    \<and> card (series ` {m \<in> set new. fst (series m) \<noteq> events_retried}) \<le> 5 * (card (event_types reg) + 1) + 3"
proof -
  from assms obtain new where n: "metrics (snd (p w)) = metrics w @ new" "list_all (bounded_labels (event_types reg)) new"
    unfolding emits_def by blast
  have fin: "finite (event_types reg)" by (simp add: event_types_def)
  have "series ` {m \<in> set new. fst (series m) \<noteq> events_retried} \<subseteq> worker_series (event_types reg)"
    using n(2) bounded_series by (fastforce simp: list_all_iff)
  from card_mono [OF card_worker_series(1) [OF fin] this] card_worker_series(2) [OF fin] n(1) show ?thesis by fastforce
qed

section \<open>Properties\<close>

text \<open>C13. The worker's and the replay's series are bounded by the handlers, not by the traffic: whatever events are stored, a poll or
  a batch of replays only appends increments, and those beside the retries (whose second label is an exception's class) fall into at
  most \<open>5 * (n + 1) + 3\<close> time series for \<open>n\<close> registered event types, an unregistered type being counted as \<open>unknown\<close>.\<close>

theorem labels_bounded:
  "(\<exists>new. metrics (snd (poll_once st reg w)) = metrics w @ new
      \<and> card (series ` {m \<in> set new. fst (series m) \<noteq> events_retried}) \<le> 5 * (card (event_types reg) + 1) + 3)
   \<and> (\<exists>new. metrics (snd (replay_events ids who why reg st w)) = metrics w @ new
      \<and> card (series ` {m \<in> set new. fst (series m) \<noteq> events_retried}) \<le> 5 * (card (event_types reg) + 1) + 3)"
  by (intro conjI few_series emits_poll_once emits_replay_events)

text \<open>The ingestion endpoint has no such bound: a delivery to a source nobody configured creates two series under the name in its
  path.\<close>

theorem unknown_source_counted:
  assumes "secret_for_source st (rq_source rq) = None" "int (length (rq_body rq)) \<le> max_payload_bytes st"
  shows "metrics (snd (ingest hmac c st rq w)) =
    metrics w @ [EventsRejected (rq_source rq) ''unauthorized'', IngestLatency (rq_source rq)]"
  using assms by (simp add: ingest_def ingest_block_def reject_def timed_def bind_tx_def inc_def return_tx_def)

text \<open>A counter is no ledger: the increment for a processed event stays when the commit of its pass fails and everything else is
  rolled back, so a later pass counts the same event again.\<close>

theorem counted_before_commit:
  assumes body: "process_body i reg st s (begin_tx w) = (Inr r, w1)" and out: "pr_outcome r = Some out"
    and fails: "faults (env w1) (stmts w1) = Some (Fails e)"
  shows "tables (snd (session_scope (process_body i reg st s) w)) = tables w
    \<and> (\<exists>ty. EventsProcessed ty (attempt_outcome_value out) \<in> set (metrics (snd (session_scope (process_body i reg st s) w))))"
proof -
  obtain ev w0 where "process_apply reg st s ev w0 = (Inr r, w1)"
    using body out by (auto simp: process_body_def prog_ok NOT_CLAIMED_def return_tx_def split: option.splits)
  then have "\<exists>ty. EventsProcessed ty (attempt_outcome_value out) \<in> set (metrics w1)"
    using out by (auto simp: process_apply_def prog_ok inc_def return_tx_def Let_def)
  with body fails show ?thesis by (simp add: session_scope_def Let_def)
qed

end
