(* ===== verification/Scenario_App.thy ===== *)
theory Scenario_App
  imports Scenario_System App Instruments
begin

text \<open>
  The demo deployment behind its application: a router that matches paths segment by segment, parsers that take anything, and
  calls from the outside. The theorems on the composed processes run on them.
\<close>

fun segments_from :: "py_str \<Rightarrow> py_str \<Rightarrow> py_str list" where
  "segments_from acc [] = [rev acc]"
| "segments_from acc (c # cs) = (if c = CHR 0x2F then rev acc # segments_from [] cs else segments_from (c # acc) cs)"

abbreviation segments :: "py_str \<Rightarrow> py_str list" where
  "segments \<equiv> segments_from []"

fun fits :: "py_str list \<Rightarrow> py_str list \<Rightarrow> (py_str \<times> py_str) list option" where
  "fits [] [] = Some []"
| "fits (t # ts) (s # ss) =
     (if t \<noteq> [] \<and> hd t = CHR 0x7B then if s = [] then None else map_option ((#) (butlast (tl t), s)) (fits ts ss)
      else if t = s then fits ts ss else None)"
| "fits _ _ = None"

definition demo_framework :: framework where
  "demo_framework = \<lparr>fw_match = (\<lambda>t p. fits (segments t) (segments p)),
     fw_unrouted = (\<lambda>_. \<lparr>re_status = 404, re_headers = [], re_body = Json_Body (JObj [(''detail'', JStr ''Not Found'')])\<rparr>),
     fw_undecodable = (\<lambda>_. None), fw_int = (\<lambda>_. Some 1),
     fw_events_query = (\<lambda>_. Some (every_event, None, 0)), fw_dlq_query = (\<lambda>_. Some (None, None, 0)),
     fw_triage_in = (\<lambda>_. Some None), fw_replay_in = (\<lambda>_. Some two_ids), fw_invalid = (\<lambda>_. JNull),
     fw_server_error = \<lparr>re_status = 500, re_headers = [], re_body = Text_Body ''Internal Server Error''\<rparr>,
     fw_exposition = (\<lambda>_. []), fw_content_type = ''text/plain'', fw_isoformat = plain_time\<rparr>"

definition demo_primitives :: primitives where
  "demo_primitives = \<lparr>pm_hmac = demo_hmac, pm_codecs = demo_codecs, pm_mt = (\<lambda>_ _. 0), pm_entropy = (\<lambda>_. 0)\<rparr>"

definition delivery_call :: http_call where
  "delivery_call = \<lparr>hc_method = ''POST'', hc_path = ''/v1/webhooks/acme'', hc_query = [],
     hc_headers = rq_headers demo_request, hc_body = rq_body demo_request\<rparr>"

definition keyless_call :: http_call where
  "keyless_call = \<lparr>hc_method = ''POST'', hc_path = ''/v1/admin/dlq/7/discard'', hc_query = [], hc_headers = [(''x-request-id'', ''abc'')],
     hc_body = []\<rparr>"

abbreviation demo_serve :: "http_call \<Rightarrow> world \<Rightarrow> (reply option \<times> log_context) \<times> world" where
  "demo_serve call \<equiv> serve demo_framework demo_primitives demo_settings ''fresh'' call []"

lemma demo_fields:
  "fw_match demo_framework t p = fits (segments t) (segments p)" "fw_undecodable demo_framework call = None"
  "pm_hmac demo_primitives = demo_hmac" "pm_codecs demo_primitives = demo_codecs"
  by (simp_all add: demo_framework_def demo_primitives_def)

lemma demo_routes:
  "find_route demo_framework delivery_call routes = Some (Ingest_Endpoint, [(''source'', ''acme'')])"
  "find_route demo_framework keyless_call routes = Some (Triage_Entry, [(''entry_id'', ''7''), (''action'', ''discard'')])"
  by (simp_all add: routers demo_fields delivery_call_def keyless_call_def)

lemma delivery_request: "to_request delivery_call ''acme'' = demo_request"
  by (simp add: to_request_def delivery_call_def demo_request_def)

theorem app_authenticated_witness:
  "\<exists>e ps. find_route demo_framework delivery_call routes = Some (e, ps)
     \<and> (if e = Ingest_Endpoint then secret_for_source demo_settings (path_param ps ''source'') \<noteq> None else e \<in> {Triage_Entry, Replay_Batch})"
proof -
  have "tables stored_world \<noteq> tables start_world"
    using stored_keys by (auto simp: start_world_def no_rows_def)
  moreover have "snd (demo_serve delivery_call start_world) = stored_world"
    by (simp add: serve_state dispatch_call_def demo_routes demo_fields takes_json_def path_param_def delivery_request
        bind_tx_def return_tx_def demo_ingest_run)
  ultimately have "tables (snd (demo_serve delivery_call start_world)) \<noteq> tables start_world" by simp
  from app_authenticated [OF this] show ?thesis by (auto split: if_splits)
qed


theorem worker_main_stops_witness:
  "\<exists>r. worker_main 3 (Inr demo_settings) (\<lambda>_. Inr ()) (\<lambda>k. if k = 2 then [Other_Signal 1, SIGTERM] else []) (\<lambda>_. True)
      (\<lambda>_ _. 0) (\<lambda>_. 0) ingested = Some r"
  using worker_main_stops [of 2 2 SIGTERM "\<lambda>k. if k = 2 then [Other_Signal 1, SIGTERM] else []" 3] by fastforce

end
