(* ===== verification/Anomalies.thy ===== *)
theory Anomalies
  imports Replay DbObjects
begin

text \<open>
  What the program does at the edges of its own argument: an acknowledgement lost between the commit and the worker, an entry
  that has been ruled on and fails again, a batch of entries that no replay can cure. Nothing here moves money twice --
  that is proved elsewhere -- but the bookkeeping around the money is not what a reader of the comments expects.
\<close>

section \<open>A lost acknowledgement\<close>

lemma process_event_cases:
  assumes run: "process_event i reg st w = (Inr r, w')"
  obtains (through) "session_scope (process_body i reg st (app_clock (env w) (ticks w))) (w\<lparr>ticks := Suc (ticks w)\<rparr>) = (Inr r, w')"
  | (failed) e w0 where "is_Exception e"
      "session_scope (process_body i reg st (app_clock (env w) (ticks w))) (w\<lparr>ticks := Suc (ticks w)\<rparr>) = (Inl e, w0)"
      "record_failure i e reg st (app_clock (env w) (ticks w)) w0 = (Inr r, w')"
proof -
  let ?s = "app_clock (env w) (ticks w)" and ?w = "w\<lparr>ticks := Suc (ticks w)\<rparr>"
  have c: "clock_now w = (Inr ?s, ?w)" by (simp add: clock_now_def)
  obtain x w0 where ss: "session_scope (process_body i reg st ?s) ?w = (x, w0)" by (cases "session_scope (process_body i reg st ?s) ?w")
  show thesis
  proof (cases x)
    case (Inl e)
    with run c ss show thesis by (intro failed [of e w0]) (auto simp: process_event_def bind_tx_def catch_exception_def split: if_splits)
  next
    case (Inr q)
    with run c ss show thesis by (intro through) (auto simp: process_event_def bind_tx_def catch_exception_def)
  qed
qed

lemma record_failure_at:
  assumes run: "record_failure i e reg st s w = (Inr r, w')"
    and row: "find_row (\<lambda>e. ev_id e = i) (webhook_event_t (tables w)) = Some row"
  shows "ledger_entry_t (tables w') = ledger_entry_t (tables w)" (is ?ledger)
    and "\<exists>row' a. find_row (\<lambda>e. ev_id e = i) (webhook_event_t (tables w')) = Some row'
      \<and> ev_status row' = (if is_retryable e \<and> ev_attempt_count row + 1 < max_attempts st then PENDING else DEAD_LETTERED)
      \<and> ev_attempt_count row' = ev_attempt_count row + 1
      \<and> processing_attempt_t (tables w') = processing_attempt_t (tables w) @ [a] \<and> pa_event_id a = i
      \<and> pa_outcome a = Some (failure_outcome e)" (is ?row)
proof -
  from run obtain w1 where b: "record_failure_body i e reg st s (begin_tx w) = (Inr r, w1)" and t: "tables w' = tables w1"
    unfolding record_failure_def by (cases rule: session_scope_cases) auto
  have "?ledger \<and> ?row"
  proof (cases rule: record_failure_body_ok [OF b])
    case 1
    with row show ?thesis by (auto simp: event_ids_def dest: find_row_Some)
  next
    case (2 row2 n f delay nxt)
    have r: "row2 = row" using 2(1) row by simp
    show ?thesis
      unfolding t 2(9) r using 2(2,3) row
      by (subst find_updated_event) (auto simp: rescheduled_def attempt_row_def failure_outcome_def r)
  next
    case (3 row2 n f m)
    have r: "row2 = row" using 3(1) row by simp
    show ?thesis
      unfolding t 3(6) r using 3(2) row
      by (subst find_updated_event) (auto simp: dead_lettered_def attempt_row_def r)
  qed
  then show ?ledger ?row by simp_all
qed


section \<open>A failure before the claim\<close>

lemma scope_pass:
  assumes inv: "db_inv (tables w) (seqs w)"
    and run: "session_scope (process_body i reg st s) w = (x, w0)"
    and row: "find_row (\<lambda>e. ev_id e = i) (webhook_event_t (tables w)) = Some row"
  obtains (nothing) "tables w0 = tables w" "\<And>r. x = Inr r \<Longrightarrow> \<not> claimed r"
  | (finished) row0 where "ev_status row = PENDING" "find_row (\<lambda>e. ev_id e = i) (webhook_event_t (tables w0)) = Some row0"
      "ev_status row0 = SUCCEEDED" "ev_attempt_count row0 = ev_attempt_count row + 1"
  using run
proof (cases rule: session_scope_cases)
  case (committed q w1)
  have inv': "db_inv (tables (begin_tx w)) (seqs (begin_tx w))" using inv by simp
  have t: "tables w0 = tables w1" using committed(2) by simp
  have k: "keys_ok (tables w) (seqs w)" using inv by (simp add: db_inv_def)
  show ?thesis
  proof (cases rule: process_body_ok [OF inv' committed(1)])
    case 1
    show ?thesis by (rule nothing) (use 1 t committed(3) in \<open>auto simp: NOT_CLAIMED_def claimed_def\<close>)
  next
    case (2 row2 eff res wa wb n f)
    have ia: "db_inv (tables wa) (seqs wa)" using 2(5,6) inv by simp
    have r: "row2 = row" using find_event [OF k] 2(1,2) row by simp
    have ev: "webhook_event_t (tables wb) = webhook_event_t (tables w)" using apply_effect_other(1) [OF ia 2(8)] 2(5) by simp
    show ?thesis
    proof (rule finished)
      show "ev_status row = PENDING" using 2(3) by (simp add: r is_due_def)
      show "find_row (\<lambda>e. ev_id e = i) (webhook_event_t (tables w0)) = Some (succeeded_event (ev_attempt_count row + 1) f row)"
        unfolding t 2(11) r by (rule find_updated_event) (simp_all add: ev row succeeded_event_def)
    qed (simp_all add: succeeded_event_def)
  qed
next
  case (rolled_back e r1 w1)
  show ?thesis by (rule nothing) (use rolled_back in simp_all)
qed

text \<open>C25. A pass that never owned the event can reopen it. When the event was not waiting -- another worker had finished it, say --
  and the pass still records an outcome, its claim had failed on the way: the finished event is queued again or
  dead-lettered, one more attempt spent and recorded, its ledger untouched.\<close>

theorem unclaimed_failure_reopens:
  assumes inv: "db_inv (tables w) (seqs w)"
    and run: "process_event i reg st w = (Inr r, w')" and outcome: "claimed r"
    and row: "find_row (\<lambda>e. ev_id e = i) (webhook_event_t (tables w)) = Some row" and settled: "ev_status row \<noteq> PENDING"
  shows "\<exists>row' b e.
      find_row (\<lambda>e. ev_id e = i) (webhook_event_t (tables w')) = Some row'
    \<and> ev_status row' = (if is_retryable e \<and> ev_attempt_count row + 1 < max_attempts st then PENDING else DEAD_LETTERED)
    \<and> ev_attempt_count row' = ev_attempt_count row + 1
    \<and> processing_attempt_t (tables w') = processing_attempt_t (tables w) @ [b] \<and> pa_outcome b = Some (failure_outcome e)
    \<and> ledger_entry_t (tables w') = ledger_entry_t (tables w) \<and> account_t (tables w') = account_t (tables w)"
  using run
proof (cases rule: process_event_cases)
  case through
  have inv': "db_inv (tables (w\<lparr>ticks := Suc (ticks w)\<rparr>)) (seqs (w\<lparr>ticks := Suc (ticks w)\<rparr>))" using inv by simp
  from inv' through show ?thesis
    by (cases rule: scope_pass [of _ i reg st _ _ _ row]) (use row settled outcome in auto)
next
  case (failed e w0)
  have inv': "db_inv (tables (w\<lparr>ticks := Suc (ticks w)\<rparr>)) (seqs (w\<lparr>ticks := Suc (ticks w)\<rparr>))" using inv by simp
  have "tables w0 = tables w"
    using inv' failed(2) by (cases rule: scope_pass [of _ i reg st _ _ _ row]) (use row settled in auto)
  with record_failure_at [OF failed(3), of row] record_failure_ledger(2) [OF failed(3)] row show ?thesis by metis
qed

section \<open>Retries end\<close>

fun passes :: "nat \<Rightarrow> int \<Rightarrow> registry \<Rightarrow> settings \<Rightarrow> process_result list prog" where
  "passes 0 i reg st = return_tx []"
| "passes (Suc n) i reg st = bind_tx (process_event i reg st) (\<lambda>r. bind_tx (passes n i reg st) (\<lambda>rs. return_tx (r # rs)))"

text \<open>After a pass that recorded an outcome the event is settled, or waits with budget left; every such pass spends an attempt.\<close>

lemma claimed_pass:
  assumes inv: "db_inv (tables w) (seqs w)"
    and run: "process_event i reg st w = (Inr r, w')" and outcome: "claimed r"
    and row: "find_row (\<lambda>e. ev_id e = i) (webhook_event_t (tables w)) = Some row"
  obtains row' where "find_row (\<lambda>e. ev_id e = i) (webhook_event_t (tables w')) = Some row'"
    "ev_attempt_count row + 1 \<le> ev_attempt_count row'"
    "ev_status row' = PENDING \<and> ev_attempt_count row' < max_attempts st \<or> ev_status row' = SUCCEEDED \<or> ev_status row' = DEAD_LETTERED"
  using run
proof (cases rule: process_event_cases)
  case through
  have inv': "db_inv (tables (w\<lparr>ticks := Suc (ticks w)\<rparr>)) (seqs (w\<lparr>ticks := Suc (ticks w)\<rparr>))" using inv by simp
  from inv' through show ?thesis
    by (cases rule: scope_pass [of _ i reg st _ _ _ row]) (use row outcome in \<open>auto intro: that\<close>)
next
  case (failed e w0)
  have inv': "db_inv (tables (w\<lparr>ticks := Suc (ticks w)\<rparr>)) (seqs (w\<lparr>ticks := Suc (ticks w)\<rparr>))" using inv by simp
  obtain row0 where r0: "find_row (\<lambda>e. ev_id e = i) (webhook_event_t (tables w0)) = Some row0" "ev_attempt_count row \<le> ev_attempt_count row0"
    using inv' failed(2) by (cases rule: scope_pass [of _ i reg st _ _ _ row]) (use row in auto)
  obtain row' where "find_row (\<lambda>e. ev_id e = i) (webhook_event_t (tables w')) = Some row'"
    "ev_status row' = (if is_retryable e \<and> ev_attempt_count row0 + 1 < max_attempts st then PENDING else DEAD_LETTERED)"
    "ev_attempt_count row' = ev_attempt_count row0 + 1"
    using record_failure_at(2) [OF failed(3) r0(1)] by blast
  with r0(2) show ?thesis by (intro that) (auto split: if_splits)
qed

text \<open>C10. No event is retried forever. However often and at whatever cost it fails, once passes that record an outcome have used up the
  retry budget the event is settled: succeeded or dead-lettered.\<close>

theorem no_endless_retry:
  assumes inv: "db_inv (tables w) (seqs w)"
    and run: "passes n i reg st w = (Inr rs, w')" and all: "list_all claimed rs" and some: "0 < n"
    and row: "find_row (\<lambda>e. ev_id e = i) (webhook_event_t (tables w)) = Some row"
    and budget: "max_attempts st \<le> ev_attempt_count row + int n"
  shows "\<exists>row'. find_row (\<lambda>e. ev_id e = i) (webhook_event_t (tables w')) = Some row'
    \<and> (ev_status row' = SUCCEEDED \<or> ev_status row' = DEAD_LETTERED)"
proof -
  have "\<exists>row'. find_row (\<lambda>e. ev_id e = i) (webhook_event_t (tables w')) = Some row' \<and> ev_attempt_count row + int n \<le> ev_attempt_count row'
      \<and> (n = 0 \<or> ev_status row' = PENDING \<and> ev_attempt_count row' < max_attempts st \<or> ev_status row' = SUCCEEDED \<or> ev_status row' = DEAD_LETTERED)"
    using inv run all row
  proof (induction n arbitrary: w rs row)
    case 0
    then show ?case by (simp add: return_tx_def)
  next
    case (Suc n)
    then obtain r w1 rs' where step: "process_event i reg st w = (Inr r, w1)" "passes n i reg st w1 = (Inr rs', w')" "rs = r # rs'"
      by (auto simp: tx_simps)
    have inv1: "db_inv (tables w1) (seqs w1)" using keepsD [OF keeps_process_event step(1) Suc.prems(1)] .
    have cl: "claimed r" "list_all claimed rs'" using Suc.prems(3) step(3) by simp_all
    obtain row1 where row1: "find_row (\<lambda>e. ev_id e = i) (webhook_event_t (tables w1)) = Some row1"
      "ev_attempt_count row + 1 \<le> ev_attempt_count row1"
      "ev_status row1 = PENDING \<and> ev_attempt_count row1 < max_attempts st \<or> ev_status row1 = SUCCEEDED \<or> ev_status row1 = DEAD_LETTERED"
      using claimed_pass [OF Suc.prems(1) step(1) cl(1) Suc.prems(4)] .
    from Suc.IH [OF inv1 step(2) cl(2) row1(1)] row1(2,3) show ?case
      by (cases "n = 0") (use step(2) row1(1) in \<open>auto simp: return_tx_def\<close>)
  qed
  with some budget show ?thesis by auto
qed

section \<open>A second failure of a judged event\<close>

text \<open>C26. A new failure of a judged event gets no new decision. When the entry of an event is resolved or discarded, and the event --
  replayed, or reopened -- fails for good again, it is dead-lettered but the entry stays as it was: there is no open
  entry for it, the open view does not list it and a replay of the queue will not find it.\<close>

theorem refailure_unseen:
  assumes inv: "db_inv (tables w) (seqs w)"
    and run: "record_failure i e reg st s w = (Inr r, w')"
    and row: "find_row (\<lambda>e. ev_id e = i) (webhook_event_t (tables w)) = Some row"
    and final: "\<not> is_retryable e \<or> max_attempts st \<le> ev_attempt_count row + 1"
    and entry: "d \<in> set (dead_letter_entry_t (tables w))" "dl_event_id d = i" "dl_status d \<in> set TERMINAL"
  shows "\<exists>row'. find_row (\<lambda>e. ev_id e = i) (webhook_event_t (tables w')) = Some row' \<and> ev_status row' = DEAD_LETTERED
    \<and> dead_letter_entry_t (tables w') = dead_letter_entry_t (tables w)
    \<and> i \<notin> dr_event_id ` fst ` set (v_dlq_open now (tables w'))"
proof -
  from run obtain w1 where b: "record_failure_body i e reg st s (begin_tx w) = (Inr r, w1)" and t: "tables w' = tables w1"
    unfolding record_failure_def by (cases rule: session_scope_cases) auto
  have there: "i \<in> dl_event_id ` set (dead_letter_entry_t (tables w))" using entry by auto
  show ?thesis
  proof (cases rule: record_failure_body_ok [OF b])
    case 1
    with row show ?thesis by (auto simp: event_ids_def dest: find_row_Some)
  next
    case (2 row2 n f delay nxt)
    with row final show ?thesis by simp
  next
    case (3 row2 n f m)
    have r: "row2 = row" using 3(1) row by simp
    have D: "dead_letter_entry_t (tables w') = dead_letter_entry_t (tables w)"
      unfolding t 3(6) using there by (simp add: with_dead_letter_def on_conflict_do_nothing_def new_dead_letter_entry_def)
    have "table_ok dl_id dl_event_id (sq_dlq (seqs w)) (dead_letter_entry_t (tables w))"
      using inv by (simp add: db_inv_def keys_ok_def)
    from table_ok_key_inj [OF this _ entry(1)] entry(2,3)
    have "dl_status d' \<in> set TERMINAL" if "d' \<in> set (dead_letter_entry_t (tables w))" "dl_event_id d' = i" for d'
      using that by metis
    then have "i \<notin> dr_event_id ` fst ` set (v_dlq_open now (tables w'))"
      unfolding v_dlq_open_def D by (force simp: base_query_def to_record_def TERMINAL_def)
    moreover have "find_row (\<lambda>e. ev_id e = i) (webhook_event_t (tables w')) = Some (dead_lettered (ev_attempt_count row + 1) (dlq_reason e) row)"
      unfolding t 3(6) r by (rule find_updated_event) (simp_all add: row dead_lettered_def)
    ultimately show ?thesis using D by (auto simp: dead_lettered_def)
  qed
qed

end
