(* ===== verification/Scenario_Edges.thy ===== *)
theory Scenario_Edges
  imports Scenario_System Anomalies
begin

text \<open>
  The demo deployment misbehaving at one chosen statement: the acknowledgement of the processing commit lost, a claim that fails
  after another worker has finished the event, a retry budget of one, and a second failure of a triaged event.
\<close>

definition with_fault :: "nat \<Rightarrow> fault \<Rightarrow> world \<Rightarrow> world" where
  "with_fault k x w = w\<lparr>env := (env w)\<lparr>faults := (\<lambda>j. if j = k then Some x else None)\<rparr>\<rparr>"

definition lost :: exc where
  "lost = DBAPIError ''OperationalError'' False None ''lost''"

lemma demo_lost: "is_retryable lost = False" "redacted_detail lost = ''OperationalError: lost''" "class_name lost = ''OperationalError''" "is_Exception lost"
  "is_lock_timeout lost = False"
  by code_simp+

lemma with_fault_tables [simp]: "tables (with_fault k x w) = tables w" "seqs (with_fault k x w) = seqs w"
  by (simp_all add: with_fault_def)

text \<open>The eleventh statement from the start is the commit of the pass.\<close>

definition reopened :: world where
  "reopened = snd (process_event 1 balance_registry demo_settings (with_fault 11 (AckLost lost) ingested))"

lemma reopened_run:
  "process_event 1 balance_registry demo_settings (with_fault 11 (AckLost lost) ingested)
     = (Inr \<lparr>pr_outcome = Some NON_RETRYABLE_ERROR, pr_effect = None\<rparr>, reopened)"
  unfolding reopened_def by (simp add: exec demo demo_lost with_fault_def cong: exec_cong)

lemma reopened_ledger: "ledger_entry_t (tables reopened) = [\<lparr>le_id = 1, le_account_id = 1, le_event_id = 1, le_amount_minor = 5, le_created_at = 1000000\<rparr>]"
  unfolding reopened_def by (simp add: exec demo demo_lost with_fault_def cong: exec_cong)


text \<open>The claim of a second worker fails.\<close>

definition undone :: world where
  "undone = snd (process_event 1 balance_registry demo_settings (with_fault 12 (Fails lost) processed))"

lemma undone_run:
  "process_event 1 balance_registry demo_settings (with_fault 12 (Fails lost) processed)
     = (Inr \<lparr>pr_outcome = Some NON_RETRYABLE_ERROR, pr_effect = None\<rparr>, undone)"
  unfolding undone_def by (simp add: exec demo demo_lost with_fault_def processed_def cong: exec_cong)

theorem unclaimed_failure_reopens_witness:
  "\<exists>row. find_row (\<lambda>e. ev_id e = 1) (webhook_event_t (tables undone)) = Some row \<and> ev_status row \<noteq> SUCCEEDED"
proof -
  have "find_row (\<lambda>e. ev_id e = 1) (webhook_event_t (tables (with_fault 12 (Fails lost) processed)))
      = Some (first_event\<lparr>ev_status := SUCCEEDED, ev_attempt_count := 1, ev_processed_at := Some 2000000\<rparr>)"
    by (simp add: processed_def first_event_def)
  from unclaimed_failure_reopens [OF _ undone_run _ this] processed_inv show ?thesis by (auto simp: claimed_def split: if_splits)
qed

definition impatient :: settings where
  "impatient = demo_settings\<lparr>max_attempts := 1\<rparr>"

lemma impatient_lock: "set_lock_timeout (advisory_lock_timeout_seconds impatient) = stmt (\<lambda>w. (Inr (), w))"
  using demo_lock_timeout by (simp add: impatient_def)

lemma impatient_run:
  "passes 1 1 balance_registry impatient (with_fault 5 (Fails lost) ingested)
     = (Inr [\<lparr>pr_outcome = Some NON_RETRYABLE_ERROR, pr_effect = None\<rparr>],
        snd (passes 1 1 balance_registry impatient (with_fault 5 (Fails lost) ingested)))"
  by (simp add: exec demo demo_lost with_fault_def impatient_lock cong: exec_cong)

theorem no_endless_retry_witness:
  "\<exists>row. find_row (\<lambda>e. ev_id e = 1)
     (webhook_event_t (tables (snd (passes 1 1 balance_registry impatient (with_fault 5 (Fails lost) ingested))))) = Some row
     \<and> ev_status row \<noteq> PENDING"
proof -
  have "find_row (\<lambda>e. ev_id e = 1) (webhook_event_t (tables (with_fault 5 (Fails lost) ingested))) = Some first_event"
    by (simp add: ingested_def first_event_def)
  from no_endless_retry [OF _ impatient_run _ _ this] ingested_inv show ?thesis
    by (auto simp: claimed_def impatient_def first_event_def)
qed

definition failed_again :: world where
  "failed_again = snd (record_failure 1 bug balance_registry demo_settings 2000000 triaged)"

lemma failed_again_run:
  "record_failure 1 bug balance_registry demo_settings 2000000 triaged
     = (Inr \<lparr>pr_outcome = Some NON_RETRYABLE_ERROR, pr_effect = None\<rparr>, failed_again)"
  unfolding failed_again_def by (simp add: exec demo demo_bug triaged_def buried_def bug_reason_def demo_entry_def cong: exec_cong)

lemma triaged_inv: "db_inv (tables triaged) (seqs triaged)"
  using consistent.reachable_keeps [OF triaged_reachable db_inv_no_rows] by simp

theorem refailure_unseen_witness:
  "dead_letter_entry_t (tables failed_again) = [demo_entry] \<and> 1 \<notin> dr_event_id ` fst ` set (v_dlq_open 0 (tables failed_again))"
proof -
  obtain row where row: "find_row (\<lambda>e. ev_id e = 1) (webhook_event_t (tables triaged)) = Some row"
    by (simp add: triaged_def buried_def first_event_def)
  have "demo_entry \<in> set (dead_letter_entry_t (tables triaged))" "dl_event_id demo_entry = 1" "dl_status demo_entry \<in> set TERMINAL"
    "dead_letter_entry_t (tables triaged) = [demo_entry]"
    by (simp_all add: triaged_def demo_entry_def TERMINAL_def)
  with refailure_unseen [where now = 0, OF triaged_inv failed_again_run row _ this(1-3)] show ?thesis by (auto simp: demo_bug)
qed

end
