(* ===== verification/Streams.thy ===== *)
theory Streams
  imports Delivery Replay
begin

text \<open>
  The statements of the ledger under a stream of deliveries: effects applied one after the other, each in a transaction of its
  own, in any order and with any repetitions. What the specification says of such a stream (theory Delivery) is what the
  tables hold after it.
\<close>

text \<open>What does not stand at the end was not reported as applied.\<close>

context idempotent_effect
begin

lemma unapplied: "e \<notin> applied (snd (run_all ds s)) \<Longrightarrow> applications e ds (fst (run_all ds s)) = 0"
proof (induction ds arbitrary: s)
  case (Cons d ds)
  obtain r s1 where 1: "step d s = (r, s1)" by (cases "step d s")
  have "\<not> (eid d = e \<and> r = APPLIED)"
    using step_applied [of d s s1] applied_grows [of s1 ds] Cons.prems 1 by (auto split: prod.splits)
  with Cons.IH [of s1] Cons.prems 1 show ?case by (auto simp: applications_def split: prod.splits)
qed (simp add: applications_def)

end

fun apply_stream :: "(stored_event \<times> effect) list \<Rightarrow> effect_result list prog" where
  "apply_stream [] = return_tx []"
| "apply_stream ((event, eff) # ds) = bind_tx (session_scope (apply_effect event eff)) (\<lambda>r.
     bind_tx (apply_stream ds) (\<lambda>rs. return_tx (r # rs)))"

definition as_delivery :: "stored_event \<times> effect \<Rightarrow> delivery" where
  "as_delivery = (\<lambda>(event, eff). (se_id event, se_provider_sequence event, eff))"

lemma as_delivery_simps [simp]: "as_delivery (event, eff) = (se_id event, se_provider_sequence event, eff)" "fst (as_delivery d) = se_id (fst d)"
  by (simp_all add: as_delivery_def split: prod.split)

lemma apply_stream_refines:
  assumes "db_inv (tables w) (seqs w)" "apply_stream ds w = (Inr rs, w')"
  shows "led.run_all (map as_delivery ds) (ledger_abs (tables w)) = (rs, ledger_abs (tables w'))"
  using assms
proof (induction ds arbitrary: w rs)
  case Nil
  then show ?case by (simp add: return_tx_def led.run_all.simps)
next
  case (Cons d ds)
  obtain event eff where d: "d = (event, eff)" by (cases d)
  from Cons.prems(2) obtain r w1 rs' where step: "session_scope (apply_effect event eff) w = (Inr r, w1)"
    "apply_stream ds w1 = (Inr rs', w')" "rs = r # rs'"
    by (auto simp: d tx_simps)
  from step(1) obtain w0 where b: "apply_effect event eff (begin_tx w) = (Inr r, w0)" "tables w1 = tables w0"
    by (cases rule: session_scope_cases) auto
  have inv: "db_inv (tables (begin_tx w)) (seqs (begin_tx w))" using Cons.prems(1) by simp
  have inv1: "db_inv (tables w1) (seqs w1)"
    using keepsD [OF inv.keeps_session_scope [OF frame_apply_effect ok_keeps_apply_effect] step(1) Cons.prems(1)] .
  from apply_effect_refines [OF inv b(1)] b(2) Cons.IH [OF inv1 step(2)] step(3)
  show ?case by (simp add: d led.run_all.simps)
qed

lemma apply_stream_ledger:
  assumes "db_inv (tables w) (seqs w)" "apply_stream ds w = (Inr rs, w')"
  shows "ledger_abs (tables w') = deliver_all (map as_delivery ds) (ledger_abs (tables w))"
  using apply_stream_refines [OF assms] by (simp add: deliver_all_run)

text \<open>C6. Exactly once. In a stream of effects that completes, each in its own transaction and with any repetitions of any event, an
  event is reported as applied once if its ledger entry is new at the end, and never otherwise.\<close>

theorem applied_exactly_once:
  assumes inv: "db_inv (tables w) (seqs w)" and run: "apply_stream ds w = (Inr rs, w')"
  shows "length (filter (\<lambda>(d, r). se_id (fst d) = i \<and> r = APPLIED) (zip ds rs))
      = (if i \<in> le_event_id ` set (ledger_entry_t (tables w')) - le_event_id ` set (ledger_entry_t (tables w)) then 1 else 0)"
proof -
  note R = apply_stream_refines [OF inv run]
  have n: "led.applications i (map as_delivery ds) rs = length (filter (\<lambda>(d, r). se_id (fst d) = i \<and> r = APPLIED) (zip ds rs))"
    by (simp add: led.applications_def zip_map1 filter_map o_def split_def)
  show ?thesis
    using led.exactly_once [of i "map as_delivery ds" "ledger_abs (tables w)", unfolded R fst_conv snd_conv n]
      led.never_again [of i "ledger_abs (tables w)" "map as_delivery ds", unfolded R fst_conv snd_conv n]
      led.unapplied [of i "map as_delivery ds" "ledger_abs (tables w)", unfolded R fst_conv snd_conv n]
    by (cases "i \<in> sp_applied (ledger_abs (tables w'))"; cases "i \<in> sp_applied (ledger_abs (tables w))") (simp_all add: ledger_abs_def)
qed

text \<open>C7. Credits commute. Two streams that complete from the same database and carry the same credits -- in whatever order, each as often as
  it was delivered -- end with the same balance and mark on every account and the same events applied.\<close>

theorem credits_commute:
  assumes inv: "db_inv (tables w) (seqs w)"
    and runs: "apply_stream ds w = (Inr rs, w1)" "apply_stream ds' w = (Inr rs', w2)"
    and same: "set ds = set ds'" and credits: "list_all (\<lambda>d. is_credit (as_delivery d)) ds"
    and ids: "inj_on (se_id \<circ> fst) (set ds)"
  shows "ledger_abs (tables w1) = ledger_abs (tables w2)"
proof -
  have "inj_on fst (as_delivery ` set ds)" by (rule inj_on_imageI) (use ids in \<open>simp add: o_def\<close>)
  then show ?thesis
    unfolding apply_stream_ledger [OF inv runs(1)] apply_stream_ledger [OF inv runs(2)]
    by (intro credits_same_set) (use same credits in \<open>simp_all add: list_all_iff\<close>)
qed

text \<open>C8. The latest snapshot wins. When a stream that completes carries only snapshots for an account, each event with one effect, and one
  of them -- not applied before -- is newer than the account's mark and all the others, the account ends with its balance
  and its sequence, wherever in the stream it came and whatever the other accounts received.\<close>

theorem latest_snapshot_stands:
  assumes inv: "db_inv (tables w) (seqs w)" and run: "apply_stream ds w = (Inr rs, w')"
    and there: "(event, SetBalance ref b n) \<in> set ds"
    and others: "list_all (\<lambda>(event', eff). account_ref eff = ref \<longrightarrow>
        snapshot_on ref (as_delivery (event', eff)) \<and> ((event', eff) = (event, SetBalance ref b n) \<or> sequence eff < n)) ds"
    and ids: "inj_on (se_id \<circ> fst) (set ds)"
    and new: "se_id event \<notin> le_event_id ` set (ledger_entry_t (tables w))" and newer: "snd (account_view (account_t (tables w)) ref) < n"
  shows "account_view (account_t (tables w')) ref = (b, n)"
proof -
  let ?top = "(event, SetBalance ref b n)"
  have uniq: "d = ?top" if "d \<in> set ds" "se_id (fst d) = se_id event" for d
    using inj_onD [OF ids _ that(1) there] that(2) by simp
  have "sp_account (deliver_all (map as_delivery ds) (ledger_abs (tables w))) ref = (b, n)"
  proof (rule latest_snapshot_wins)
    show "(se_id event, se_provider_sequence event, SetBalance ref b n) \<in> set (map as_delivery ds)"
      using there by force
    show "\<forall>d \<in> set (map as_delivery ds). account_ref (snd (snd d)) = ref \<longrightarrow>
        snapshot_on ref d \<and> (d = (se_id event, se_provider_sequence event, SetBalance ref b n) \<or> sequence (snd (snd d)) < n)"
      using others by (auto simp: list_all_iff)
    show "\<forall>d \<in> set (map as_delivery ds). fst d = se_id event \<longrightarrow> d = (se_id event, se_provider_sequence event, SetBalance ref b n)"
      using uniq by fastforce
  qed (use new newer in \<open>simp_all add: ledger_abs_def\<close>)
  then have "sp_account (ledger_abs (tables w')) ref = (b, n)" by (simp only: apply_stream_ledger [OF inv run])
  then show ?thesis by (simp add: ledger_abs_def)
qed

end
