(* ===== verification/Scenario_Streams.thy ===== *)
theory Scenario_Streams
  imports Scenario Streams
begin

text \<open>
  Two credits of the demo account delivered in both orders, one of them twice, and a snapshot after a later one.
\<close>

definition second_event :: webhook_event where
  "second_event = first_event\<lparr>ev_id := 2, ev_external_id := ''k2'', ev_idempotency_key := ''k2''\<rparr>"

definition two_stored :: world where
  "two_stored = ingested\<lparr>tables := no_rows\<lparr>webhook_event_t := [first_event, second_event]\<rparr>, seqs := fresh_sequences\<lparr>sq_event := 3\<rparr>,
     stmts := 4\<rparr>"

lemma two_stored_run:
  "session_scope (ingest_event (credit_of ''k2'' 5)) ingested = (Inr \<lparr>ir_event_id = 2, ir_duplicate = False\<rparr>, two_stored)"
  by (simp add: exec demo two_stored_def second_event_def CREDITED_def cong: exec_cong)

lemma two_stored_inv: "db_inv (tables two_stored) (seqs two_stored)"
  using keepsD [OF inv.keeps_session_scope [OF frame_ingest_event ok_ingest_event] two_stored_run] ingested_inv by blast

definition one :: stored_event where "one = to_domain first_event"
definition two :: stored_event where "two = to_domain second_event"

lemma one_two: "se_id one = 1" "se_id two = 2" "se_provider_sequence one = Some 1" "se_provider_sequence two = Some 1"
  by (simp_all add: one_def two_def to_domain_def first_event_def second_event_def)

lemmas stream_run = exec demo two_stored_def second_event_def one_two

definition credits :: "(stored_event \<times> effect) list" where
  "credits = [(one, Credit ''a'' 5), (two, Credit ''a'' 7)]"

definition shuffled :: "(stored_event \<times> effect) list" where
  "shuffled = [(two, Credit ''a'' 7), (one, Credit ''a'' 5), (two, Credit ''a'' 7)]"

lemma credits_run:
  "apply_stream credits two_stored = (Inr [APPLIED, APPLIED], snd (apply_stream credits two_stored))"
  "apply_stream shuffled two_stored = (Inr [APPLIED, APPLIED, ALREADY_APPLIED], snd (apply_stream shuffled two_stored))"
  by (simp_all add: credits_def shuffled_def stream_run cong: exec_cong)

theorem applied_exactly_once_witness:
  "2 \<in> le_event_id ` set (ledger_entry_t (tables (snd (apply_stream shuffled two_stored))))"
  using applied_exactly_once [OF two_stored_inv credits_run(2), of 2]
  by (simp add: shuffled_def one_two split: if_splits)

theorem credits_commute_witness:
  "account_view (account_t (tables (snd (apply_stream shuffled two_stored)))) = account_view (account_t (tables (snd (apply_stream credits two_stored))))"
  using credits_commute [OF two_stored_inv credits_run(2,1)]
  by (auto simp: shuffled_def credits_def one_two is_credit_def ledger_abs_def inj_on_def)

definition snapshots :: "(stored_event \<times> effect) list" where
  "snapshots = [(two, SetBalance ''a'' 70 7), (one, SetBalance ''a'' 50 5)]"

lemma snapshots_run:
  "apply_stream snapshots two_stored = (Inr [APPLIED, EFF_SUPERSEDED], snd (apply_stream snapshots two_stored))"
  by (simp add: snapshots_def stream_run cong: exec_cong)

theorem latest_snapshot_stands_witness:
  "account_view (account_t (tables (snd (apply_stream snapshots two_stored)))) ''a'' = (70, 7)"
  by (rule latest_snapshot_stands [OF two_stored_inv snapshots_run, of two])
     (simp_all add: snapshots_def one_two snapshot_on_def inj_on_def account_view_def two_stored_def no_rows_def)

end
