(* ===== verification/Load_Check.thy ===== *)
theory Load_Check
  imports DbObjects
begin

text \<open>
  The grader of the load test (\<open>scripts/verify_load.py\<close>): it waits for the queue to drain, asks the database its
  questions and turns the answers into an exit code. The connection is a parameter, the \<open>observer\<close>: the tables each of its
  statements finds, the readings of the monotonic clock, and the order in which the database returns the groups of the
  last query. A statement that raises ends the script with its class name. The command line and the driver's failures to
  connect are not modelled.
\<close>

section \<open>Formatting\<close>

text \<open>\<open>format(x, '.df')\<close> of a float, and \<open>str.ljust\<close>.\<close>

definition format_fixed :: "nat \<Rightarrow> rat \<Rightarrow> py_str" where
  "format_fixed d x = (let n = nat (round_half_even (\<bar>x\<bar> * 10 ^ d)); frac = show_nat (n mod 10 ^ d)
     in (if x < 0 then ''-'' else []) @ show_nat (n div 10 ^ d)
        @ (if d = 0 then [] else ''.'' @ replicate (d - length frac) (CHR ''0'') @ frac))"

definition ljust :: "nat \<Rightarrow> py_str \<Rightarrow> py_str" where
  "ljust width s = s @ replicate (width - length s) (CHR '' '')"

definition newline :: py_str where "newline = [CHR 0x0A]"
definition quoted :: "py_str \<Rightarrow> py_str" where "quoted s = CHR 0x27 # s @ [CHR 0x27]"

section \<open>The checks\<close>

record check =
  ck_name :: py_str
  ck_passed :: bool
  ck_detail :: py_str

record observer =
  ob_tables :: "nat \<Rightarrow> tables"
  ob_monotonic :: "nat \<Rightarrow> rat"
  ob_groups :: "(account \<times> int) list \<Rightarrow> (account \<times> int) list"

definition count_pending :: "tables \<Rightarrow> int" where
  "count_pending t = count_rows (\<lambda>e. ev_status e = PENDING) (webhook_event_t t)"

text \<open>\<open>_drain\<close> from the test of its loop on: how it ended, and how many statements and clock readings it took.\<close>

fun drain_loop :: "nat \<Rightarrow> observer \<Rightarrow> rat \<Rightarrow> rat \<Rightarrow> nat \<Rightarrow> nat \<Rightarrow> (bool \<times> rat \<times> nat) option" where
  "drain_loop 0 ob budget started q m = None"
| "drain_loop (Suc fuel) ob budget started q m =
     (if fsub (ob_monotonic ob m) started < budget
      then if count_pending (ob_tables ob q) = 0 then Some (True, fsub (ob_monotonic ob (Suc m)) started, Suc q)
           else drain_loop fuel ob budget started (Suc q) (Suc m)
      else Some (False, fsub (ob_monotonic ob (Suc m)) started, q))"

definition drain :: "nat \<Rightarrow> observer \<Rightarrow> rat \<Rightarrow> (bool \<times> rat \<times> nat) option" where
  "drain fuel ob budget = drain_loop fuel ob budget (ob_monotonic ob 0) 0 1"

definition entity_counts :: "tables \<Rightarrow> (account \<times> int) list" where
  "entity_counts t = filter (\<lambda>(a, n). n \<noteq> 0)
     (map (\<lambda>a. (a, count_rows (\<lambda>e. ev_entity_id e = ac_external_ref a) (webhook_event_t t))) (account_t t))"

definition wrong_balances :: "int \<Rightarrow> tables \<Rightarrow> py_str + (account \<times> int) list" where
  "wrong_balances amount t =
     (if \<not> int8_ok amount then Inl ''DataError''
      else if list_ex (\<lambda>(a, n). \<not> int8_ok (amount * n)) (entity_counts t) then Inl ''NumericValueOutOfRangeError''
      else Inr (filter (\<lambda>(a, n). ac_balance_minor a \<noteq> amount * n) (entity_counts t)))"

definition wrong_detail :: "int \<Rightarrow> (account \<times> int) list \<Rightarrow> py_str" where
  "wrong_detail amount wrong =
     (case wrong of
        [] \<Rightarrow> ''every balance is exactly what arithmetic predicts''
      | (a, n) # _ \<Rightarrow> show_int (int (length wrong)) @ '' accounts wrong, e.g. {'' @ quoted ''external_ref'' @ '': ''
          @ py_repr (ac_external_ref a) @ '', '' @ quoted ''balance_minor'' @ '': '' @ show_int (ac_balance_minor a) @ '', ''
          @ quoted ''expected'' @ '': '' @ show_int (amount * n) @ ''}'')"

definition checks :: "observer \<Rightarrow> nat \<Rightarrow> int \<Rightarrow> py_str + check list" where
  "checks ob q amount =
     (let events = int (length (webhook_event_t (ob_tables ob q)));
          distinct' = int (length (remdups (map ev_key (webhook_event_t (ob_tables ob (q + 1))))));
          ledger_rows = int (length (ledger_entry_t (ob_tables ob (q + 2))));
          succeeded = count_rows (\<lambda>e. ev_status e = SUCCEEDED) (webhook_event_t (ob_tables ob (q + 3)));
          dead = count_rows (\<lambda>e. ev_status e = DEAD_LETTERED) (webhook_event_t (ob_tables ob (q + 4)));
          drift = v_account_reconciliation (ob_tables ob (q + 5));
          drifted = filter (\<lambda>r. rc_drift r \<noteq> 0) drift
      in case wrong_balances amount (ob_tables ob (q + 6)) of
           Inl e \<Rightarrow> Inl e
         | Inr groups \<Rightarrow> let wrong = ob_groups ob groups in Inr
            [\<lparr>ck_name = ''every stored event is unique'', ck_passed = (events = distinct'),
              ck_detail = show_int events @ '' rows, '' @ show_int distinct' @ '' distinct (source, idempotency_key)''\<rparr>,
             \<lparr>ck_name = ''nothing was dead-lettered'', ck_passed = (dead = 0),
              ck_detail = show_int dead @ '' dead-lettered''\<rparr>,
             \<lparr>ck_name = ''every event was processed'', ck_passed = (succeeded = events),
              ck_detail = show_int succeeded @ '' of '' @ show_int events @ '' succeeded''\<rparr>,
             \<lparr>ck_name = ''count(ledger_entry) == count(distinct events)'', ck_passed = (ledger_rows = distinct'),
              ck_detail = show_int ledger_rows @ '' ledger rows, '' @ show_int distinct' @ '' distinct events''\<rparr>,
             \<lparr>ck_name = ''balance == SUM(ledger) on every account'', ck_passed = (drifted = []),
              ck_detail = show_int (int (length drift)) @ '' accounts, '' @ show_int (int (length drifted)) @ '' with drift''\<rparr>,
             \<lparr>ck_name = ''balance == amount x distinct events, per account'', ck_passed = (wrong = []),
              ck_detail = wrong_detail amount wrong\<rparr>])"

section \<open>The script\<close>

record load_args =
  la_amount :: int
  la_requests :: int
  la_drain_timeout :: rat

definition check_line :: "nat \<Rightarrow> check \<Rightarrow> py_str" where
  "check_line width c =
     ''  ['' @ (if ck_passed c then ''PASS'' else ''FAIL'') @ ''] '' @ ljust width (ck_name c) @ ''  '' @ ck_detail c"

text \<open>The exit code and what is printed.\<close>

definition report :: "check list \<Rightarrow> int \<times> py_str list" where
  "report cs =
     (let width = Max (set (map (\<lambda>c. length (ck_name c)) cs));
          failed = filter (\<lambda>c. \<not> ck_passed c) cs;
          shown = map (check_line width) cs
      in if failed \<noteq> []
         then (1, shown @ [newline @ show_int (int (length failed)) @ '' CHECK(S) FAILED -- there is double-processing.''])
         else (0, shown @ [newline @ ''zero double-processing.'']))"

definition absorbed_line :: "int \<Rightarrow> int \<Rightarrow> py_str" where
  "absorbed_line requests events =
     (let absorbed = requests - events
      in show_int requests @ '' deliveries sent -> '' @ show_int events @ '' events stored ('' @ show_int absorbed
         @ '' duplicates absorbed, '' @ format_fixed 0 (fmul (fdiv (of_int absorbed) (of_int requests)) 100) @ ''%)'' @ newline)"

definition verify_main :: "nat \<Rightarrow> observer \<Rightarrow> load_args \<Rightarrow> (py_str + int \<times> py_str list) option" where
  "verify_main fuel ob args =
     (case drain fuel ob (la_drain_timeout args) of
        None \<Rightarrow> None
      | Some (drained, seconds, q) \<Rightarrow> Some (
          let waiting = ''waiting for the workers to drain the queue...'' in
          if \<not> drained
          then Inr (1, [waiting, ''FAILED: queue still has '' @ show_int (count_pending (ob_tables ob q))
                 @ '' pending events after '' @ format_fixed 0 seconds @ ''s''])
          else let said = [waiting, ''drained in '' @ format_fixed 1 seconds @ ''s'' @ newline];
                   events = int (length (webhook_event_t (ob_tables ob q)))
               in if events = 0 then Inr (1, said @ [''FAILED: no events in the database -- did the load test run?''])
                  else let said' = said @ (if la_requests args \<noteq> 0 then [absorbed_line (la_requests args) events] else [])
                       in case checks ob (Suc q) (la_amount args) of
                            Inl e \<Rightarrow> Inl e
                          | Inr cs \<Rightarrow> let (code, shown) = report cs in Inr (code, said' @ shown)))"

section \<open>What it decides\<close>

text \<open>Whatever the queue does, the wait is over once the clock has used the budget up.\<close>

lemma drain_loop_ends:
  "budget \<le> fsub (ob_monotonic ob (m + n)) started \<Longrightarrow> n < fuel \<Longrightarrow> \<exists>r. drain_loop fuel ob budget started q m = Some r"
proof (induction n arbitrary: fuel q m)
  case 0
  then show ?case by (cases fuel) auto
next
  case (Suc n)
  then obtain f where f: "fuel = Suc f" "n < f" by (cases fuel) auto
  from Suc.IH [of "Suc m" f "Suc q"] Suc.prems f show ?case by auto
qed

lemma drain_loop_idle:
  "drain_loop fuel ob budget started q m = Some (True, s, q') \<Longrightarrow> \<exists>k. q' = Suc k \<and> q \<le> k \<and> count_pending (ob_tables ob k) = 0"
  by (induction fuel ob budget started q m rule: drain_loop.induct) (fastforce split: if_splits)+

lemma report_code: "fst (report cs) = 0 \<longleftrightarrow> list_all ck_passed cs"
  by (auto simp: report_def Let_def filter_empty_conv list_all_iff)

lemma rows_remdups: "keys_ok t s \<Longrightarrow> length (remdups (map ev_key (webhook_event_t t))) = length (webhook_event_t t)"
  by (simp add: keys_ok_def table_ok_def distinct_remdups_id)

lemma count_all: "count_rows p rows = int (length rows) \<longleftrightarrow> list_all p rows"
  unfolding count_rows_def list_all_iff using length_filter_less [of _ rows p] by (metis (no_types, lifting) filter_True less_irrefl of_nat_eq_iff)

lemma count_none: "count_rows p rows = 0 \<longleftrightarrow> \<not> list_ex p rows"
  by (auto simp: count_rows_def filter_empty_conv list_ex_iff)

text \<open>As many ledger rows as events: every event has one.\<close>

lemma ledger_complete:
  assumes "db_inv t s"
  shows "length (ledger_entry_t t) = length (webhook_event_t t) \<longleftrightarrow> le_event_id ` set (ledger_entry_t t) = ev_id ` set (webhook_event_t t)"
proof -
  have d: "distinct (map le_event_id (ledger_entry_t t))" "distinct (map ev_id (webhook_event_t t))"
    and sub: "le_event_id ` set (ledger_entry_t t) \<subseteq> ev_id ` set (webhook_event_t t)"
    using assms by (simp_all add: db_inv_def keys_ok_def table_ok_def refs_ok_def event_ids_def)
  have "length (ledger_entry_t t) = card (le_event_id ` set (ledger_entry_t t))" "length (webhook_event_t t) = card (ev_id ` set (webhook_event_t t))"
    using distinct_card [OF d(1)] distinct_card [OF d(2)] by simp_all
  with card_subset_eq [OF _ sub] show ?thesis by auto
qed

lemma wrong_none:
  "wrong_balances amount t = Inr [] \<Longrightarrow> a \<in> set (account_t t) \<Longrightarrow> e \<in> set (webhook_event_t t) \<Longrightarrow> ev_entity_id e = ac_external_ref a \<Longrightarrow>
     ac_balance_minor a = amount * count_rows (\<lambda>e. ev_entity_id e = ac_external_ref a) (webhook_event_t t)"
  by (auto simp: wrong_balances_def entity_counts_def filter_empty_conv count_none list_ex_iff split: if_splits)

lemma wrong_only:
  assumes "\<And>a e. a \<in> set (account_t t) \<Longrightarrow> e \<in> set (webhook_event_t t) \<Longrightarrow> ev_entity_id e = ac_external_ref a \<Longrightarrow>
      ac_balance_minor a = amount * count_rows (\<lambda>e. ev_entity_id e = ac_external_ref a) (webhook_event_t t)"
    and "wrong_balances amount t = Inr groups"
  shows "groups = []"
  using assms by (auto simp: wrong_balances_def entity_counts_def filter_empty_conv count_none list_ex_iff split: if_splits)

text \<open>C31. The load test is graded by what it claims. When the queue has drained and the database -- consistent -- no longer changes, the
  script that runs to its end exits with 0 exactly if there are events, all of them succeeded, the ledger has an entry for every
  one, and every account that events name has the balance the arithmetic predicts. So a dead-lettered or superseded event, too,
  is announced as double-processing.\<close>

theorem load_verdict:
  assumes inv: "db_inv t s" and drained: "drain fuel ob (la_drain_timeout args) = Some (True, seconds, q)"
    and still: "\<And>k. q \<le> k \<Longrightarrow> ob_tables ob k = t" and plan: "\<And>gs. mset (ob_groups ob gs) = mset gs"
    and run: "verify_main fuel ob args = Some (Inr (code, said))"
  shows "code = 0 \<longleftrightarrow> webhook_event_t t \<noteq> [] \<and> list_all (\<lambda>e. ev_status e = SUCCEEDED) (webhook_event_t t)
    \<and> le_event_id ` set (ledger_entry_t t) = ev_id ` set (webhook_event_t t)
    \<and> (\<forall>a \<in> set (account_t t). \<forall>e \<in> set (webhook_event_t t). ev_entity_id e = ac_external_ref a \<longrightarrow>
         ac_balance_minor a = la_amount args * count_rows (\<lambda>e. ev_entity_id e = ac_external_ref a) (webhook_event_t t))"
proof (cases "webhook_event_t t = []")
  case True
  with run drained still show ?thesis by (simp add: verify_main_def Let_def)
next
  case False
  have k: "keys_ok t s" using inv by (simp add: db_inv_def)
  from run drained still False obtain cs where cs: "checks ob (Suc q) (la_amount args) = Inr cs" "code = fst (report cs)"
    by (auto simp: verify_main_def Let_def split: sum.splits prod.splits)
  from cs(1) obtain groups where g: "wrong_balances (la_amount args) t = Inr groups"
    using still by (auto simp: checks_def Let_def split: sum.splits)
  have empty: "ob_groups ob groups = [] \<longleftrightarrow> groups = []" using plan [of groups] by (metis mset_zero_iff)
  have drift: "filter (\<lambda>r. rc_drift r \<noteq> 0) (v_account_reconciliation t) = []"
    using inv by (simp add: db_inv_def flip: invariant_ok_iff) (simp add: fn_ledger_invariant_ok_def list_ex_iff filter_empty_conv)
  have dead: "count_rows (\<lambda>e. ev_status e = DEAD_LETTERED) (webhook_event_t t) = 0" if "list_all (\<lambda>e. ev_status e = SUCCEEDED) (webhook_event_t t)"
    using that by (auto simp: count_none list_ex_iff list_all_iff)
  have "list_all ck_passed cs \<longleftrightarrow> count_rows (\<lambda>e. ev_status e = DEAD_LETTERED) (webhook_event_t t) = 0
      \<and> count_rows (\<lambda>e. ev_status e = SUCCEEDED) (webhook_event_t t) = int (length (webhook_event_t t))
      \<and> length (ledger_entry_t t) = length (webhook_event_t t) \<and> groups = []"
    using cs(1) g still by (auto simp: checks_def Let_def rows_remdups [OF k] empty drift)
  then have "code = 0 \<longleftrightarrow> list_all (\<lambda>e. ev_status e = SUCCEEDED) (webhook_event_t t)
      \<and> le_event_id ` set (ledger_entry_t t) = ev_id ` set (webhook_event_t t) \<and> groups = []"
    unfolding cs(2) report_code count_all ledger_complete [OF inv] using dead by blast
  moreover have "groups = [] \<longleftrightarrow> (\<forall>a \<in> set (account_t t). \<forall>e \<in> set (webhook_event_t t). ev_entity_id e = ac_external_ref a \<longrightarrow>
         ac_balance_minor a = la_amount args * count_rows (\<lambda>e. ev_entity_id e = ac_external_ref a) (webhook_event_t t))"
    using wrong_none [of "la_amount args" t] wrong_only [OF _ g] g by blast
  ultimately show ?thesis using False by simp
qed

end
