(* ===== verification/Scenario_Scripts.thy ===== *)
theory Scenario_Scripts
  imports Scenario Load_Check
begin

text \<open>
  The demo deployment graded: one credit of 5, processed, against the amount 5.
\<close>

definition demo_observer :: observer where
  "demo_observer = \<lparr>ob_tables = (\<lambda>_. tables processed), ob_monotonic = (\<lambda>_. 0), ob_groups = (\<lambda>gs. gs)\<rparr>"

definition demo_args :: load_args where
  "demo_args = \<lparr>la_amount = 5, la_requests = 0, la_drain_timeout = 300\<rparr>"

lemma demo_drained: "drain 1 demo_observer (la_drain_timeout demo_args) = Some (True, 0, 1)"
proof -
  have "fsub 0 0 = 0" by code_simp
  then show ?thesis
    by (simp add: drain_def demo_observer_def demo_args_def count_pending_def count_rows_def processed_def first_event_def)
qed

theorem load_verdict_witness:
  "case verify_main 1 demo_observer demo_args of Some (Inr (code, said)) \<Rightarrow> code = 0 | _ \<Rightarrow> False"
proof -
  have "checks demo_observer (Suc 1) 5 = Inr (projr (checks demo_observer (Suc 1) 5))"
    by (simp add: checks_def Let_def wrong_balances_def entity_counts_def count_rows_def int8_ok_def demo_observer_def processed_def first_event_def)
  then obtain code said where run: "verify_main 1 demo_observer demo_args = Some (Inr (code, said))"
    using demo_drained
    by (cases "report (projr (checks demo_observer (Suc 1) 5))")
       (fastforce simp: verify_main_def demo_args_def demo_observer_def processed_def split: sum.splits)
  have "code = 0 \<longleftrightarrow> webhook_event_t (tables processed) \<noteq> [] \<and> list_all (\<lambda>e. ev_status e = SUCCEEDED) (webhook_event_t (tables processed))
    \<and> le_event_id ` set (ledger_entry_t (tables processed)) = ev_id ` set (webhook_event_t (tables processed))
    \<and> (\<forall>a \<in> set (account_t (tables processed)). \<forall>e \<in> set (webhook_event_t (tables processed)). ev_entity_id e = ac_external_ref a \<longrightarrow>
         ac_balance_minor a = la_amount demo_args * count_rows (\<lambda>e. ev_entity_id e = ac_external_ref a) (webhook_event_t (tables processed)))"
    by (rule load_verdict [OF processed_inv demo_drained _ _ run]) (simp_all add: demo_observer_def)
  then have "code = 0" by (simp add: processed_def first_event_def demo_args_def count_rows_def)
  with run show ?thesis by simp
qed

end
