(* ===== verification/Sender.thy ===== *)
theory Sender
  imports Webhooks Handlers FloatRepr Queue "HOL-Library.List_Lexorder" "HOL-Library.Char_ord"
begin

text \<open>
  The test sender (\<open>scripts/send_webhook.py\<close>): the body it builds, the request it makes of it, and what the receiver makes of
  that. \<open>json.dumps\<close> and \<open>datetime.isoformat\<close> are modelled; what the HTTP library reports of the exchange is a parameter.
\<close>

section \<open>\<open>json.dumps(..., sort_keys=True)\<close>\<close>

text \<open>The encoder's default is ASCII output.\<close>

definition json_escape :: "char \<Rightarrow> py_str" where
  "json_escape c = (let n = of_char c :: nat in
     if c = CHR 0x22 then [CHR 0x5C, CHR 0x22]
     else if c = CHR 0x5C then [CHR 0x5C, CHR 0x5C]
     else if n = 10 then [CHR 0x5C, CHR ''n''] else if n = 13 then [CHR 0x5C, CHR ''r'']
     else if n = 9 then [CHR 0x5C, CHR ''t''] else if n = 12 then [CHR 0x5C, CHR ''f'']
     else if n = 8 then [CHR 0x5C, CHR ''b'']
     else if 32 \<le> n \<and> n \<le> 126 then [c]
     else [CHR 0x5C, CHR ''u'', CHR ''0'', CHR ''0'', hex_digit (n div 16), hex_digit (n mod 16)])"

definition json_string :: "py_str \<Rightarrow> py_str" where
  "json_string s = [CHR 0x22] @ concat (map json_escape s) @ [CHR 0x22]"

fun json_dumps :: "json \<Rightarrow> py_str" where
  "json_dumps JNull = ''null''"
| "json_dumps (JBool b) = (if b then ''true'' else ''false'')"
| "json_dumps (JInt n) = show_int n"
| "json_dumps (JFloat x) = py_float_repr x"
| "json_dumps (JStr s) = json_string s"
| "json_dumps (JArr xs) = ''['' @ join_with '', '' (map json_dumps xs) @ '']''"
| "json_dumps (JObj kvs) = ''{'' @ join_with '', '' (map (\<lambda>(k, v). json_string k @ '': '' @ v)
     (sort_key fst (map (\<lambda>(k, v). (k, json_dumps v)) kvs))) @ ''}''"

text \<open>The document that text stands for.\<close>

fun sorted_json :: "json \<Rightarrow> json" where
  "sorted_json (JArr xs) = JArr (map sorted_json xs)"
| "sorted_json (JObj kvs) = JObj (sort_key fst (map (\<lambda>(k, v). (k, sorted_json v)) kvs))"
| "sorted_json j = j"

section \<open>\<open>datetime.isoformat\<close>\<close>

text \<open>The civil date of a day counted from the epoch, in the proleptic Gregorian calendar: the year is taken to
  begin in March, so that the leap day is its last.\<close>

definition civil_of_month :: "int \<Rightarrow> int \<Rightarrow> int \<Rightarrow> int \<times> int \<times> int" where
  "civil_of_month year mp doy =
     ((if mp < 10 then year else year + 1), (if mp < 10 then mp + 3 else mp - 9), doy - (153 * mp + 2) div 5 + 1)"

definition civil_of_day :: "int \<Rightarrow> int \<Rightarrow> int \<times> int \<times> int" where
  "civil_of_day year doy = civil_of_month year ((5 * doy + 2) div 153) doy"

definition civil_of_year :: "int \<Rightarrow> int \<Rightarrow> int \<Rightarrow> int \<times> int \<times> int" where
  "civil_of_year era doe yoe = civil_of_day (yoe + era * 400) (doe - (365 * yoe + yoe div 4 - yoe div 100))"

definition civil_of_era :: "int \<Rightarrow> int \<Rightarrow> int \<times> int \<times> int" where
  "civil_of_era era doe = civil_of_year era doe ((doe - doe div 1460 + doe div 36524 - doe div 146096) div 365)"

definition civil_date :: "int \<Rightarrow> int \<times> int \<times> int" where
  "civil_date days = civil_of_era ((days + 719468) div 146097) ((days + 719468) mod 146097)"

lemmas civil_defs = civil_of_month_def civil_of_day_def civil_of_year_def civil_of_era_def civil_date_def

definition zero_padded :: "nat \<Rightarrow> int \<Rightarrow> py_str" where
  "zero_padded width n = (let s = show_nat (nat n) in replicate (width - length s) (CHR ''0'') @ s)"

definition isoformat :: "datetime \<Rightarrow> py_str" where
  "isoformat t =
     (let (year, month, day) = civil_date (t div 86400000000); us = t mod 86400000000; sec = us div 1000000
      in zero_padded 4 year @ ''-'' @ zero_padded 2 month @ ''-'' @ zero_padded 2 day @ ''T''
         @ zero_padded 2 (sec div 3600) @ '':'' @ zero_padded 2 (sec div 60 mod 60) @ '':'' @ zero_padded 2 (sec mod 60)
         @ (if us mod 1000000 = 0 then [] else ''.'' @ zero_padded 6 (us mod 1000000)) @ ''+00:00'')"

section \<open>The request\<close>

record send_args =
  sa_source :: py_str
  sa_event_type :: py_str
  sa_entity_type :: py_str
  sa_entity_id :: py_str
  sa_amount :: int
  sa_balance :: int
  sa_sequence :: "int option"
  sa_idempotency_key :: "py_str option"
  sa_skew :: int

definition sent_envelope :: "send_args \<Rightarrow> datetime \<Rightarrow> py_str \<Rightarrow> json" where
  "sent_envelope args now event_id =
     (let data = (if sa_event_type args = SNAPSHOT then [(''balance'', JInt (sa_balance args))]
                  else [(''amount'', JInt (sa_amount args))])
      in JObj ([(''id'', JStr event_id), (''type'', JStr (sa_event_type args)), (''occurred_at'', JStr (isoformat now)),
                (''entity'', JObj [(''type'', JStr (sa_entity_type args)), (''id'', JStr (sa_entity_id args))]),
                (''data'', JObj data)]
               @ (case sa_sequence args of None \<Rightarrow> [] | Some n \<Rightarrow> [(''sequence'', JInt n)])))"

definition build_body :: "send_args \<Rightarrow> datetime \<Rightarrow> py_str \<Rightarrow> bytes" where
  "build_body args now event_id = encode_utf8 (json_dumps (sent_envelope args now event_id))"

text \<open>The body with the headers the script sets; \<open>unix_time\<close> is \<open>time.time()\<close>.\<close>

definition sent_headers :: "hmac \<Rightarrow> send_args \<Rightarrow> py_str \<Rightarrow> rat \<Rightarrow> bytes \<Rightarrow> (py_str \<times> py_str) list" where
  "sent_headers hmac args secret unix_time body =
     [(''Content-Type'', ''application/json''),
      (SIGNATURE_HEADER, signed_header hmac secret (py_trunc unix_time + sa_skew args) body)]
     @ (case sa_idempotency_key args of None \<Rightarrow> [] | Some k \<Rightarrow> [(''Idempotency-Key'', k)])"

text \<open>What arrives: names in lower case, after the headers the HTTP library adds.\<close>

definition arrives :: "send_args \<Rightarrow> (py_str \<times> py_str) list \<Rightarrow> bytes \<Rightarrow> (py_str \<times> py_str) list \<Rightarrow> http_request" where
  "arrives args headers body added =
     \<lparr>rq_source = sa_source args, rq_body = body, rq_headers = added @ map (\<lambda>(k, v). (py_lower k, v)) headers\<rparr>"

definition sent_request ::
  "hmac \<Rightarrow> send_args \<Rightarrow> py_str \<Rightarrow> datetime \<Rightarrow> rat \<Rightarrow> py_str \<Rightarrow> (py_str \<times> py_str) list \<Rightarrow> http_request" where
  "sent_request hmac args secret now unix_time event_id added =
     (let body = build_body args now event_id in arrives args (sent_headers hmac args secret unix_time body) body added)"

text \<open>The arguments of a bare call, with \<open>--url\<close> and \<open>--count\<close> apart.\<close>

definition default_args :: send_args where
  "default_args = \<lparr>sa_source = ''stripe'', sa_event_type = ''balance.credited'', sa_entity_type = ''account'',
     sa_entity_id = ''acct_1'', sa_amount = 500, sa_balance = 1000, sa_sequence = None, sa_idempotency_key = None, sa_skew = 0\<rparr>"

definition default_url :: py_str where "default_url = ''http://localhost:8000''"

text \<open>What \<open>urlopen\<close> makes of a request: a response, a response it raises as an error, or nobody there.\<close>

datatype exchange = Responded int py_str | Http_Error int py_str | Unreachable py_str

text \<open>The status \<open>_send\<close> returns, and the lines it prints on the standard output and on the standard error.\<close>

definition send_outcome :: "py_str \<Rightarrow> exchange \<Rightarrow> int \<times> py_str list \<times> py_str list" where
  "send_outcome url x =
     (case x of
        Responded status body \<Rightarrow> (status, [''  '' @ show_int status @ '' '' @ body], [])
      | Http_Error code body \<Rightarrow> (code, [''  '' @ show_int code @ '' '' @ body], [])
      | Unreachable reason \<Rightarrow> (1, [], [''  cannot reach '' @ url @ '': '' @ reason, ''  is the stack up? try `make up`'']))"

text \<open>The event id: the one asked for, unless that is absent or empty, or the first twelve digits of a random one.\<close>

definition chosen_event_id :: "py_str option \<Rightarrow> py_str \<Rightarrow> py_str" where
  "chosen_event_id asked uuid_hex =
     (case asked of Some e \<Rightarrow> if e = [] then ''evt_'' @ take 12 uuid_hex else e | None \<Rightarrow> ''evt_'' @ take 12 uuid_hex)"

text \<open>\<open>main\<close>: the exit code, the requests it sends, all with one event id, and what it prints; it reads the clocks anew for each
  delivery. \<open>exchanges i\<close> is how the \<open>i\<close>-th one ends, which the exit code does not tell.\<close>

definition send_main ::
  "hmac \<Rightarrow> settings \<Rightarrow> py_str \<Rightarrow> send_args \<Rightarrow> nat \<Rightarrow> (nat \<Rightarrow> datetime) \<Rightarrow> (nat \<Rightarrow> rat) \<Rightarrow> py_str option \<Rightarrow> py_str
     \<Rightarrow> (py_str \<times> py_str) list \<Rightarrow> (nat \<Rightarrow> exchange) \<Rightarrow> int \<times> http_request list \<times> py_str list \<times> py_str list" where
  "send_main hmac settings url args repeats now unix_time asked uuid_hex added exchanges =
     (case secret_for_source settings (sa_source args) of
        None \<Rightarrow> (1, [], [], [''no secret configured for source '' @ py_repr (sa_source args) @ ''; add it to WEBHOOK_SECRETS in .env''])
      | Some secret \<Rightarrow> let event_id = chosen_event_id asked uuid_hex in
          (0, map (\<lambda>i. sent_request hmac args secret (now i) (unix_time i) event_id added) [0..<repeats],
           (''POST '' @ url @ ''/v1/webhooks/'' @ sa_source args @ ''  (event id: '' @ event_id @ '')'')
             # concat (map (\<lambda>i. (''delivery '' @ show_nat (Suc i) @ ''/'' @ show_nat repeats @ '':'')
                             # fst (snd (send_outcome url (exchanges i)))) [0..<repeats]),
           concat (map (\<lambda>i. snd (snd (send_outcome url (exchanges i)))) [0..<repeats])))"

text \<open>The effect a sender asks for.\<close>

definition requested_effect :: "send_args \<Rightarrow> effect" where
  "requested_effect args =
     (if sa_event_type args = CREDITED then Credit (sa_entity_id args) (sa_amount args)
      else if sa_event_type args = DEBITED then Credit (sa_entity_id args) (- sa_amount args)
      else SetBalance (sa_entity_id args) (sa_balance args) (case sa_sequence args of None \<Rightarrow> 0 | Some n \<Rightarrow> n))"

section \<open>What the receiver makes of it\<close>

text \<open>What the decoder and pydantic are documented to do with such a document.\<close>

definition reads_back :: "codecs \<Rightarrow> json \<Rightarrow> datetime \<Rightarrow> bool" where
  "reads_back c j now \<longleftrightarrow> json_loads c (encode_utf8 (json_dumps j)) = Inr (sorted_json j)
     \<and> as_datetime c (JStr (isoformat now)) = Some now \<and> (\<forall>s. as_str c (JStr s) = Some s) \<and> (\<forall>n. as_int c (JInt n) = Some n)"

text \<open>Arguments that make sense: an account, one of the three event types with what its handler needs, texts within
  the bounds of the envelope, a dedup key that survives stripping.\<close>

definition sensible :: "send_args \<Rightarrow> py_str \<Rightarrow> bool" where
  "sensible args event_id \<longleftrightarrow>
     sa_entity_type args = ACCOUNT_ENTITY_TYPE
   \<and> 1 \<le> length (sa_entity_id args) \<and> length (sa_entity_id args) \<le> 255 \<and> 1 \<le> length event_id \<and> length event_id \<le> 255
   \<and> (case sa_sequence args of None \<Rightarrow> True | Some n \<Rightarrow> 0 \<le> n)
   \<and> (sa_event_type args = CREDITED \<and> 0 \<le> sa_amount args \<or> sa_event_type args = DEBITED \<and> 0 \<le> sa_amount args
      \<or> sa_event_type args = SNAPSHOT \<and> (case sa_sequence args of None \<Rightarrow> False | Some n \<Rightarrow> 1 \<le> n))
   \<and> (case sa_idempotency_key args of None \<Rightarrow> True
      | Some k \<Rightarrow> py_strip k \<noteq> [] \<and> length (py_strip k) \<le> MAX_IDEMPOTENCY_KEY_LENGTH)"

definition sent_key :: "send_args \<Rightarrow> py_str \<Rightarrow> py_str" where
  "sent_key args event_id = (case sa_idempotency_key args of None \<Rightarrow> event_id | Some k \<Rightarrow> py_strip k)"

text \<open>The HTTP library adds no header of the program's.\<close>

definition only_transport :: "(py_str \<times> py_str) list \<Rightarrow> bool" where
  "only_transport added \<longleftrightarrow> ''x-webhook-signature'' \<notin> fst ` set added \<and> ''idempotency-key'' \<notin> fst ` set added"

text \<open>A bare call makes sense.\<close>

lemma default_args_sensible: "1 \<le> length event_id \<Longrightarrow> length event_id \<le> 255 \<Longrightarrow> sensible default_args event_id"
  by (simp add: sensible_def default_args_def ACCOUNT_ENTITY_TYPE_def CREDITED_def)

text \<open>An answered delivery, an error answer included, is reported on the standard output alone.\<close>

definition answered :: "exchange \<Rightarrow> bool" where
  "answered x = (case x of Unreachable _ \<Rightarrow> False | _ \<Rightarrow> True)"

lemma answered_quiet: "(snd (snd (send_outcome url x)) = []) = answered x"
  by (cases x) (simp_all add: send_outcome_def answered_def)

text \<open>With a secret the exit code is 0, however the deliveries end: only the standard error tells of a receiver that is not there.\<close>

lemma send_main_prints:
  assumes "secret_for_source st (sa_source args) = Some secret"
    and run: "send_main hmac st url args repeats now unix_time asked uuid_hex added exchanges = (code, requests, out, err)"
  shows "code = 0 \<and> length requests = repeats \<and> (err = [] \<longleftrightarrow> (\<forall>i<repeats. answered (exchanges i)))"
proof -
  have "code = 0" "length requests = repeats"
    and err: "err = concat (map (\<lambda>i. snd (snd (send_outcome url (exchanges i)))) [0..<repeats])"
    using run by (simp_all add: send_main_def assms(1) Let_def) (auto simp only: length_map length_upt diff_zero)
  then show ?thesis by (auto simp: err concat_eq_Nil_conv answered_quiet)
qed

lemma distinct_sort_key: "distinct (map g (sort_key f xs)) = distinct (map g xs)"
proof -
  have "mset (map g (sort_key f xs)) = mset (map g xs)" by simp
  then show ?thesis by (rule mset_eq_imp_distinct_iff)
qed

lemma json_get_sorted: "distinct (map fst xs) \<Longrightarrow> json_get (sort_key f xs) k = json_get xs k"
proof -
  assume d: "distinct (map fst xs)"
  then have "distinct (map fst (sort_key f xs))" by (simp only: distinct_sort_key)
  then have "map_of (sort_key f xs) k = Some v \<longleftrightarrow> map_of xs k = Some v" for v
    using d by (simp add: map_of_eq_Some_iff)
  then show ?thesis unfolding json_get_def by (metis not_None_eq)
qed

text \<open>The envelope the receiver reads.\<close>

definition read_envelope :: "send_args \<Rightarrow> datetime \<Rightarrow> py_str \<Rightarrow> envelope" where
  "read_envelope args now event_id =
     \<lparr>en_id = event_id, en_type = sa_event_type args, en_occurred_at = now, en_entity_type = sa_entity_type args,
      en_entity_id = sa_entity_id args,
      en_data = (if sa_event_type args = SNAPSHOT then [(''balance'', JInt (sa_balance args))] else [(''amount'', JInt (sa_amount args))]),
      en_sequence = sa_sequence args\<rparr>"

lemma sent_envelope_read:
  assumes c: "reads_back c (sent_envelope args now event_id) now" and s: "sensible args event_id"
  shows "parse_envelope c (build_body args now event_id) = Inr (read_envelope args now event_id)"
proof -
  let ?entity = "sort_key fst [(''type'', JStr (sa_entity_type args)), (''id'', JStr (sa_entity_id args))]"
  let ?data = "if sa_event_type args = SNAPSHOT then [(''balance'', JInt (sa_balance args))] else [(''amount'', JInt (sa_amount args))]"
  let ?fields = "[(''id'', JStr event_id), (''type'', JStr (sa_event_type args)), (''occurred_at'', JStr (isoformat now)),
      (''entity'', JObj ?entity), (''data'', JObj ?data)] @ (case sa_sequence args of None \<Rightarrow> [] | Some n \<Rightarrow> [(''sequence'', JInt n)])"
  have j: "sorted_json (sent_envelope args now event_id) = JObj (sort_key fst ?fields)"
    by (simp add: sent_envelope_def Let_def split: option.splits)
  have d: "distinct (map fst ?fields)" by (simp split: option.splits)
  have get: "json_get (sort_key fst ?fields) ''id'' = Some (JStr event_id)"
    "json_get (sort_key fst ?fields) ''type'' = Some (JStr (sa_event_type args))"
    "json_get (sort_key fst ?fields) ''occurred_at'' = Some (JStr (isoformat now))"
    "json_get (sort_key fst ?fields) ''entity'' = Some (JObj ?entity)"
    "json_get (sort_key fst ?fields) ''data'' = Some (JObj ?data)"
    "json_get (sort_key fst ?fields) ''sequence'' = map_option JInt (sa_sequence args)"
    "json_get ?entity ''type'' = Some (JStr (sa_entity_type args))" "json_get ?entity ''id'' = Some (JStr (sa_entity_id args))"
    by (simp_all only: json_get_sorted [OF d], simp_all add: json_get_sorted)
       (simp_all add: json_get_def split: option.splits)
  have types: "1 \<le> length (sa_event_type args)" "length (sa_event_type args) \<le> 128" "sa_entity_type args = ''account''"
    using s by (auto simp: sensible_def event_type_defs ACCOUNT_ENTITY_TYPE_def)
  have read: "as_datetime c (JStr (isoformat now)) = Some now" "as_str c (JStr t) = Some t" "as_int c (JInt n) = Some n" for t n
    using c by (auto simp: reads_back_def)
  have bounds: "1 \<le> length (sa_entity_id args)" "length (sa_entity_id args) \<le> 255" "1 \<le> length event_id" "length event_id \<le> 255"
    "case sa_sequence args of None \<Rightarrow> True | Some n \<Rightarrow> 0 \<le> n"
    using s by (simp_all add: sensible_def)
  have fields: "str_field c [''id''] 1 255 (Some (JStr event_id)) = Inr event_id"
    "str_field c [''type''] 1 128 (Some (JStr (sa_event_type args))) = Inr (sa_event_type args)"
    "datetime_field c [''occurred_at''] (Some (JStr (isoformat now))) = Inr now"
    "entity_field c (Some (JObj ?entity)) = Inr (sa_entity_type args, sa_entity_id args)"
    "data_field [''data''] (Some (JObj ?data)) = Inr ?data"
    "sequence_field c [''sequence''] (map_option JInt (sa_sequence args)) = Inr (sa_sequence args)"
    subgoal using bounds by (simp add: str_field_def read)
    subgoal using types by (simp add: str_field_def read)
    subgoal by (simp add: datetime_field_def read)
    subgoal unfolding entity_field_def option.case json.case get(7,8) str_field_def read using bounds(1,2) types(3) by simp
    subgoal by (simp add: data_field_def)
    subgoal using bounds(5) by (simp add: sequence_field_def read split: option.splits)
    done
  have "validate_envelope c (sort_key fst ?fields) = Inr (read_envelope args now event_id)"
    unfolding validate_envelope_def Let_def get fields by (simp add: read_envelope_def)
  with c j show ?thesis by (auto simp: parse_envelope_Inr reads_back_def build_body_def)
qed

lemma sent_headers_read:
  assumes "only_transport added"
  shows "get_header (rq_headers (sent_request hmac args secret now unix_time event_id added)) SIGNATURE_HEADER
      = Some (signed_header hmac secret (py_trunc unix_time + sa_skew args) (build_body args now event_id))"
    and "get_header (rq_headers (sent_request hmac args secret now unix_time event_id added)) IDEMPOTENCY_KEY_HEADER = sa_idempotency_key args"
proof -
  have lower: "py_lower SIGNATURE_HEADER = ''x-webhook-signature''" "py_lower IDEMPOTENCY_KEY_HEADER = ''idempotency-key''"
    "py_lower ''Content-Type'' = ''content-type''" "py_lower ''Idempotency-Key'' = ''idempotency-key''"
    by code_simp+
  have none: "map_of added ''x-webhook-signature'' = None" "map_of added ''idempotency-key'' = None"
    using assms by (simp_all add: only_transport_def map_of_eq_None_iff)
  note defs = get_header_def sent_request_def arrives_def sent_headers_def lower map_add_def none Let_def
  show "get_header (rq_headers (sent_request hmac args secret now unix_time event_id added)) SIGNATURE_HEADER
      = Some (signed_header hmac secret (py_trunc unix_time + sa_skew args) (build_body args now event_id))"
    by (simp add: defs)
  show "get_header (rq_headers (sent_request hmac args secret now unix_time event_id added)) IDEMPOTENCY_KEY_HEADER = sa_idempotency_key args"
    by (simp add: defs split: option.splits)
qed

lemma sent_delivery_read:
  assumes c: "reads_back c (sent_envelope args now event_id) now" and s: "sensible args event_id" and h: "only_transport added"
  obtains ev where "read_delivery c (sent_request hmac args secret now unix_time event_id added) = Inr ev"
    "delivery_key ev = (sa_source args, sent_key args event_id)"
    "\<And>n t. dispatch balance_registry (to_domain (new_webhook_event t ev n)) = Inr (requested_effect args)"
proof -
  let ?rq = "sent_request hmac args secret now unix_time event_id added"
  let ?ev = "to_incoming_event (sa_source args) (read_envelope args now event_id) (en_data (read_envelope args now event_id))
      (redact_headers (headers_dict (rq_headers ?rq))) (sent_key args event_id) True"
  have rq: "rq_body ?rq = build_body args now event_id" "rq_source ?rq = sa_source args"
    by (simp_all add: sent_request_def arrives_def Let_def)
  have key: "resolve_idempotency_key (read_envelope args now event_id) (sa_idempotency_key args) = Inr (sent_key args event_id)"
    using s by (auto simp: resolve_idempotency_key_def sent_key_def sensible_def read_envelope_def Let_def split: option.splits)
  have "read_delivery c ?rq = Inr ?ev"
    unfolding read_delivery_def rq sent_envelope_read [OF c s] sent_headers_read(2) [OF h] by (simp add: key)
  moreover have "delivery_key ?ev = (sa_source args, sent_key args event_id)" by (simp add: delivery_key_def to_incoming_event_def)
  moreover have "dispatch balance_registry (to_domain (new_webhook_event t ?ev n)) = Inr (requested_effect args)" for n t
    using s by (auto simp: dispatch_def map_of_balance_registry to_domain_def new_webhook_event_def to_incoming_event_def read_envelope_def
        sensible_def requested_effect_def handler_defs parts_Inr json_get_def minor_units_def non_negative_def account_ref_of_def
        ACCOUNT_ENTITY_TYPE_def MIN_SEQUENCE_def Let_def event_type_defs split: option.splits)
  ultimately show thesis by (rule that)
qed

text \<open>C16. What the sender asks for is what the worker will do. A request the script builds from sensible arguments, signed with the secret
  of its source and arriving within the tolerance and the size limit, is never turned away: when it is answered, the answer is 200
  for a stored event with the dedup key the sender chose, and when that event is new, dispatching it yields the very effect
  the sender asked for.\<close>

theorem sent_delivery_arrives:
  assumes c: "reads_back c (sent_envelope args now event_id) now" and s: "sensible args event_id" and h: "only_transport added"
    and secret: "secret_for_source st (sa_source args) = Some secret"
    and digest: "is_hexdigest (expected_signature hmac secret (py_trunc unix_time + sa_skew args) (build_body args now event_id))"
    and fresh: "check_timestamp (py_trunc unix_time + sa_skew args) (app_clock (env w) (ticks w)) (signature_timestamp_tolerance_seconds st) = Inr ()"
    and size: "int (length (build_body args now event_id)) \<le> max_payload_bytes st"
    and run: "ingest hmac c st (sent_request hmac args secret now unix_time event_id added) w = (Inr resp, w')"
  shows "\<exists>r row. resp = accepted r \<and> row \<in> set (webhook_event_t (tables w')) \<and> ev_id row = ir_event_id r
    \<and> ev_key row = (sa_source args, sent_key args event_id)
    \<and> (\<not> ir_duplicate r \<longrightarrow> dispatch balance_registry (to_domain row) = Inr (requested_effect args))"
proof -
  let ?rq = "sent_request hmac args secret now unix_time event_id added" and ?body = "build_body args now event_id"
  let ?w1 = "w\<lparr>ticks := Suc (ticks w)\<rparr>"
  obtain ev where ev: "read_delivery c ?rq = Inr ev" "delivery_key ev = (sa_source args, sent_key args event_id)"
    "\<And>n t. dispatch balance_registry (to_domain (new_webhook_event t ev n)) = Inr (requested_effect args)"
    using sent_delivery_read [OF c s h, of hmac secret unix_time] by metis
  have rq: "rq_body ?rq = ?body" "rq_source ?rq = sa_source args" by (simp_all add: sent_request_def arrives_def Let_def)
  have "verify_signature hmac secret ?body (Some (signed_header hmac secret (py_trunc unix_time + sa_skew args) ?body))
      (app_clock (env w) (ticks w)) (signature_timestamp_tolerance_seconds st) = Inr ()"
    by (rule signed_header_verifies [OF digest fresh])
  with size have blk: "ingest_block hmac c st ?rq w = bind_tx (session_scope (ingest_event ev)) (\<lambda>r. return_tx (Inr r)) ?w1"
    by (simp add: ingest_block_def Let_def rq secret sent_headers_read(1) [OF h] ev(1) bind_tx_def clock_now_def)
  obtain y w2 where y: "session_scope (ingest_event ev) ?w1 = (y, w2)" by (cases "session_scope (ingest_event ev) ?w1")
  obtain r where r: "y = Inr r" "resp = accepted r" "tables w' = tables w2"
    using run by (cases y) (auto simp: ingest_def timed_def blk y bind_tx_def return_tx_def inc_def)
  from y [unfolded r(1)] obtain w3 where b: "ingest_event ev (begin_tx ?w1) = (Inr r, w3)" and t: "tables w2 = tables w3"
    by (cases rule: session_scope_cases) auto
  from b show ?thesis
  proof (cases rule: ingest_event_ok)
    case new
    let ?row = "new_webhook_event (tx_now (begin_tx ?w1)) ev (sq_event (seqs (begin_tx ?w1)))"
    have "?row \<in> set (webhook_event_t (tables w'))" "ev_id ?row = ir_event_id r" using new r(3) t by (auto simp: new_webhook_event_def)
    moreover have "ev_key ?row = (sa_source args, sent_key args event_id)" using ev(2) by simp
    ultimately show ?thesis using ev(3) r(2) by blast
  next
    case (duplicate row)
    then show ?thesis
      using find_row_Some [OF duplicate(1)] ev(2) r(2,3) t by (intro exI [of _ r] exI [of _ row]) auto
  qed
qed

end
