(* ===== verification/Scenario_Sender.thy ===== *)
theory Scenario_Sender
  imports Scenario_Http Sender
begin

text \<open>
  The script sends the demo credit and the demo deployment stores it.
\<close>

lemma show_small: "n < 10 \<Longrightarrow> show_nat n = [digit_char n]" by (simp add: show_nat.simps)
lemma show_large: "10 \<le> n \<Longrightarrow> show_nat n = show_nat (n div 10) @ [digit_char (n mod 10)]" by (subst show_nat.simps) simp

lemma digits: "digit_char 0 = CHR ''0''" "digit_char (Suc 0) = CHR ''1''" "digit_char 1 = CHR ''1''" "digit_char 2 = CHR ''2''" "digit_char 3 = CHR ''3''" "digit_char 4 = CHR ''4''"
  "digit_char 5 = CHR ''5''" "digit_char 6 = CHR ''6''" "digit_char 7 = CHR ''7''" "digit_char 8 = CHR ''8''" "digit_char 9 = CHR ''9''"
  by code_simp+

lemma isoformat_examples:
  "isoformat 0 = ''1970-01-01T00:00:00+00:00''"
  "isoformat 2000000 = ''1970-01-01T00:00:02+00:00''"
  "isoformat 1709210096123456 = ''2024-02-29T12:34:56.123456+00:00''"
  by (simp_all add: isoformat_def civil_defs zero_padded_def show_small show_large digits Let_def)

definition credit_args :: send_args where
  "credit_args = \<lparr>sa_source = ''acme'', sa_event_type = CREDITED, sa_entity_type = ''account'', sa_entity_id = ''a'', sa_amount = 5,
     sa_balance = 1000, sa_sequence = Some 1, sa_idempotency_key = None, sa_skew = 0\<rparr>"

lemma credit_body_length: "length (build_body credit_args 2000000 ''e1'') = 164"
  by (simp add: build_body_def encode_utf8_def sent_envelope_def credit_args_def isoformat_examples json_string_def json_escape_def
      event_type_defs show_small digits show_int_def Let_def)

definition credit_codecs :: codecs where
  "credit_codecs = demo_codecs\<lparr>json_loads := (\<lambda>_. Inr (sorted_json (sent_envelope credit_args 2000000 ''e1''))),
     as_datetime := (\<lambda>j. case j of JStr _ \<Rightarrow> Some 2000000 | _ \<Rightarrow> None)\<rparr>"

lemma credit_answered:
  "fst (ingest demo_hmac credit_codecs demo_settings (sent_request demo_hmac credit_args ''secret'' 2000000 2 ''e1'' []) start_world)
     = Inr (accepted \<lparr>ir_event_id = 1, ir_duplicate = False\<rparr>)"
  by code_simp

theorem sent_delivery_arrives_witness:
  "\<exists>row \<in> set (webhook_event_t (tables (snd (ingest demo_hmac credit_codecs demo_settings
       (sent_request demo_hmac credit_args ''secret'' 2000000 2 ''e1'' []) start_world)))). dispatch balance_registry (to_domain row) = Inr (Credit ''a'' 5)"
proof -
  have c: "reads_back credit_codecs (sent_envelope credit_args 2000000 ''e1'') 2000000"
    by (simp add: reads_back_def credit_codecs_def demo_codecs_def)
  have s: "sensible credit_args ''e1''" by code_simp
  have secret: "secret_for_source demo_settings (sa_source credit_args) = Some ''secret''" by code_simp
  have digest: "is_hexdigest (expected_signature demo_hmac ''secret'' (py_trunc 2 + sa_skew credit_args) (build_body credit_args 2000000 ''e1''))"
    by (simp add: is_hexdigest_def expected_signature_def demo_hmac_def)
  have fresh: "check_timestamp (py_trunc 2 + sa_skew credit_args) (app_clock (env start_world) (ticks start_world))
      (signature_timestamp_tolerance_seconds demo_settings) = Inr ()" by code_simp
  have size: "int (length (build_body credit_args 2000000 ''e1'')) \<le> max_payload_bytes demo_settings"
    unfolding credit_body_length by code_simp
  from sent_delivery_arrives [OF c s _ secret digest fresh size, of "[]" "accepted \<lparr>ir_event_id = 1, ir_duplicate = False\<rparr>"] credit_answered
  obtain r row where "accepted \<lparr>ir_event_id = 1, ir_duplicate = False\<rparr> = accepted r"
    "row \<in> set (webhook_event_t (tables (snd (ingest demo_hmac credit_codecs demo_settings
       (sent_request demo_hmac credit_args ''secret'' 2000000 2 ''e1'' []) start_world))))"
    "\<not> ir_duplicate r \<longrightarrow> dispatch balance_registry (to_domain row) = Inr (requested_effect credit_args)"
    by (metis only_transport_def empty_iff image_empty list.set(1) prod.collapse)
  moreover have "requested_effect credit_args = Credit ''a'' 5" by code_simp
  ultimately show ?thesis by (auto simp: accepted_def)
qed

end
