(* ===== verification/Enums.thy ===== *)
theory Enums
  imports Domain
begin

text \<open>
  The enums of \<open>domain/enums.py\<close> as finite types: iterating over a class visits its members in the order they are
  declared in, which is what the mapping of an enum to a database type relies on.
\<close>

lemma enum_UNIVs:
  "(UNIV :: webhook_status set) = {PENDING, PROCESSING, SUCCEEDED, DEAD_LETTERED}"
  "(UNIV :: attempt_outcome set) = {ATT_SUCCEEDED, ATT_SUPERSEDED, RETRYABLE_ERROR, NON_RETRYABLE_ERROR}"
  "(UNIV :: dlq_status set) = {NEEDS_REVIEW, REPLAYING, RESOLVED, DISCARDED}"
  "(UNIV :: replay_outcome set) = {REP_SUCCEEDED, SKIPPED_ALREADY_PROCESSED, REP_FAILED}"
proof -
  show "(UNIV :: webhook_status set) = {PENDING, PROCESSING, SUCCEEDED, DEAD_LETTERED}" by (rule set_eqI, rename_tac x, case_tac x; simp)
  show "(UNIV :: attempt_outcome set) = {ATT_SUCCEEDED, ATT_SUPERSEDED, RETRYABLE_ERROR, NON_RETRYABLE_ERROR}" by (rule set_eqI, rename_tac x, case_tac x; simp)
  show "(UNIV :: dlq_status set) = {NEEDS_REVIEW, REPLAYING, RESOLVED, DISCARDED}" by (rule set_eqI, rename_tac x, case_tac x; simp)
  show "(UNIV :: replay_outcome set) = {REP_SUCCEEDED, SKIPPED_ALREADY_PROCESSED, REP_FAILED}" by (rule set_eqI, rename_tac x, case_tac x; simp)
qed

instantiation webhook_status :: enum
begin

definition enum_webhook_status :: "webhook_status list" where
  "enum_webhook_status = [PENDING, PROCESSING, SUCCEEDED, DEAD_LETTERED]"

definition enum_all_webhook_status :: "(webhook_status \<Rightarrow> bool) \<Rightarrow> bool" where
  "enum_all_webhook_status P = list_all P [PENDING, PROCESSING, SUCCEEDED, DEAD_LETTERED]"

definition enum_ex_webhook_status :: "(webhook_status \<Rightarrow> bool) \<Rightarrow> bool" where
  "enum_ex_webhook_status P = list_ex P [PENDING, PROCESSING, SUCCEEDED, DEAD_LETTERED]"

instance
  by standard (simp_all add: enum_webhook_status_def enum_all_webhook_status_def enum_ex_webhook_status_def enum_UNIVs)

end

instantiation attempt_outcome :: enum
begin

definition enum_attempt_outcome :: "attempt_outcome list" where
  "enum_attempt_outcome = [ATT_SUCCEEDED, ATT_SUPERSEDED, RETRYABLE_ERROR, NON_RETRYABLE_ERROR]"

definition enum_all_attempt_outcome :: "(attempt_outcome \<Rightarrow> bool) \<Rightarrow> bool" where
  "enum_all_attempt_outcome P = list_all P [ATT_SUCCEEDED, ATT_SUPERSEDED, RETRYABLE_ERROR, NON_RETRYABLE_ERROR]"

definition enum_ex_attempt_outcome :: "(attempt_outcome \<Rightarrow> bool) \<Rightarrow> bool" where
  "enum_ex_attempt_outcome P = list_ex P [ATT_SUCCEEDED, ATT_SUPERSEDED, RETRYABLE_ERROR, NON_RETRYABLE_ERROR]"

instance
  by standard (simp_all add: enum_attempt_outcome_def enum_all_attempt_outcome_def enum_ex_attempt_outcome_def enum_UNIVs)

end

instantiation dlq_status :: enum
begin

definition enum_dlq_status :: "dlq_status list" where
  "enum_dlq_status = [NEEDS_REVIEW, REPLAYING, RESOLVED, DISCARDED]"

definition enum_all_dlq_status :: "(dlq_status \<Rightarrow> bool) \<Rightarrow> bool" where
  "enum_all_dlq_status P = list_all P [NEEDS_REVIEW, REPLAYING, RESOLVED, DISCARDED]"

definition enum_ex_dlq_status :: "(dlq_status \<Rightarrow> bool) \<Rightarrow> bool" where
  "enum_ex_dlq_status P = list_ex P [NEEDS_REVIEW, REPLAYING, RESOLVED, DISCARDED]"

instance
  by standard (simp_all add: enum_dlq_status_def enum_all_dlq_status_def enum_ex_dlq_status_def enum_UNIVs)

end

instantiation replay_outcome :: enum
begin

definition enum_replay_outcome :: "replay_outcome list" where
  "enum_replay_outcome = [REP_SUCCEEDED, SKIPPED_ALREADY_PROCESSED, REP_FAILED]"

definition enum_all_replay_outcome :: "(replay_outcome \<Rightarrow> bool) \<Rightarrow> bool" where
  "enum_all_replay_outcome P = list_all P [REP_SUCCEEDED, SKIPPED_ALREADY_PROCESSED, REP_FAILED]"

definition enum_ex_replay_outcome :: "(replay_outcome \<Rightarrow> bool) \<Rightarrow> bool" where
  "enum_ex_replay_outcome P = list_ex P [REP_SUCCEEDED, SKIPPED_ALREADY_PROCESSED, REP_FAILED]"

instance
  by standard (simp_all add: enum_replay_outcome_def enum_all_replay_outcome_def enum_ex_replay_outcome_def enum_UNIVs)

end

lemmas enums = enum_webhook_status_def enum_attempt_outcome_def enum_dlq_status_def enum_replay_outcome_def

text \<open>The values of different members differ, so a value names its member.\<close>

lemma values_distinct:
  "distinct (map webhook_status_value enum_class.enum)" "distinct (map attempt_outcome_value enum_class.enum)"
  "distinct (map dlq_status_value enum_class.enum)" "distinct (map replay_outcome_value enum_class.enum)"
  by (simp_all add: enums)

end
