(* ===== verification/Orm_Schema.thy ===== *)
theory Orm_Schema
  imports Migrations Enums "HOL-Library.Sublist"
begin

text \<open>
  The schema the ORM declares (\<open>adapters/orm.py\<close>): its mapped classes as data, turned into tables by the rules of the
  declarative mapping -- the type annotation map, nullability from the annotation, names from the naming
  convention. The migrated schema is this one; and what the table model of the other theories demands of its rows
  is what the migrated constraints say.
\<close>

section \<open>Declarations\<close>

datatype py_type = T_int | T_str | T_bool | T_datetime | T_json | T_enum

record mapped =
  mp_name :: py_str
  mp_type :: py_type
  mp_optional :: bool
  mp_column :: "sql_type option"
  mp_primary :: bool
  mp_default :: "server_default option"
  mp_foreign_key :: "(py_str \<times> on_delete) option"

datatype table_arg =
    UniqueConstraint "py_str list" py_str
  | Index py_str "py_str list"
  | CheckConstraint "py_str \<times> int" py_str

record orm_class =
  oc_tablename :: py_str
  oc_table_args :: "table_arg list"
  oc_columns :: "mapped list"

definition NAMING_CONVENTION :: "(py_str \<times> py_str) list" where
  "NAMING_CONVENTION =
    [(''ix'', ''ix_%(table_name)s_%(column_0_N_name)s''), (''uq'', ''uq_%(table_name)s_%(column_0_N_name)s''),
     (''ck'', ''ck_%(table_name)s_%(constraint_name)s''), (''fk'', ''fk_%(table_name)s_%(column_0_name)s_%(referred_table_name)s''),
     (''pk'', ''pk_%(table_name)s'')]"

definition type_annotation_map :: "py_type \<Rightarrow> sql_type" where
  "type_annotation_map ty = (case ty of T_json \<Rightarrow> Jsonb | T_datetime \<Rightarrow> Timestamptz
     | T_int \<Rightarrow> Integer | T_str \<Rightarrow> Varchar | T_bool \<Rightarrow> Boolean | T_enum \<Rightarrow> Varchar)"

definition field :: "py_str \<Rightarrow> py_type \<Rightarrow> sql_type option \<Rightarrow> mapped" where
  "field n ty column = \<lparr>mp_name = n, mp_type = ty, mp_optional = False, mp_column = column, mp_primary = False,
     mp_default = None, mp_foreign_key = None\<rparr>"

definition optional :: "mapped \<Rightarrow> mapped" where
  "optional m = m\<lparr>mp_optional := True\<rparr>"

definition defaulting :: "server_default \<Rightarrow> mapped \<Rightarrow> mapped" where
  "defaulting d m = m\<lparr>mp_default := Some d\<rparr>"

definition references :: "py_str \<Rightarrow> on_delete \<Rightarrow> mapped \<Rightarrow> mapped" where
  "references target act m = m\<lparr>mp_foreign_key := Some (target, act)\<rparr>"

definition pk :: mapped where
  "pk = (field ''id'' T_int (Some BigInteger))\<lparr>mp_primary := True\<rparr>"

definition pg_enum :: "py_str \<Rightarrow> sql_type option" where
  "pg_enum name = Some (Enum_type name)"

section \<open>The mapped classes\<close>

definition WebhookEvent :: orm_class where
  "WebhookEvent = \<lparr>oc_tablename = ''webhook_event'',
     oc_table_args = [UniqueConstraint [''source'', ''idempotency_key''] ''uq_webhook_event_source_idempotency_key'',
       Index ''ix_webhook_event_status_next_attempt_at'' [''status'', ''next_attempt_at''],
       Index ''ix_webhook_event_entity_type_entity_id'' [''entity_type'', ''entity_id''],
       CheckConstraint (''attempt_count'', 0) ''attempt_count_non_negative''],
     oc_columns = [pk, field ''source'' T_str (Some Text), field ''external_id'' T_str (Some Text),
       field ''idempotency_key'' T_str (Some Text), field ''event_type'' T_str (Some Text),
       field ''entity_type'' T_str (Some Text), field ''entity_id'' T_str (Some Text),
       field ''payload'' T_json (Some Jsonb), field ''headers'' T_json (Some Jsonb),
       field ''signature_verified'' T_bool (Some Boolean), field ''occurred_at'' T_datetime None,
       optional (field ''provider_sequence'' T_int (Some BigInteger)),
       defaulting func_now (field ''received_at'' T_datetime None),
       defaulting (plain (webhook_status_value PENDING)) (field ''status'' T_enum (pg_enum ''webhook_status'')),
       defaulting (plain ''0'') (field ''attempt_count'' T_int (Some Integer)),
       defaulting func_now (field ''next_attempt_at'' T_datetime None),
       optional (field ''processed_at'' T_datetime None), optional (field ''last_error'' T_str (Some Text))]\<rparr>"

definition ProcessingAttempt :: orm_class where
  "ProcessingAttempt = \<lparr>oc_tablename = ''processing_attempt'',
     oc_table_args = [UniqueConstraint [''event_id'', ''attempt_number''] ''uq_processing_attempt_event_id_attempt_number'',
       Index ''ix_processing_attempt_event_id'' [''event_id''],
       CheckConstraint (''attempt_number'', 1) ''attempt_number_positive''],
     oc_columns = [pk, references ''webhook_event.id'' CASCADE (field ''event_id'' T_int (Some BigInteger)),
       field ''attempt_number'' T_int (Some Integer), defaulting func_now (field ''started_at'' T_datetime None),
       optional (field ''finished_at'' T_datetime None), optional (field ''outcome'' T_enum (pg_enum ''attempt_outcome'')),
       optional (field ''error_class'' T_str (Some Text)), optional (field ''error_detail'' T_str (Some Text)),
       optional (field ''duration_ms'' T_int (Some Integer))]\<rparr>"

definition DeadLetterEntry :: orm_class where
  "DeadLetterEntry = \<lparr>oc_tablename = ''dead_letter_entry'',
     oc_table_args = [UniqueConstraint [''event_id''] ''uq_dead_letter_entry_event_id'',
       Index ''ix_dead_letter_entry_status'' [''status''], CheckConstraint (''attempts_made'', 0) ''attempts_made_non_negative''],
     oc_columns = [pk, references ''webhook_event.id'' CASCADE (field ''event_id'' T_int (Some BigInteger)),
       field ''reason'' T_str (Some Text), field ''attempts_made'' T_int (Some Integer),
       defaulting func_now (field ''dead_lettered_at'' T_datetime None),
       defaulting (plain (dlq_status_value NEEDS_REVIEW)) (field ''status'' T_enum (pg_enum ''dlq_status'')),
       optional (field ''resolved_at'' T_datetime None), optional (field ''resolution_note'' T_str (Some Text))]\<rparr>"

definition ReplayRequest :: orm_class where
  "ReplayRequest = \<lparr>oc_tablename = ''replay_request'',
     oc_table_args = [Index ''ix_replay_request_event_id'' [''event_id'']],
     oc_columns = [pk, references ''webhook_event.id'' CASCADE (field ''event_id'' T_int (Some BigInteger)),
       field ''requested_by'' T_str (Some Text), defaulting func_now (field ''requested_at'' T_datetime None),
       optional (field ''reason'' T_str (Some Text)), optional (field ''outcome'' T_enum (pg_enum ''replay_outcome'')),
       references ''processing_attempt.id'' SET_NULL (optional (field ''resulting_attempt_id'' T_int (Some BigInteger)))]\<rparr>"

definition Account :: orm_class where
  "Account = \<lparr>oc_tablename = ''account'',
     oc_table_args = [UniqueConstraint [''external_ref''] ''uq_account_external_ref'',
       CheckConstraint (''version'', 0) ''version_non_negative''],
     oc_columns = [pk, field ''external_ref'' T_str (Some Text),
       defaulting (plain ''0'') (field ''balance_minor'' T_int (Some BigInteger)),
       defaulting (plain ''0'') (field ''version'' T_int (Some BigInteger)),
       defaulting func_now (field ''updated_at'' T_datetime None)]\<rparr>"

definition LedgerEntry :: orm_class where
  "LedgerEntry = \<lparr>oc_tablename = ''ledger_entry'',
     oc_table_args = [UniqueConstraint [''event_id''] ''uq_ledger_entry_event_id'',
       Index ''ix_ledger_entry_account_id'' [''account_id'']],
     oc_columns = [pk, references ''account.id'' RESTRICT (field ''account_id'' T_int (Some BigInteger)),
       references ''webhook_event.id'' CASCADE (field ''event_id'' T_int (Some BigInteger)),
       field ''amount_minor'' T_int (Some BigInteger), defaulting func_now (field ''created_at'' T_datetime None)]\<rparr>"

definition orm_classes :: "orm_class list" where
  "orm_classes = [WebhookEvent, ProcessingAttempt, DeadLetterEntry, ReplayRequest, Account, LedgerEntry]"

section \<open>The metadata\<close>

lemma py_partition_rest: "py_partition c s = (a, found, b) \<Longrightarrow> length b \<le> length s"
  by (induction s arbitrary: a) (auto split: if_splits prod.splits)

text \<open>\<open>%(key)s\<close> templates.\<close>

function render :: "(py_str \<times> py_str) list \<Rightarrow> py_str \<Rightarrow> py_str" where
  "render ctx [] = []"
| "render ctx (c # s) =
     (if c = CHR ''%'' \<and> take 1 s = ''(''
      then (case py_partition (CHR '')'') (tl s) of
              (key, found, rest) \<Rightarrow> (case map_of ctx key of None \<Rightarrow> [] | Some v \<Rightarrow> v) @ render ctx (tl rest))
      else c # render ctx s)"
  by pat_completeness auto

termination
  by (relation "measure (\<lambda>(ctx, s). length s)")
     (auto dest!: sym [of "(_, _, _)"] py_partition_rest simp: less_Suc_eq_le)

text \<open>A given name stays, unless the convention of its kind is built around it.\<close>

definition conventional :: "py_str \<Rightarrow> (py_str \<times> py_str) list \<Rightarrow> py_str option \<Rightarrow> py_str" where
  "conventional kind ctx given =
     (let template = the (map_of NAMING_CONVENTION kind) in
      case given of
        None \<Rightarrow> render ctx template
      | Some n \<Rightarrow> if sublist ''%(constraint_name)s'' template then render ((''constraint_name'', n) # ctx) template else n)"

definition mapped_column :: "mapped \<Rightarrow> column" where
  "mapped_column m = \<lparr>cl_name = mp_name m,
     cl_type = (case mp_column m of None \<Rightarrow> type_annotation_map (mp_type m) | Some ty \<Rightarrow> ty),
     cl_nullable = mp_optional m, cl_identity = mp_primary m, cl_default = mp_default m\<rparr>"

definition foreign_key :: "py_str \<Rightarrow> mapped \<Rightarrow> constraint list" where
  "foreign_key table m =
     (case mp_foreign_key m of
        None \<Rightarrow> []
      | Some (target, act) \<Rightarrow>
          (case py_partition (CHR ''.'') target of
             (ref, _, k) \<Rightarrow> [Foreign_Key (conventional ''fk''
                [(''table_name'', table), (''column_0_name'', mp_name m), (''referred_table_name'', ref)] None)
                (mp_name m) (ref, k) act]))"

fun arg_constraint :: "py_str \<Rightarrow> table_arg \<Rightarrow> constraint list" where
  "arg_constraint table (UniqueConstraint cs n) = [Unique (conventional ''uq'' [(''table_name'', table)] (Some n)) cs]"
| "arg_constraint table (CheckConstraint (c, b) n) = [Check (conventional ''ck'' [(''table_name'', table)] (Some n)) c b]"
| "arg_constraint table (Index _ _) = []"

fun arg_index :: "py_str \<Rightarrow> table_arg \<Rightarrow> index_def list" where
  "arg_index table (Index n cs) = [\<lparr>ix_name = n, ix_table = table, ix_columns = cs\<rparr>]"
| "arg_index table _ = []"

definition orm_table :: "orm_class \<Rightarrow> table_def" where
  "orm_table cls = \<lparr>td_name = oc_tablename cls, td_columns = map mapped_column (oc_columns cls),
     td_constraints = Primary_Key (conventional ''pk'' [(''table_name'', oc_tablename cls)] None)
         (map mp_name (filter mp_primary (oc_columns cls)))
       # concat (map (foreign_key (oc_tablename cls)) (oc_columns cls))
       @ concat (map (arg_constraint (oc_tablename cls)) (oc_table_args cls))\<rparr>"

text \<open>\<open>[member.value for member in cls]\<close>, over the members of the class in the order of their declaration.\<close>

definition members :: "('a :: enum \<Rightarrow> py_str) \<Rightarrow> py_str list" where
  "members value_of_member = map value_of_member enum_class.enum"

definition metadata :: catalog where
  "metadata = \<lparr>
     ct_enums = [(''webhook_status'', members webhook_status_value),
       (''attempt_outcome'', members attempt_outcome_value),
       (''dlq_status'', members dlq_status_value),
       (''replay_outcome'', members replay_outcome_value)],
     ct_tables = map orm_table orm_classes,
     ct_indexes = concat (map (\<lambda>cls. concat (map (arg_index (oc_tablename cls)) (oc_table_args cls))) orm_classes),
     ct_objects = []\<rparr>"

section \<open>The same schema\<close>

text \<open>Defaults compare by the value they store: \<open>now()\<close> in either spelling, a quoted or a bare number.\<close>

definition stored_default :: "sql_type \<Rightarrow> server_default \<Rightarrow> sql_value option" where
  "stored_default ty d =
     (case d of
        func_now \<Rightarrow> None
      | sa_text s \<Rightarrow> if s = ''now()'' then None else map_option VInt (py_int s)
      | plain s \<Rightarrow> (case ty of Enum_type _ \<Rightarrow> Some (VEnum s) | BigInteger \<Rightarrow> map_option VInt (py_int s)
                    | Integer \<Rightarrow> map_option VInt (py_int s) | _ \<Rightarrow> Some (VText s)))"

definition same_column :: "column \<Rightarrow> column \<Rightarrow> bool" where
  "same_column a b \<longleftrightarrow> cl_name a = cl_name b \<and> cl_type a = cl_type b \<and> cl_nullable a = cl_nullable b
     \<and> cl_identity a = cl_identity b
     \<and> map_option (stored_default (cl_type a)) (cl_default a) = map_option (stored_default (cl_type b)) (cl_default b)"

definition same_table :: "table_def \<Rightarrow> table_def \<Rightarrow> bool" where
  "same_table a b \<longleftrightarrow> td_name a = td_name b \<and> list_all2 same_column (td_columns a) (td_columns b)
     \<and> set (td_constraints a) = set (td_constraints b)"

definition same_schema :: "catalog \<Rightarrow> catalog \<Rightarrow> bool" where
  "same_schema a b \<longleftrightarrow> ct_enums a = ct_enums b \<and> list_all2 same_table (ct_tables a) (ct_tables b)
     \<and> set (ct_indexes a) = set (ct_indexes b)"

lemma deployed_tables:
  "ct_tables deployed = [webhook_event_0001, processing_attempt_0001, dead_letter_entry_0001, replay_request_0001,
     retype ''account'' ''version'' BigInteger account_0001, ledger_entry_0001]"
  by code_simp

lemma deployed_enums: "ct_enums deployed = ENUMS"
  by code_simp

lemmas table_defs = webhook_event_0001_def processing_attempt_0001_def dead_letter_entry_0001_def replay_request_0001_def
  account_0001_def ledger_entry_0001_def retype_def col_def with_default_def id_column_def ck_def

lemmas values_defs = event_values_def attempt_values_def entry_values_def request_values_def account_values_def ledger_values_def


section \<open>The constraints are the laws of the tables\<close>

lemma keys_as_values:
  "distinct (map (\<lambda>r. [VInt (f r)]) rows) \<longleftrightarrow> distinct (map f rows)"
  "distinct (map (\<lambda>r. [VText (g r)]) rows) \<longleftrightarrow> distinct (map g rows)"
  "distinct (map (\<lambda>r. [VText (g r), VText (h r)]) rows) \<longleftrightarrow> distinct (map (\<lambda>r. (g r, h r)) rows)"
  "distinct (map (\<lambda>r. [VInt (f r), VInt (k r)]) rows) \<longleftrightarrow> distinct (map (\<lambda>r. (f r, k r)) rows)"
  by (auto simp: distinct_map inj_on_def)

lemma or_null_simps [simp]: "or_null f None = VNull" "or_null f (Some a) = f a"
  by (simp_all add: or_null_def)

lemma rows_of_simps [simp]:
  "rows_of t ''webhook_event'' = map event_values (webhook_event_t t)"
  "rows_of t ''processing_attempt'' = map attempt_values (processing_attempt_t t)"
  "rows_of t ''dead_letter_entry'' = map entry_values (dead_letter_entry_t t)"
  "rows_of t ''replay_request'' = map request_values (replay_request_t t)"
  "rows_of t ''account'' = map account_values (account_t t)"
  "rows_of t ''ledger_entry'' = map ledger_values (ledger_entry_t t)"
  by (simp_all add: rows_of_def)

lemma points_at:
  "VInt i \<in> set (map (value_of ''id'') (rows_of t ''webhook_event'')) \<longleftrightarrow> i \<in> event_ids t"
  "VInt i \<in> set (map (value_of ''id'') (rows_of t ''account'')) \<longleftrightarrow> i \<in> account_ids t"
  "VInt i \<in> set (map (value_of ''id'') (rows_of t ''processing_attempt'')) \<longleftrightarrow> i \<in> pa_id ` set (processing_attempt_t t)"
  by (auto simp: value_of_def values_defs event_ids_def account_ids_def image_iff)

lemma links_iff:
  "attempt_links t \<subseteq> S \<longleftrightarrow> (\<forall>r \<in> set (replay_request_t t). case rr_resulting_attempt_id r of None \<Rightarrow> True | Some i \<Rightarrow> i \<in> S)"
  unfolding attempt_links_def by (force split: option.splits)

lemmas constraint_simps = table_defs value_of_def values_defs comp_def keys_as_values list_all_iff filter_id_conv [THEN iffD2]

lemma event_constraints:
  "list_all (holds t (rows_of t ''webhook_event'')) (td_constraints webhook_event_0001) \<longleftrightarrow>
     distinct (map ev_id (webhook_event_t t)) \<and> distinct (map ev_key (webhook_event_t t))
     \<and> (\<forall>e \<in> set (webhook_event_t t). 0 \<le> ev_attempt_count e)"
  by (simp add: constraint_simps ev_key_def [abs_def])

lemma attempt_constraints:
  "list_all (holds t (rows_of t ''processing_attempt'')) (td_constraints processing_attempt_0001) \<longleftrightarrow>
     distinct (map pa_id (processing_attempt_t t)) \<and> distinct (map pa_key (processing_attempt_t t))
     \<and> pa_event_id ` set (processing_attempt_t t) \<subseteq> event_ids t
     \<and> (\<forall>a \<in> set (processing_attempt_t t). 1 \<le> pa_attempt_number a)"
  by (auto simp: constraint_simps pa_key_def [abs_def] event_ids_def image_iff)

lemma entry_constraints:
  "list_all (holds t (rows_of t ''dead_letter_entry'')) (td_constraints dead_letter_entry_0001) \<longleftrightarrow>
     distinct (map dl_id (dead_letter_entry_t t)) \<and> distinct (map dl_event_id (dead_letter_entry_t t))
     \<and> dl_event_id ` set (dead_letter_entry_t t) \<subseteq> event_ids t
     \<and> (\<forall>d \<in> set (dead_letter_entry_t t). 0 \<le> dl_attempts_made d)"
  by (auto simp: constraint_simps event_ids_def image_iff)

lemma request_constraints:
  "list_all (holds t (rows_of t ''replay_request'')) (td_constraints replay_request_0001) \<longleftrightarrow>
     distinct (map rr_id (replay_request_t t)) \<and> rr_event_id ` set (replay_request_t t) \<subseteq> event_ids t
     \<and> attempt_links t \<subseteq> pa_id ` set (processing_attempt_t t)"
  unfolding links_iff by (auto simp: constraint_simps event_ids_def image_iff or_null_def split: option.splits)

lemma account_constraints:
  "list_all (holds t (rows_of t ''account'')) (td_constraints (retype ''account'' ''version'' BigInteger account_0001)) \<longleftrightarrow>
     distinct (map ac_id (account_t t)) \<and> distinct (map ac_external_ref (account_t t))
     \<and> (\<forall>a \<in> set (account_t t). 0 \<le> ac_version a)"
  by (simp add: constraint_simps)

lemma ledger_constraints:
  "list_all (holds t (rows_of t ''ledger_entry'')) (td_constraints ledger_entry_0001) \<longleftrightarrow>
     distinct (map le_id (ledger_entry_t t)) \<and> distinct (map le_event_id (ledger_entry_t t))
     \<and> le_account_id ` set (ledger_entry_t t) \<subseteq> account_ids t
     \<and> le_event_id ` set (ledger_entry_t t) \<subseteq> event_ids t"
  by (auto simp: constraint_simps event_ids_def account_ids_def image_iff)

lemma table_names_deployed:
  "td_name webhook_event_0001 = ''webhook_event''" "td_name processing_attempt_0001 = ''processing_attempt''"
  "td_name dead_letter_entry_0001 = ''dead_letter_entry''" "td_name replay_request_0001 = ''replay_request''"
  "td_name (retype ''account'' ''version'' BigInteger account_0001) = ''account''" "td_name ledger_entry_0001 = ''ledger_entry''"
  by (simp_all add: table_defs)

lemma satisfies_tables:
  "satisfies deployed t \<longleftrightarrow>
     list_all (holds t (rows_of t ''webhook_event'')) (td_constraints webhook_event_0001)
   \<and> list_all (holds t (rows_of t ''processing_attempt'')) (td_constraints processing_attempt_0001)
   \<and> list_all (holds t (rows_of t ''dead_letter_entry'')) (td_constraints dead_letter_entry_0001)
   \<and> list_all (holds t (rows_of t ''replay_request'')) (td_constraints replay_request_0001)
   \<and> list_all (holds t (rows_of t ''account'')) (td_constraints (retype ''account'' ''version'' BigInteger account_0001))
   \<and> list_all (holds t (rows_of t ''ledger_entry'')) (td_constraints ledger_entry_0001)"
  by (simp only: satisfies_def deployed_tables list.pred_inject table_names_deployed simp_thms)

text \<open>C39. The table model is the schema: a state of the tables satisfies every primary key, unique constraint, check and foreign key
  of the migrated catalog exactly when identities and natural keys are distinct, references point at rows and
  the checks hold -- the laws the statements of the adapters are proved to keep.\<close>

theorem schema_means_the_model:
  "satisfies deployed t \<longleftrightarrow>
     distinct (map ev_id (webhook_event_t t)) \<and> distinct (map ev_key (webhook_event_t t))
   \<and> distinct (map pa_id (processing_attempt_t t)) \<and> distinct (map pa_key (processing_attempt_t t))
   \<and> distinct (map dl_id (dead_letter_entry_t t)) \<and> distinct (map dl_event_id (dead_letter_entry_t t))
   \<and> distinct (map rr_id (replay_request_t t))
   \<and> distinct (map ac_id (account_t t)) \<and> distinct (map ac_external_ref (account_t t))
   \<and> distinct (map le_id (ledger_entry_t t)) \<and> distinct (map le_event_id (ledger_entry_t t))
   \<and> refs_ok t \<and> checks_ok t"
  by (simp only: satisfies_tables event_constraints attempt_constraints entry_constraints request_constraints
      account_constraints ledger_constraints refs_ok_def checks_ok_def conj_ac)

lemma enum_labels:
  "webhook_status_value s \<in> set (snd WEBHOOK_STATUS)" "attempt_outcome_value a \<in> set (snd ATTEMPT_OUTCOME)"
  "dlq_status_value d \<in> set (snd DLQ_STATUS)" "replay_outcome_value r \<in> set (snd REPLAY_OUTCOME)"
  by (cases s; cases a; cases d; cases r; simp add: WEBHOOK_STATUS_def ATTEMPT_OUTCOME_def DLQ_STATUS_def REPLAY_OUTCOME_def)+

lemma row_fits_deployed:
  "row_fits deployed webhook_event_0001 (event_values e)" "row_fits deployed processing_attempt_0001 (attempt_values a)"
  "row_fits deployed dead_letter_entry_0001 (entry_values d)" "row_fits deployed replay_request_0001 (request_values r)"
  "row_fits deployed (retype ''account'' ''version'' BigInteger account_0001) (account_values b)"
  "row_fits deployed ledger_entry_0001 (ledger_values l)"
  using enum_labels
  by (simp_all add: row_fits_def column_names_def table_defs values_defs deployed_enums ENUMS_def or_null_def
      WEBHOOK_STATUS_def ATTEMPT_OUTCOME_def DLQ_STATUS_def REPLAY_OUTCOME_def split: option.splits)


end
