(* ===== verification/Outcomes.thy ===== *)
theory Outcomes
  imports DbObjects Floats
begin

text \<open>
  The view \<open>v_processing_outcomes\<close> of migration 0003: attempts by event type and outcome with their mean, 95th percentile and
  longest duration. \<open>avg\<close> is exact and rounds half away from zero, \<open>percentile_cont\<close> interpolates in double precision, and the cast of
  a double to \<open>bigint\<close> rounds half to even; all three ignore attempts without a duration.
\<close>

definition round_half_away :: "rat \<Rightarrow> int" where
  "round_half_away x = (if 0 \<le> x then \<lfloor>x + 1 / 2\<rfloor> else - \<lfloor>- x + 1 / 2\<rfloor>)"

definition average :: "int list \<Rightarrow> int option" where
  "average xs = (if xs = [] then None else Some (round_half_away (of_int (sum_list xs) / of_nat (length xs))))"

definition percentile_cont :: "rat \<Rightarrow> int list \<Rightarrow> rat option" where
  "percentile_cont p xs =
     (if xs = [] then None
      else let row = fmul (rnd p) (of_nat (length xs - 1)); lo = \<lfloor>row\<rfloor>; hi = \<lceil>row\<rceil>; ys = sort xs;
               first = of_int (ys ! nat lo); second = of_int (ys ! nat hi)
           in Some (if lo = hi then first else fadd first (fmul (fsub row (of_int lo)) (fsub second first))))"

record outcome_stats =
  os_event_type :: py_str
  os_outcome :: "attempt_outcome option"
  os_attempts :: int
  os_avg_ms :: "int option"
  os_p95_ms :: "int option"
  os_max_ms :: "int option"

definition attempts_with_type :: "tables \<Rightarrow> (py_str \<times> processing_attempt) list" where
  "attempts_with_type t = concat (map (\<lambda>a. map (\<lambda>e. (ev_event_type e, a))
     (filter (\<lambda>e. ev_id e = pa_event_id a) (webhook_event_t t))) (processing_attempt_t t))"

definition group_key :: "py_str \<times> processing_attempt \<Rightarrow> py_str \<times> attempt_outcome option" where
  "group_key r = (fst r, pa_outcome (snd r))"

definition durations :: "(py_str \<times> processing_attempt) list \<Rightarrow> int list" where
  "durations rows = concat (map (\<lambda>(_, a). case pa_duration_ms a of None \<Rightarrow> [] | Some d \<Rightarrow> [d]) rows)"

definition v_processing_outcomes :: "tables \<Rightarrow> outcome_stats list" where
  "v_processing_outcomes t = (let rows = attempts_with_type t in
     map (\<lambda>k. let mine = filter (\<lambda>r. group_key r = k) rows
              in \<lparr>os_event_type = fst k, os_outcome = snd k, os_attempts = int (length mine),
                  os_avg_ms = average (durations mine),
                  os_p95_ms = map_option round_half_even (percentile_cont (95 / 100) (durations mine)),
                  os_max_ms = max_col (\<lambda>d. d) (durations mine)\<rparr>)
       (remdups (map group_key rows)))"

text \<open>No attempt is lost or counted twice: every attempt has exactly one event, and falls into exactly one group.\<close>

lemma count_as_sum: "int (length (filter p rows)) = sum_col p (\<lambda>_. 1) rows"
  by (induction rows) (simp_all add: sum_col_simps)

lemma attempts_with_type_length:
  assumes "db_inv t s"
  shows "length (attempts_with_type t) = length (processing_attempt_t t)"
proof -
  have d: "distinct (map ev_id (webhook_event_t t))"
    and r: "pa_event_id ` set (processing_attempt_t t) \<subseteq> ev_id ` set (webhook_event_t t)"
    using assms by (simp_all add: db_inv_def keys_ok_def table_ok_def refs_ok_def event_ids_def)
  have one: "length (filter (\<lambda>e. ev_id e = i) es) = 1" if "i \<in> ev_id ` set es" "distinct (map ev_id es)" for i es
    using that by (induction es) (auto simp: filter_empty_conv, metis imageI)
  have "length (concat (map (\<lambda>a. map (\<lambda>e. (ev_event_type e, a)) (filter (\<lambda>e. ev_id e = pa_event_id a) (webhook_event_t t))) as)) = length as"
    if "pa_event_id ` set as \<subseteq> ev_id ` set (webhook_event_t t)" for as
    using that one [OF _ d] by (induction as) auto
  from this [OF r] show ?thesis by (simp add: attempts_with_type_def)
qed

lemma outcomes_complete:
  assumes "db_inv t s"
  shows "sum_list (map os_attempts (v_processing_outcomes t)) = int (length (processing_attempt_t t))"
proof -
  let ?rows = "attempts_with_type t"
  have "sum_list (map os_attempts (v_processing_outcomes t))
      = sum_list (map (\<lambda>k. sum_col (\<lambda>r. group_key r = k) (\<lambda>_. 1) ?rows) (remdups (map group_key ?rows)))"
    by (simp add: v_processing_outcomes_def Let_def o_def count_as_sum)
  also have "\<dots> = sum_list (map (\<lambda>_. 1) ?rows)"
    using sum_col_eq_sum_list [of "\<lambda>k. k" "remdups (map group_key ?rows)" group_key ?rows "\<lambda>_. 1"] by simp
  finally show ?thesis using attempts_with_type_length [OF assms] by (simp add: sum_list_triv)
qed

end
